(* ===== verification/X50_Prelude.thy ===== *)
theory X50_Prelude
  imports Main "HOL-Library.Word" "HOL-Library.Monad_Syntax"
begin

text \<open>
  What every component theory shares: bytes and byte buffers, checked memory accesses, the
  conversions C performs between \<open>int\<close> and \<open>unsigned char\<close>, NUL-terminated strings, and the
  lemma collections the component proofs use.

  Conventions of the whole development.
  \<^item> A byte is an \<open>8 word\<close>; a buffer is the list of the bytes of one C object, from the
    pointer that is passed to the end of the object. Reading or writing outside that list is
    undefined behaviour, which is the value \<open>None\<close>: \<open>rd\<close>, \<open>rd_n\<close> and \<open>wr_n\<close> below.
  \<^item> The target is \<open>arm-rockchip-linux-gnueabihf\<close> (the \<open>makefile\<close>), so plain \<open>char\<close> is
    unsigned, \<open>int\<close> has 32 bits and pointers have 32 bits.
  \<^item> C strings are \<open>string\<close> values without the terminating NUL, one \<open>char\<close> per byte.
  \<^item> Logging (\<open>dzlog_*\<close>, \<open>printf\<close>, \<open>EXAMPLE_TRACE\<close>) is left out everywhere.
\<close>

unbundle bit_operations_syntax

type_synonym byte = "8 word"
type_synonym bytes = "byte list"

named_theorems mem_simps \<open>reads and writes inside a buffer\<close>
named_theorems frame_simps \<open>lengths and positions in frames\<close>

section \<open>Checked memory accesses\<close>

definition rd :: "'a list \<Rightarrow> nat \<Rightarrow> 'a option" where
  "rd m k = (if k < length m then Some (m ! k) else None)"

definition rd_n :: "'a list \<Rightarrow> nat \<Rightarrow> nat \<Rightarrow> 'a list option" where
  "rd_n m k n = (if k + n \<le> length m then Some (take n (drop k m)) else None)"

definition wr_n :: "'a list \<Rightarrow> nat \<Rightarrow> 'a list \<Rightarrow> 'a list option" where
  "wr_n m k xs =
     (if k + length xs \<le> length m then Some (take k m @ xs @ drop (k + length xs) m) else None)"

lemma rd_in [mem_simps]: "k < length m \<Longrightarrow> rd m k = Some (m ! k)"
  by (simp add: rd_def)

lemma rd_eq_None_iff: "rd m k = None \<longleftrightarrow> length m \<le> k"
  by (simp add: rd_def)

lemma rd_eq_Some_iff: "rd m k = Some v \<longleftrightarrow> k < length m \<and> v = m ! k"
  by (auto simp: rd_def)

lemma rd_n_in [mem_simps]: "k + n \<le> length m \<Longrightarrow> rd_n m k n = Some (take n (drop k m))"
  by (simp add: rd_n_def)

lemma rd_n_eq_Some_iff:
  "rd_n m k n = Some v \<longleftrightarrow> k + n \<le> length m \<and> v = take n (drop k m)"
  by (auto simp: rd_n_def)

lemma rd_n_length: "rd_n m k n = Some v \<Longrightarrow> length v = n"
  by (auto simp: rd_n_def split: if_splits)

lemma wr_n_in [mem_simps]:
  "k + length xs \<le> length m \<Longrightarrow> wr_n m k xs = Some (take k m @ xs @ drop (k + length xs) m)"
  by (simp add: wr_n_def)

lemma wr_n_length: "wr_n m k xs = Some m' \<Longrightarrow> length m' = length m"
  by (auto simp: wr_n_def split: if_splits)

lemma wr_n_full: "length xs = length m \<Longrightarrow> wr_n m 0 xs = Some xs"
  by (simp add: wr_n_def)

lemma rd_append: "rd (xs @ ys) (length xs + i) = rd ys i"
  by (simp add: rd_def nth_append)

lemma rd_n_append: "rd_n (xs @ ys) (length xs + i) n = rd_n ys i n"
  by (simp add: rd_n_def)

lemma rd_append_left: "i < length xs \<Longrightarrow> rd (xs @ ys) i = Some (xs ! i)"
  by (simp add: rd_def nth_append)

section \<open>Integers and bytes\<close>

text \<open>\<open>int\<close> to \<open>unsigned char\<close> keeps the low eight bits; a 16-bit big-endian field is
  \<open>hi * 256 + lo\<close>.\<close>

definition byte_of_int :: "int \<Rightarrow> byte" where
  "byte_of_int n = word_of_int n"

definition byte_of_nat :: "nat \<Rightarrow> byte" where
  "byte_of_nat n = word_of_nat n"

definition be16 :: "byte \<Rightarrow> byte \<Rightarrow> nat" where
  "be16 hi lo = unat hi * 256 + unat lo"

text \<open>Signed 32-bit arithmetic wraps on the target (the source shifts and adds in \<open>int\<close>).\<close>

definition i32 :: "int \<Rightarrow> int" where
  "i32 n = sint (word_of_int n :: 32 word)"

lemma unat_byte_lt [simp]: "unat (b :: byte) < 256"
  using unsigned_less [of b] by simp

lemma byte_of_nat_unat [simp]: "byte_of_nat (unat b) = b"
  by (simp add: byte_of_nat_def)

lemma unat_byte_of_nat: "unat (byte_of_nat n) = n mod 256"
  by (simp add: byte_of_nat_def unat_of_nat take_bit_eq_mod)

lemma unat_byte_of_nat_small [simp]: "n < 256 \<Longrightarrow> unat (byte_of_nat n) = n"
  by (simp add: unat_byte_of_nat)

lemma be16_lt [simp]: "be16 hi lo < 65536"
proof -
  have "unat hi < 256" "unat lo < 256" by simp_all
  then show ?thesis unfolding be16_def by linarith
qed

lemma be16_split [frame_simps]:
  "n < 65536 \<Longrightarrow> be16 (byte_of_nat (n div 256)) (byte_of_nat n) = n"
  by (simp add: be16_def unat_byte_of_nat)

lemma be16_hi: "byte_of_nat (be16 hi lo div 256) = hi"
  by (simp add: be16_def)

lemma be16_lo: "byte_of_nat (be16 hi lo) = lo"
proof -
  have "unat (byte_of_nat (be16 hi lo)) = unat lo"
    by (simp add: unat_byte_of_nat be16_def)
  then show ?thesis by (metis byte_of_nat_unat)
qed

lemma unat_16_lt: "unat (w :: 16 word) < 65536"
  using unsigned_less [of w] by simp

lemma be16_word: "word_of_nat (be16 (byte_of_nat (unat w div 256)) (byte_of_nat (unat w))) = (w :: 16 word)"
  by (simp add: be16_split unat_16_lt)

section \<open>Characters and NUL-terminated strings\<close>

definition char_of_byte :: "byte \<Rightarrow> char" where
  "char_of_byte b = char_of (unat b)"

definition byte_of_char :: "char \<Rightarrow> byte" where
  "byte_of_char c = byte_of_nat (of_char c)"

definition bytes_of :: "string \<Rightarrow> bytes" where
  "bytes_of s = map byte_of_char s"

text \<open>\<open>strlen\<close> and the string functions read up to the first NUL: a buffer without one is
  read past its end.\<close>

definition c_str :: "bytes \<Rightarrow> string option" where
  "c_str m = (if 0 \<in> set m then Some (map char_of_byte (takeWhile (\<lambda>b. b \<noteq> 0) m)) else None)"

text \<open>\<open>strcpy\<close> into an array of \<open>n\<close> bytes: the text and its NUL have to fit.\<close>

definition str_fits :: "nat \<Rightarrow> string \<Rightarrow> string option" where
  "str_fits n s = (if length s < n then Some s else None)"

text \<open>\<open>strcpy\<close> into a buffer that the program also reads as bytes.\<close>

definition wr_str :: "bytes \<Rightarrow> string \<Rightarrow> bytes option" where
  "wr_str m s = wr_n m 0 (bytes_of s @ [0])"

lemma of_char_lt_256 [simp]: "(of_char c :: nat) < 256"
proof -
  have "(of_char c :: nat) \<in> range of_char" by (rule rangeI)
  then show ?thesis by (simp add: range_nat_of_char)
qed

lemma char_of_byte_of_char [simp]: "char_of_byte (byte_of_char c) = c"
  by (simp add: char_of_byte_def byte_of_char_def)

lemma byte_of_char_of_byte [simp]: "byte_of_char (char_of_byte b) = b"
  by (simp add: char_of_byte_def byte_of_char_def)

lemma length_bytes_of [simp]: "length (bytes_of s) = length s"
  by (simp add: bytes_of_def)

lemma byte_of_char_eq_0_iff [simp]: "byte_of_char c = 0 \<longleftrightarrow> c = CHR 0x00"
proof
  assume "byte_of_char c = 0"
  then have "char_of_byte (byte_of_char c) = char_of_byte 0" by (simp only:)
  then show "c = CHR 0x00" unfolding char_of_byte_of_char by (simp add: char_of_byte_def char_of_def)
next
  assume "c = CHR 0x00"
  then show "byte_of_char c = 0" by (simp add: byte_of_char_def byte_of_nat_def)
qed

lemma c_str_bytes_of:
  assumes "CHR 0x00 \<notin> set s"
  shows "c_str (bytes_of s @ 0 # rest) = Some s"
proof -
  have "takeWhile (\<lambda>b. b \<noteq> 0) (bytes_of s @ 0 # rest) = bytes_of s"
    using assms by (induction s) (auto simp: bytes_of_def)
  moreover have "map char_of_byte (bytes_of s) = s"
    by (simp add: bytes_of_def comp_def)
  ultimately show ?thesis by (simp add: c_str_def)
qed

lemma wr_str_c_str:
  assumes "wr_str m s = Some m'" and "CHR 0x00 \<notin> set s"
  shows "c_str m' = Some s"
  using assms c_str_bytes_of [of s "drop (Suc (length s)) m"]
  by (auto simp: wr_str_def wr_n_def split: if_splits)

text \<open>\<open>strtol\<close> and \<open>strtoull\<close> in base 10: white space, a sign, digits; text without digits
  is 0. \<open>None\<close> is \<open>ERANGE\<close> (\<open>long\<close> has 32 bits on the target); \<open>strtoull\<close> negates modulo
  \<open>2 ^ 64\<close>.\<close>

definition is_digit :: "char \<Rightarrow> bool" where
  "is_digit c \<longleftrightarrow> 48 \<le> (of_char c :: nat) \<and> (of_char c :: nat) \<le> 57"

definition is_space :: "char \<Rightarrow> bool" where
  "is_space c \<longleftrightarrow> (of_char c :: nat) = 32 \<or> 9 \<le> (of_char c :: nat) \<and> (of_char c :: nat) \<le> 13"

definition digits_value :: "string \<Rightarrow> int" where
  "digits_value s = fold (\<lambda>c n. n * 10 + (int (of_char c) - 48)) (takeWhile is_digit s) 0"

definition signed_digits :: "string \<Rightarrow> bool \<times> int" where
  "signed_digits s = (case dropWhile is_space s of
     [] \<Rightarrow> (False, 0)
   | c # cs \<Rightarrow> if c = CHR ''-'' then (True, digits_value cs)
               else if c = CHR ''+'' then (False, digits_value cs)
               else (False, digits_value (c # cs)))"

definition strtol10 :: "string \<Rightarrow> int option" where
  "strtol10 s = (case signed_digits s of (neg, n) \<Rightarrow>
     let v = (if neg then - n else n) in if v < - (2 ^ 31) \<or> 2 ^ 31 \<le> v then None else Some v)"

definition strtoull10 :: "string \<Rightarrow> int option" where
  "strtoull10 s = (case signed_digits s of (neg, n) \<Rightarrow>
     if 2 ^ 64 \<le> n then None else Some ((if neg then - n else n) mod 2 ^ 64))"

section \<open>Generic list lemmas\<close>

lemma nth_append_at [frame_simps]: "length xs = n \<Longrightarrow> (xs @ y # ys) ! n = y"
  by auto

lemma take_drop_append [frame_simps]:
  "length xs = k \<Longrightarrow> length ys = n \<Longrightarrow> take n (drop k (xs @ ys @ zs)) = ys"
  by simp

lemma option_bind_Some_iff:
  "Option.bind m f = Some y \<longleftrightarrow> (\<exists>x. m = Some x \<and> f x = Some y)"
  by (cases m) auto

lemma option_bind_None_iff:
  "Option.bind m f = None \<longleftrightarrow> m = None \<or> (\<exists>x. m = Some x \<and> f x = None)"
  by (cases m) auto

text \<open>A C loop over an array that may fault: \<open>fold\<close> in the option type.\<close>

fun foldM :: "('a \<Rightarrow> 's \<Rightarrow> 's option) \<Rightarrow> 'a list \<Rightarrow> 's \<Rightarrow> 's option" where
  "foldM f [] s = Some s"
| "foldM f (x # xs) s = do { s' \<leftarrow> f x s; foldM f xs s' }"

lemma foldM_append: "foldM f (xs @ ys) s = do { s' \<leftarrow> foldM f xs s; foldM f ys s' }"
  by (induction xs arbitrary: s) (auto split: Option.bind_split)

lemma foldM_invariant:
  assumes "foldM f xs s = Some s'" and "P s"
    and "\<And>x s s'. x \<in> set xs \<Longrightarrow> P s \<Longrightarrow> f x s = Some s' \<Longrightarrow> P s'"
  shows "P s'"
  using assms
proof (induction xs arbitrary: s)
  case (Cons x xs)
  from Cons.prems(1) obtain t where "f x s = Some t" and "foldM f xs t = Some s'"
    by (auto simp: option_bind_Some_iff)
  with Cons show ?case by (metis list.set_intros(1,2))
qed simp

lemma foldM_total:
  assumes "P s" and "\<And>x s. x \<in> set xs \<Longrightarrow> P s \<Longrightarrow> \<exists>s'. f x s = Some s' \<and> P s'"
  shows "\<exists>s'. foldM f xs s = Some s' \<and> P s'"
  using assms
proof (induction xs arbitrary: s)
  case (Cons x xs)
  from Cons.prems obtain t where t: "f x s = Some t" "P t"
    by (metis list.set_intros(1))
  with Cons obtain u where "foldM f xs t = Some u \<and> P u"
    by (metis list.set_intros(2))
  with t show ?case by simp
qed simp

section \<open>Search loops\<close>

text \<open>\<open>for (; i < n; ++i) if (P(i)) break;\<close> returns the value of \<open>i\<close> after the loop.\<close>

function find_idx :: "(nat \<Rightarrow> bool option) \<Rightarrow> nat \<Rightarrow> nat \<Rightarrow> nat option" where
  "find_idx P i n =
     (if i < n then do { b \<leftarrow> P i; if b then Some i else find_idx P (Suc i) n } else Some i)"
  by pat_completeness auto
termination by (relation "measure (\<lambda>(_, i, n). n - i)") auto

declare find_idx.simps [simp del]

lemma find_idx_stop: "n \<le> i \<Longrightarrow> find_idx P i n = Some i"
  by (simp add: find_idx.simps)

lemma find_idx_hit: "i < n \<Longrightarrow> P i = Some True \<Longrightarrow> find_idx P i n = Some i"
  by (simp add: find_idx.simps)

lemma find_idx_step: "i < n \<Longrightarrow> P i = Some False \<Longrightarrow> find_idx P i n = find_idx P (Suc i) n"
  by (subst find_idx.simps) simp

text \<open>The loop with every test defined: the first hit, or the bound.\<close>

lemma find_idx_ex:
  assumes "i \<le> n" and "\<And>j. i \<le> j \<Longrightarrow> j < n \<Longrightarrow> P j \<noteq> None"
  shows "\<exists>k. find_idx P i n = Some k \<and> i \<le> k \<and> k \<le> n \<and>
    (\<forall>j. i \<le> j \<and> j < k \<longrightarrow> P j = Some False) \<and> (k < n \<longrightarrow> P k = Some True)"
  using assms
proof (induction "n - i" arbitrary: i)
  case 0
  then show ?case by (auto simp: find_idx_stop)
next
  case (Suc d)
  then have lt: "i < n" by simp
  show ?case
  proof (cases "P i = Some True")
    case True
    with lt show ?thesis by (intro exI [of _ i]) (auto simp: find_idx_hit)
  next
    case False
    with Suc.prems(2) [of i] lt have f: "P i = Some False" by (cases "P i") auto
    have "d = n - Suc i" "Suc i \<le> n" using Suc.hyps(2) lt by simp_all
    with Suc.hyps(1) [of "Suc i"] Suc.prems(2)
    obtain k where k: "find_idx P (Suc i) n = Some k" "Suc i \<le> k" "k \<le> n"
      "\<And>j. Suc i \<le> j \<Longrightarrow> j < k \<Longrightarrow> P j = Some False" "k < n \<longrightarrow> P k = Some True"
      by auto
    have "P j = Some False" if "i \<le> j" "j < k" for j
      using that f k(4) [of j] by (cases "j = i") auto
    with k f lt show ?thesis
      by (intro exI [of _ k]) (simp add: find_idx_step)
  qed
qed

lemma find_idx_total:
  assumes "i \<le> n" and "\<And>j. i \<le> j \<Longrightarrow> j < n \<Longrightarrow> P j \<noteq> None"
  obtains k where "find_idx P i n = Some k" "i \<le> k" "k \<le> n"
    "\<And>j. i \<le> j \<Longrightarrow> j < k \<Longrightarrow> P j = Some False" "k < n \<Longrightarrow> P k = Some True"
  using find_idx_ex [of i n P, OF assms] by blast

lemma find_idx_first:
  assumes "k < n" and "i \<le> k" and "\<And>j. i \<le> j \<Longrightarrow> j < k \<Longrightarrow> P j = Some False" and "P k = Some True"
  shows "find_idx P i n = Some k"
  using assms
proof (induction "k - i" arbitrary: i)
  case 0
  then show ?case by (simp add: find_idx_hit)
next
  case (Suc d)
  then have "find_idx P i n = find_idx P (Suc i) n"
    by (intro find_idx_step) auto
  with Suc show ?case by (simp add: Suc_leI)
qed

lemma find_idx_none:
  assumes "i \<le> n" and "\<And>j. i \<le> j \<Longrightarrow> j < n \<Longrightarrow> P j = Some False"
  shows "find_idx P i n = Some n"
  using assms
proof (induction "n - i" arbitrary: i)
  case 0
  then show ?case by (simp add: find_idx_stop)
next
  case (Suc d)
  then have "find_idx P i n = find_idx P (Suc i) n"
    by (intro find_idx_step) auto
  with Suc show ?case by (simp add: Suc_leI)
qed

end
