(* ===== verification/X50_Json.thy ===== *)
theory X50_Json
  imports X50_Prelude
begin

text \<open>
  The part of \<open>liblinktool/cJSON/cJSON.c\<close> (1.7.13) the program works with: the item tree, the
  accessors and constructors, and the unformatted printer.

  A \<open>cJSON *\<close> that may be NULL is a \<open>json option\<close>. Numbers are kept as their \<open>valueint\<close>: every
  number the program creates comes from an \<open>int\<close>, and of a parsed number it reads \<open>valueint\<close>
  only. Keys and strings hold no NUL, as in C. Allocation is assumed to succeed.
\<close>

section \<open>Items and accessors\<close>

datatype json =
    JNull
  | JBool bool
  | JNum int
  | JStr string
  | JArr "json list"
  | JObj "(string \<times> json) list"

fun children :: "json \<Rightarrow> json list" where
  "children (JArr xs) = xs"
| "children (JObj kvs) = map snd kvs"
| "children _ = []"

text \<open>The fields \<open>valueint\<close> and \<open>valuestring\<close> as \<open>parse_value\<close> and the constructors leave
  them: an item is zeroed first, so \<open>valueint\<close> is 0 and \<open>valuestring\<close> is NULL by default.\<close>

fun valueint :: "json \<Rightarrow> int" where
  "valueint (JNum n) = n"
| "valueint (JBool b) = (if b then 1 else 0)"
| "valueint _ = 0"

fun valuestring :: "json \<Rightarrow> string option" where
  "valuestring (JStr s) = Some s"
| "valuestring _ = None"

definition cJSON_GetArraySize :: "json option \<Rightarrow> nat" where
  "cJSON_GetArraySize a = (case a of None \<Rightarrow> 0 | Some j \<Rightarrow> length (children j))"

definition cJSON_GetArrayItem :: "json option \<Rightarrow> nat \<Rightarrow> json option" where
  "cJSON_GetArrayItem a i = (case a of None \<Rightarrow> None | Some j \<Rightarrow> rd (children j) i)"

definition tolower :: "char \<Rightarrow> char" where
  "tolower c =
     (let n = (of_char c :: nat) in if 65 \<le> n \<and> n \<le> 90 then char_of (n + 32) else c)"

definition case_insensitive_eq :: "string \<Rightarrow> string \<Rightarrow> bool" where
  "case_insensitive_eq s t \<longleftrightarrow> map tolower s = map tolower t"

definition cJSON_GetObjectItem :: "json option \<Rightarrow> string \<Rightarrow> json option" where
  "cJSON_GetObjectItem ob name =
     (case ob of
        Some (JObj kvs) \<Rightarrow> map_option snd (List.find (\<lambda>(k, v). case_insensitive_eq name k) kvs)
      | _ \<Rightarrow> None)"

definition cJSON_HasObjectItem :: "json option \<Rightarrow> string \<Rightarrow> bool" where
  "cJSON_HasObjectItem ob name \<longleftrightarrow> cJSON_GetObjectItem ob name \<noteq> None"

section \<open>Constructors\<close>

definition cJSON_CreateObject :: json where
  "cJSON_CreateObject = JObj []"

definition cJSON_CreateArray :: json where
  "cJSON_CreateArray = JArr []"

text \<open>\<open>cJSON_AddItemToObject\<close> appends to the child list under the given key: an existing entry
  with the same key stays in front of it.\<close>

fun cJSON_AddItemToObject :: "json \<Rightarrow> string \<Rightarrow> json \<Rightarrow> json" where
  "cJSON_AddItemToObject (JObj kvs) k v = JObj (kvs @ [(k, v)])"
| "cJSON_AddItemToObject (JArr xs) k v = JArr (xs @ [v])"
| "cJSON_AddItemToObject j k v = j"

fun cJSON_AddItemToArray :: "json \<Rightarrow> json \<Rightarrow> json" where
  "cJSON_AddItemToArray (JArr xs) v = JArr (xs @ [v])"
| "cJSON_AddItemToArray (JObj kvs) v = JObj (kvs @ [([], v)])"
| "cJSON_AddItemToArray j v = j"

abbreviation cJSON_AddNumberToObject :: "json \<Rightarrow> string \<Rightarrow> int \<Rightarrow> json" where
  "cJSON_AddNumberToObject j k n \<equiv> cJSON_AddItemToObject j k (JNum n)"

abbreviation cJSON_AddStringToObject :: "json \<Rightarrow> string \<Rightarrow> string \<Rightarrow> json" where
  "cJSON_AddStringToObject j k s \<equiv> cJSON_AddItemToObject j k (JStr s)"

abbreviation cJSON_AddNullToObject :: "json \<Rightarrow> string \<Rightarrow> json" where
  "cJSON_AddNullToObject j k \<equiv> cJSON_AddItemToObject j k JNull"

section \<open>Printing\<close>

text \<open>\<open>%d\<close>, and \<open>%1.15g\<close> on a number with at most 15 digits.\<close>

fun dec_nat :: "nat \<Rightarrow> string" where
  "dec_nat n = (if n < 10 then [char_of (48 + n)] else dec_nat (n div 10) @ [char_of (48 + n mod 10)])"

declare dec_nat.simps [simp del]

definition dec_int :: "int \<Rightarrow> string" where
  "dec_int n = (if n < 0 then CHR ''-'' # dec_nat (nat (- n)) else dec_nat (nat n))"

definition hex_digit :: "nat \<Rightarrow> char" where
  "hex_digit d = (if d < 10 then char_of (48 + d) else char_of (87 + d))"

definition print_char :: "char \<Rightarrow> string" where
  "print_char c =
     (let n = (of_char c :: nat) in
      if n > 31 \<and> n \<noteq> 34 \<and> n \<noteq> 92 then [c]
      else if n = 92 then [CHR 0x5C, CHR 0x5C]
      else if n = 34 then [CHR 0x5C, CHR 0x22]
      else if n = 8 then [CHR 0x5C, CHR ''b'']
      else if n = 12 then [CHR 0x5C, CHR ''f'']
      else if n = 10 then [CHR 0x5C, CHR ''n'']
      else if n = 13 then [CHR 0x5C, CHR ''r'']
      else if n = 9 then [CHR 0x5C, CHR ''t'']
      else [CHR 0x5C, CHR ''u'', CHR ''0'', CHR ''0'', hex_digit (n div 16), hex_digit (n mod 16)])"

definition print_string_ptr :: "string \<Rightarrow> string" where
  "print_string_ptr s = CHR 0x22 # concat (map print_char s) @ [CHR 0x22]"

fun comma_sep :: "string list \<Rightarrow> string" where
  "comma_sep [] = []"
| "comma_sep [x] = x"
| "comma_sep (x # y # zs) = x @ CHR '','' # comma_sep (y # zs)"

fun cJSON_PrintUnformatted :: "json \<Rightarrow> string" where
  "cJSON_PrintUnformatted JNull = ''null''"
| "cJSON_PrintUnformatted (JBool b) = (if b then ''true'' else ''false'')"
| "cJSON_PrintUnformatted (JNum n) = dec_int n"
| "cJSON_PrintUnformatted (JStr s) = print_string_ptr s"
| "cJSON_PrintUnformatted (JArr xs) =
     CHR ''['' # comma_sep (map cJSON_PrintUnformatted xs) @ '']''"
| "cJSON_PrintUnformatted (JObj kvs) =
     CHR ''{'' # comma_sep (map (\<lambda>(k, v). print_string_ptr k @ CHR '':'' # cJSON_PrintUnformatted v) kvs)
       @ ''}''"

section \<open>Lemmas\<close>

lemma case_insensitive_eq_refl [simp]: "case_insensitive_eq s s"
  by (simp add: case_insensitive_eq_def)

lemma case_insensitive_eq_sym: "case_insensitive_eq s t \<longleftrightarrow> case_insensitive_eq t s"
  by (auto simp: case_insensitive_eq_def)

lemma GetObjectItem_add:
  "cJSON_GetObjectItem (Some (cJSON_AddItemToObject (JObj kvs) k v)) name =
     (case cJSON_GetObjectItem (Some (JObj kvs)) name of
        Some x \<Rightarrow> Some x
      | None \<Rightarrow> if case_insensitive_eq name k then Some v else None)"
proof (induction kvs)
  case (Cons kv kvs)
  then show ?case
    by (cases kv) (simp add: cJSON_GetObjectItem_def split: option.splits if_splits)
qed (simp add: cJSON_GetObjectItem_def)

lemma GetObjectItem_empty [simp]: "cJSON_GetObjectItem (Some (JObj [])) name = None"
  by (simp add: cJSON_GetObjectItem_def)

lemma GetObjectItem_None [simp]: "cJSON_GetObjectItem None name = None"
  by (simp add: cJSON_GetObjectItem_def)

lemma dec_nat_not_Nil [simp]: "dec_nat n \<noteq> []"
  by (subst dec_nat.simps) simp

lemma dec_nat_digits: "c \<in> set (dec_nat n) \<Longrightarrow> 48 \<le> (of_char c :: nat) \<and> (of_char c :: nat) \<le> 57"
proof (induction n rule: dec_nat.induct)
  case (1 n)
  then show ?case
    by (subst (asm) (2) dec_nat.simps) (auto split: if_splits)
qed

lemma print_nonempty [simp]: "cJSON_PrintUnformatted j \<noteq> []"
  by (cases j) (auto simp: dec_int_def print_string_ptr_def)

lemma comma_sep_eq_Nil: "comma_sep xs = [] \<longleftrightarrow> xs = [] \<or> xs = [[]]"
  by (induction xs rule: comma_sep.induct) auto

lemma of_char_brace [simp]: "(of_char (CHR ''{'') :: nat) = 123"
  by simp

lemma print_eq_empty_object:
  "cJSON_PrintUnformatted j = ''{}'' \<longleftrightarrow> j = JObj []"
proof (cases j)
  case (JNum n)
  have "dec_nat m \<noteq> ''{}''" for m
    using dec_nat_digits [of "CHR ''{''" m] by auto
  then show ?thesis
    using JNum by (auto simp: dec_int_def)
next
  case (JObj kvs)
  then show ?thesis
    by (auto simp: comma_sep_eq_Nil print_string_ptr_def split: prod.splits)
qed (auto simp: print_string_ptr_def)

end
