(* ===== verification/X50_Json_Parse.thy ===== *)
theory X50_Json_Parse
  imports X50_Json
begin

text \<open>
  The parser of \<open>liblinktool/cJSON/cJSON.c\<close>: \<open>cJSON_Parse\<close> and everything below it.

  The text is the C string without its NUL, and the state of the parser is the rest of the text, so that
  an empty rest is the position of the NUL, which no case of the parser accepts. When a call fails, the
  whole parse fails, and the position is not looked at any more. \<open>depth\<close> is the field of the parse buffer.

  A list or a member list goes on after a value only when the value has used up text; the test is there
  for termination, and \<open>parse_shorter\<close> shows that it never fails.
\<close>

section \<open>Numbers\<close>

text \<open>\<open>strtod\<close> on the characters \<open>parse_number\<close> lets through: a sign, digits with an optional point, and
  an optional exponent. The result is the sign, the digits as a number, the power of ten, and the number
  of characters used; \<open>None\<close> when there are no digits.\<close>

definition number_char :: "char \<Rightarrow> bool" where
  "number_char c \<longleftrightarrow> is_digit c \<or> c \<in> {CHR ''+'', CHR ''-'', CHR ''e'', CHR ''E'', CHR ''.''}"

definition digits_nat :: "string \<Rightarrow> nat" where
  "digits_nat s = fold (\<lambda>c n. n * 10 + (of_char c - 48)) s 0"

definition take_sign :: "string \<Rightarrow> bool \<times> string" where
  "take_sign s = (case s of [] \<Rightarrow> (False, []) | c # cs \<Rightarrow>
     if c = CHR ''-'' then (True, cs) else if c = CHR ''+'' then (False, cs) else (False, c # cs))"

definition take_exponent :: "string \<Rightarrow> int \<times> string" where
  "take_exponent s = (case s of [] \<Rightarrow> (0, []) | c # cs \<Rightarrow>
     if c = CHR ''e'' \<or> c = CHR ''E'' then
       (case take_sign cs of (neg, t) \<Rightarrow>
          let ds = takeWhile is_digit t in
          if ds = [] then (0, s) else (if neg then - int (digits_nat ds) else int (digits_nat ds), dropWhile is_digit t))
     else (0, s))"

definition take_fraction :: "bool \<Rightarrow> string \<Rightarrow> string \<times> string" where
  "take_fraction whole s = (case s of [] \<Rightarrow> ([], []) | c # cs \<Rightarrow>
     if c = CHR ''.'' \<and> (whole \<or> takeWhile is_digit cs \<noteq> []) then (takeWhile is_digit cs, dropWhile is_digit cs) else ([], s))"

definition strtod :: "string \<Rightarrow> (bool \<times> nat \<times> int \<times> string) option" where
  "strtod s =
     (let (neg, t) = take_sign s;
          whole = takeWhile is_digit t;
          (frac, t) = take_fraction (whole \<noteq> []) (dropWhile is_digit t);
          (e, t') = take_exponent t
      in if whole = [] \<and> frac = [] then None
         else Some (neg, digits_nat (whole @ frac), e - int (length frac), t'))"

text \<open>\<open>valueint\<close> of the number: a \<open>double\<close> has 53 bits of precision, rounded to the nearest, ties to
  even; the conversion to \<open>int\<close> cuts, and saturates. Of \<open>num / den\<close> with a whole part of \<open>k\<close> bits, 53 - \<open>k\<close>
  binary digits after the point are kept.\<close>

fun bit_length :: "nat \<Rightarrow> nat" where
  "bit_length n = (if n = 0 then 0 else Suc (bit_length (n div 2)))"

declare bit_length.simps [simp del]

definition round_half_even :: "nat \<Rightarrow> nat \<Rightarrow> nat" where
  "round_half_even num den =
     (let f = num div den; r = num mod den in
      if 2 * r < den then f else if 2 * r > den then f + 1 else if even f then f else f + 1)"

definition double_whole :: "nat \<Rightarrow> nat \<Rightarrow> nat" where
  "double_whole num den =
     (let k = 53 - bit_length (num div den) in round_half_even (num * 2 ^ k) den div 2 ^ k)"

definition INT_MAX :: int where "INT_MAX = 2147483647"
definition INT_MIN :: int where "INT_MIN = - 2147483648"

definition int_of_decimal :: "bool \<Rightarrow> nat \<Rightarrow> int \<Rightarrow> int" where
  "int_of_decimal neg m e =
     (let num = (if e \<ge> 0 then m * 10 ^ nat e else m); den = (if e \<ge> 0 then 1 else 10 ^ nat (- e));
          n = (if num div den \<ge> 2 ^ 31 then 2 ^ 31 else int (double_whole num den))
      in if neg then max INT_MIN (- n) else min INT_MAX n)"

text \<open>The characters are copied into an array of 64 bytes first.\<close>

definition parse_number :: "string \<Rightarrow> (int \<times> string) option" where
  "parse_number s =
     (let buf = takeWhile number_char (take 63 s) in
      case strtod buf of
        None \<Rightarrow> None
      | Some (neg, m, e, t) \<Rightarrow> Some (int_of_decimal neg m e, drop (length buf - length t) s))"

section \<open>Strings\<close>

definition hex_value :: "char \<Rightarrow> nat option" where
  "hex_value c =
     (let n = of_char c in
      if 48 \<le> n \<and> n \<le> 57 then Some (n - 48)
      else if 65 \<le> n \<and> n \<le> 70 then Some (n - 55)
      else if 97 \<le> n \<and> n \<le> 102 then Some (n - 87) else None)"

text \<open>An invalid digit makes the whole number 0.\<close>

definition parse_hex4 :: "string \<Rightarrow> nat" where
  "parse_hex4 s = (case foldM (\<lambda>c h. map_option (\<lambda>v. h * 16 + v) (hex_value c)) (take 4 s) 0 of
     None \<Rightarrow> 0 | Some h \<Rightarrow> h)"

definition utf8 :: "nat \<Rightarrow> string" where
  "utf8 cp =
     (if cp < 0x80 then [char_of cp]
      else if cp < 0x800 then [char_of (0xC0 + cp div 64), char_of (0x80 + cp mod 64)]
      else if cp < 0x10000 then
        [char_of (0xE0 + cp div 4096), char_of (0x80 + cp div 64 mod 64), char_of (0x80 + cp mod 64)]
      else [char_of (0xF0 + cp div 262144), char_of (0x80 + cp div 4096 mod 64),
        char_of (0x80 + cp div 64 mod 64), char_of (0x80 + cp mod 64)])"

text \<open>\<open>s\<close> is the text from the backslash to the end of the string: the bytes and the length of the
  sequence.\<close>

definition utf16_literal_to_utf8 :: "string \<Rightarrow> (string \<times> nat) option" where
  "utf16_literal_to_utf8 s =
     (if length s < 6 then None
      else
        let first_code = parse_hex4 (drop 2 s) in
        if 0xDC00 \<le> first_code \<and> first_code \<le> 0xDFFF then None
        else if 0xD800 \<le> first_code \<and> first_code \<le> 0xDBFF then
          (if length s - 6 < 6 then None
           else if s ! 6 \<noteq> CHR 0x5C \<or> s ! 7 \<noteq> CHR ''u'' then None
           else
             let second_code = parse_hex4 (drop 8 s) in
             if second_code < 0xDC00 \<or> second_code > 0xDFFF then None
             else Some (utf8 (0x10000 + ((first_code mod 0x400) * 0x400 + second_code mod 0x400)), 12))
        else Some (utf8 first_code, 6))"

text \<open>The first pass: the text up to the closing quote, and what follows it.\<close>

fun string_end :: "string \<Rightarrow> (string \<times> string) option" where
  "string_end [] = None"
| "string_end (c # cs) =
     (if c = CHR 0x22 then Some ([], cs)
      else if c = CHR 0x5C then
        (case cs of [] \<Rightarrow> None | d # ds \<Rightarrow> map_option (\<lambda>(b, r). (c # d # b, r)) (string_end ds))
      else map_option (\<lambda>(b, r). (c # b, r)) (string_end cs))"

text \<open>The second pass. A \<open>\\u\<close> sequence may take a backslash of an escape with it, so that a single
  backslash is left at the end; the character behind it is then the closing quote.\<close>

definition escape_char :: "char \<Rightarrow> char option" where
  "escape_char d =
     (if d = CHR ''b'' then Some (CHR 0x08) else if d = CHR ''f'' then Some (CHR 0x0C)
      else if d = CHR ''n'' then Some (CHR 0x0A) else if d = CHR ''r'' then Some (CHR 0x0D)
      else if d = CHR ''t'' then Some (CHR 0x09)
      else if d = CHR 0x22 \<or> d = CHR 0x5C \<or> d = CHR ''/'' then Some d else None)"

function unescape :: "string \<Rightarrow> string option" where
  "unescape s = (case s of
     [] \<Rightarrow> Some []
   | c # cs \<Rightarrow>
       if c \<noteq> CHR 0x5C then map_option ((#) c) (unescape cs)
       else
         let d = (case cs of [] \<Rightarrow> CHR 0x22 | d # _ \<Rightarrow> d) in
         if d = CHR ''u'' then
           (case utf16_literal_to_utf8 s of
              None \<Rightarrow> None
            | Some (out, n) \<Rightarrow> map_option ((@) out) (unescape (drop (n - 1) cs)))
         else
           (case escape_char d of None \<Rightarrow> None | Some e \<Rightarrow> map_option ((#) e) (unescape (drop 1 cs))))"
  by pat_completeness auto
termination by (relation "measure length") auto

declare unescape.simps [simp del]

text \<open>The value is a C string again: it ends at the first NUL, which \<open>\\u0000\<close> gives.\<close>

definition parse_string :: "string \<Rightarrow> (string \<times> string) option" where
  "parse_string s = (case s of
     [] \<Rightarrow> None
   | c # cs \<Rightarrow>
       if c \<noteq> CHR 0x22 then None
       else case string_end cs of
         None \<Rightarrow> None
       | Some (body, rest) \<Rightarrow> map_option (\<lambda>out. (takeWhile (\<lambda>c. c \<noteq> CHR 0x00) out, rest)) (unescape body))"

section \<open>Values\<close>

definition CJSON_NESTING_LIMIT :: nat where "CJSON_NESTING_LIMIT = 1000"

definition buffer_skip_whitespace :: "string \<Rightarrow> string" where
  "buffer_skip_whitespace = dropWhile (\<lambda>c. (of_char c :: nat) \<le> 32)"

lemma skip_whitespace_length: "length (buffer_skip_whitespace s) \<le> length s"
  by (simp add: buffer_skip_whitespace_def length_dropWhile_le)

lemma skip_whitespace_Cons: "buffer_skip_whitespace s = c # t \<Longrightarrow> length t < length s"
  using skip_whitespace_length [of s] by simp

lemma skip_whitespace_twice:
  "buffer_skip_whitespace s = c # t \<Longrightarrow> length (buffer_skip_whitespace t) < length s"
  using skip_whitespace_Cons [of s c t] skip_whitespace_length [of t] by simp

lemma string_end_length: "string_end s = Some (b, r) \<Longrightarrow> length r < length s"
proof (induction s arbitrary: b r rule: string_end.induct)
  case (2 c cs)
  then show ?case by (fastforce split: if_splits list.splits)
qed simp

lemma parse_string_length: "parse_string s = Some (v, r) \<Longrightarrow> length r < length s"
  by (auto simp: parse_string_def split: list.splits if_splits option.splits dest!: string_end_length)

function
  parse_value :: "nat \<Rightarrow> string \<Rightarrow> (json \<times> string) option" and
  parse_array :: "nat \<Rightarrow> string \<Rightarrow> (json list \<times> string) option" and
  parse_object :: "nat \<Rightarrow> string \<Rightarrow> ((string \<times> json) list \<times> string) option"
where
  "parse_value depth s =
     (if take 4 s = ''null'' then Some (JNull, drop 4 s)
      else if take 5 s = ''false'' then Some (JBool False, drop 5 s)
      else if take 4 s = ''true'' then Some (JBool True, drop 4 s)
      else (case s of [] \<Rightarrow> None | c # cs \<Rightarrow>
        if c = CHR 0x22 then map_option (apfst JStr) (parse_string s)
        else if c = CHR ''-'' \<or> is_digit c then map_option (apfst JNum) (parse_number s)
        else if c = CHR ''['' then
          (if depth \<ge> CJSON_NESTING_LIMIT then None
           else case buffer_skip_whitespace cs of [] \<Rightarrow> None | c # r \<Rightarrow>
             if c = CHR '']'' then Some (JArr [], r) else map_option (apfst JArr) (parse_array (depth + 1) (c # r)))
        else if c = CHR ''{'' then
          (if depth \<ge> CJSON_NESTING_LIMIT then None
           else case buffer_skip_whitespace cs of [] \<Rightarrow> None | c # r \<Rightarrow>
             if c = CHR ''}'' then Some (JObj [], r) else map_option (apfst JObj) (parse_object (depth + 1) (c # r)))
        else None))"
| "parse_array depth s =
     (case parse_value depth s of None \<Rightarrow> None | Some (v, r) \<Rightarrow>
        (case buffer_skip_whitespace r of [] \<Rightarrow> None | c # t \<Rightarrow>
          if c = CHR '','' then
            (if length r < length s then map_option (apfst ((#) v)) (parse_array depth (buffer_skip_whitespace t)) else None)
          else if c = CHR '']'' then Some ([v], t)
          else None))"
| "parse_object depth s =
     (case parse_string s of None \<Rightarrow> None | Some (k, r0) \<Rightarrow>
        (case buffer_skip_whitespace r0 of [] \<Rightarrow> None | c0 # t0 \<Rightarrow>
          if c0 \<noteq> CHR '':'' then None
          else (case parse_value depth (buffer_skip_whitespace t0) of None \<Rightarrow> None | Some (v, r) \<Rightarrow>
            (case buffer_skip_whitespace r of [] \<Rightarrow> None | c # t \<Rightarrow>
              if c = CHR '','' then
                (if length r < length s then map_option (apfst ((#) (k, v))) (parse_object depth (buffer_skip_whitespace t)) else None)
              else if c = CHR ''}'' then Some ([(k, v)], t)
              else None))))"
  by pat_completeness auto
termination
  apply (relation "measure (\<lambda>x. case x of Inl (_, s) \<Rightarrow> 2 * length s
    | Inr (Inl (_, s)) \<Rightarrow> 2 * length s + 1 | Inr (Inr (_, s)) \<Rightarrow> 2 * length s + 1)")
       apply simp_all
      apply (drule skip_whitespace_Cons, simp)
     apply (drule skip_whitespace_Cons, simp)
    apply (drule skip_whitespace_twice, simp)
   apply (drule skip_whitespace_twice, use parse_string_length in fastforce)
  apply (drule (1) skip_whitespace_twice [THEN less_trans, rotated], simp)
  done

declare parse_value.simps [simp del] parse_array.simps [simp del] parse_object.simps [simp del]

definition skip_utf8_bom :: "string \<Rightarrow> string" where
  "skip_utf8_bom s = (if length s \<ge> 4 \<and> take 3 s = [CHR 0xEF, CHR 0xBB, CHR 0xBF] then drop 3 s else s)"

definition cJSON_Parse :: "string \<Rightarrow> json option" where
  "cJSON_Parse s = map_option fst (parse_value 0 (buffer_skip_whitespace (skip_utf8_bom s)))"

section \<open>Every value uses up text\<close>

lemma take_sign_length: "take_sign s = (neg, t) \<Longrightarrow> length t \<le> length s"
  by (auto simp: take_sign_def split: list.splits if_splits)

lemma take_exponent_length: "take_exponent s = (e, t) \<Longrightarrow> length t \<le> length s"
  using take_sign_length [of "tl s"] length_dropWhile_le [of is_digit]
  by (fastforce simp: take_exponent_def Let_def split: list.splits if_splits prod.splits intro: le_trans le_SucI)

lemma take_fraction_length:
  "take_fraction w s = (f, t) \<Longrightarrow> length t \<le> length s \<and> (f \<noteq> [] \<longrightarrow> length t < length s)"
  by (auto simp: take_fraction_def length_dropWhile_le le_SucI less_Suc_eq_le split: list.splits if_splits)

lemma take_whole_length:
  "length (dropWhile is_digit s) \<le> length s \<and> (takeWhile is_digit s \<noteq> [] \<longrightarrow> length (dropWhile is_digit s) < length s)"
  by (cases s) (auto simp: length_dropWhile_le le_SucI less_Suc_eq_le)

lemma strtod_length: "strtod s = Some (neg, m, e, t) \<Longrightarrow> length t < length s"
  using take_sign_length [of s] take_whole_length [of "snd (take_sign s)"]
    take_fraction_length [of "takeWhile is_digit (snd (take_sign s)) \<noteq> []" "dropWhile is_digit (snd (take_sign s))"]
    take_exponent_length
  by (fastforce simp: strtod_def Let_def split: prod.splits if_splits)

lemma parse_number_length: "parse_number s = Some (n, r) \<Longrightarrow> length r < length s"
proof -
  assume a: "parse_number s = Some (n, r)"
  define buf where "buf = takeWhile number_char (take 63 s)"
  obtain neg m e t where t: "strtod buf = Some (neg, m, e, t)" "r = drop (length buf - length t) s"
    using a by (auto simp: parse_number_def Let_def buf_def split: option.splits)
  have "length buf \<le> length s" using length_takeWhile_le [of number_char "take 63 s"] by (simp add: buf_def)
  with strtod_length [OF t(1)] t(2) show ?thesis by simp
qed

lemma map_apfst_Some: "map_option (apfst f) o1 = Some (v, r) \<longleftrightarrow> (\<exists>w. o1 = Some (w, r) \<and> v = f w)"
  by (cases o1) auto

lemma parse_value_outcome:
  assumes "parse_value d s = Some (v, r)"
  obtains c cs where "s = c # cs" "r = drop 4 s \<or> r = drop 5 s"
  | w where "parse_string s = Some (w, r)"
  | w where "parse_number s = Some (w, r)"
  | c cs x where "s = c # cs" "buffer_skip_whitespace cs = x # r"
  | c cs t w where "s = c # cs" "buffer_skip_whitespace cs = t" "parse_array (d + 1) t = Some (w, r)"
  | c cs t w where "s = c # cs" "buffer_skip_whitespace cs = t" "parse_object (d + 1) t = Some (w, r)"
proof (cases s)
  case Nil
  then show thesis using assms by (simp add: parse_value.simps)
next
  case (Cons c cs)
  consider "take 4 s = ''null'' \<or> take 5 s = ''false'' \<or> take 4 s = ''true''"
    | "\<not> (take 4 s = ''null'' \<or> take 5 s = ''false'' \<or> take 4 s = ''true'')" by blast
  then show thesis
  proof cases
    case 1
    then show thesis
      using assms [unfolded parse_value.simps [of d s]] by (intro that(1) [OF Cons]) (auto split: if_splits)
  next
    case 2
    then have v: "parse_value d s = parse_value d (c # cs)" and
      "take 4 (c # cs) \<noteq> ''null''" "take 5 (c # cs) \<noteq> ''false''" "take 4 (c # cs) \<noteq> ''true''"
      using Cons by auto
    then have e: "parse_value d (c # cs) =
       (if c = CHR 0x22 then map_option (apfst JStr) (parse_string (c # cs))
        else if c = CHR ''-'' \<or> is_digit c then map_option (apfst JNum) (parse_number (c # cs))
        else if c = CHR ''['' then
          (if d \<ge> CJSON_NESTING_LIMIT then None
           else case buffer_skip_whitespace cs of [] \<Rightarrow> None | c # r \<Rightarrow>
             if c = CHR '']'' then Some (JArr [], r) else map_option (apfst JArr) (parse_array (d + 1) (c # r)))
        else if c = CHR ''{'' then
          (if d \<ge> CJSON_NESTING_LIMIT then None
           else case buffer_skip_whitespace cs of [] \<Rightarrow> None | c # r \<Rightarrow>
             if c = CHR ''}'' then Some (JObj [], r) else map_option (apfst JObj) (parse_object (d + 1) (c # r)))
        else None)"
      unfolding parse_value.simps [of d "c # cs"] by (simp only: if_False list.case)
    have a: "\<dots> = Some (v, r)" using assms v e by simp
    show thesis
    proof (cases "buffer_skip_whitespace cs")
      case Nil
      then show thesis using a Cons that(2,3) by (auto simp: map_apfst_Some split: if_split_asm)
    next
      case (Cons x t)
      then show thesis
        using a \<open>s = c # cs\<close> that(2,3) that(4) [of c cs x] that(5,6) [of c cs "x # t"]
        by (auto simp: map_apfst_Some split: if_split_asm)
    qed
  qed
qed

lemma parse_array_outcome:
  assumes "parse_array d s = Some (vs, r)"
  obtains v r1 c t where "parse_value d s = Some (v, r1)" "buffer_skip_whitespace r1 = c # t"
    "r = t \<or> (\<exists>ws. parse_array d (buffer_skip_whitespace t) = Some (ws, r))"
  using assms unfolding parse_array.simps [of d s]
  by (auto simp: map_apfst_Some split: option.split_asm prod.split_asm list.split_asm if_split_asm)

lemma parse_object_outcome:
  assumes "parse_object d s = Some (kvs, r)"
  obtains k r0 c0 t0 v r1 c t where "parse_string s = Some (k, r0)" "buffer_skip_whitespace r0 = c0 # t0"
    "parse_value d (buffer_skip_whitespace t0) = Some (v, r1)" "buffer_skip_whitespace r1 = c # t"
    "r = t \<or> (\<exists>ws. parse_object d (buffer_skip_whitespace t) = Some (ws, r))"
  using assms unfolding parse_object.simps [of d s]
  by (auto simp: map_apfst_Some split: option.split_asm prod.split_asm list.split_asm if_split_asm)

lemma parse_shorter:
  "parse_value d s = Some (v, r) \<Longrightarrow> length r < length s"
  "parse_array d s = Some (vs, r) \<Longrightarrow> length r < length s"
  "parse_object d s = Some (kvs, r) \<Longrightarrow> length r < length s"
proof (induction "length s" arbitrary: d s v r vs kvs rule: less_induct)
  case less
  have one: "length r' < length s" if v: "parse_value d' s = Some (v', r')" for d' v' r'
    using v
  proof (cases rule: parse_value_outcome)
    case (5 c cs t w)
    then show ?thesis
      using less(2) [of t "d' + 1" w r'] skip_whitespace_length [of cs] by simp
  next
    case (6 c cs t w)
    then show ?thesis
      using less(3) [of t "d' + 1" w r'] skip_whitespace_length [of cs] by simp
  qed (auto dest: parse_string_length parse_number_length skip_whitespace_Cons)
  have arr: "length r' < length s" if "parse_array d' s = Some (ws, r')" for d' ws r'
    using that
  proof (cases rule: parse_array_outcome)
    case (1 v r1 c t)
    then have l: "length (buffer_skip_whitespace t) < length s" "length t < length s"
      using one [OF 1(1)] skip_whitespace_Cons [OF 1(2)] skip_whitespace_twice [OF 1(2)] by simp_all
    from 1(3) show ?thesis using l less(2) [OF l(1)] by (auto intro: less_trans)
  qed
  have obj: "length r' < length s" if "parse_object d' s = Some (ws, r')" for d' ws r'
    using that
  proof (cases rule: parse_object_outcome)
    case (1 k r0 c0 t0 v r1 c t)
    have "length (buffer_skip_whitespace t0) < length s"
      using parse_string_length [OF 1(1)] skip_whitespace_twice [OF 1(2)] by simp
    from less(1) [OF this 1(3)] this have "length r1 < length s" by simp
    then have l: "length (buffer_skip_whitespace t) < length s" "length t < length s"
      using skip_whitespace_Cons [OF 1(4)] skip_whitespace_twice [OF 1(4)] by simp_all
    from 1(5) show ?thesis using l less(3) [OF l(1)] by (auto intro: less_trans)
  qed
  {
    case 1
    then show ?case by (rule one)
  next
    case 2
    then show ?case by (rule arr)
  next
    case 3
    then show ?case by (rule obj)
  }
qed

section \<open>Without the length tests\<close>

lemma parse_array_eq:
  "parse_array depth s =
     (case parse_value depth s of None \<Rightarrow> None | Some (v, r) \<Rightarrow>
        (case buffer_skip_whitespace r of [] \<Rightarrow> None | c # t \<Rightarrow>
          if c = CHR '','' then map_option (apfst ((#) v)) (parse_array depth (buffer_skip_whitespace t))
          else if c = CHR '']'' then Some ([v], t)
          else None))"
  by (subst parse_array.simps) (auto dest: parse_shorter(1) split: option.splits list.splits)

lemma parse_object_eq:
  "parse_object depth s =
     (case parse_string s of None \<Rightarrow> None | Some (k, r0) \<Rightarrow>
        (case buffer_skip_whitespace r0 of [] \<Rightarrow> None | c0 # t0 \<Rightarrow>
          if c0 \<noteq> CHR '':'' then None
          else (case parse_value depth (buffer_skip_whitespace t0) of None \<Rightarrow> None | Some (v, r) \<Rightarrow>
            (case buffer_skip_whitespace r of [] \<Rightarrow> None | c # t \<Rightarrow>
              if c = CHR '','' then map_option (apfst ((#) (k, v))) (parse_object depth (buffer_skip_whitespace t))
              else if c = CHR ''}'' then Some ([(k, v)], t)
              else None))))"
proof -
  have "length r < length s" if "parse_string s = Some (k, r0)" "buffer_skip_whitespace r0 = c0 # t0"
    "parse_value depth (buffer_skip_whitespace t0) = Some (v, r)" for k r0 c0 t0 v r
    using parse_string_length [OF that(1)] skip_whitespace_twice [OF that(2)] parse_shorter(1) [OF that(3)] by simp
  then show ?thesis
    by (subst parse_object.simps) (auto split: option.splits list.splits)
qed

section \<open>Reading back what the printer writes: numbers and strings\<close>

lemma digits_nat_snoc: "digits_nat (ds @ [char_of (48 + d)]) = digits_nat ds * 10 + d" if "d < 10"
  using that by (simp add: digits_nat_def)

lemma digits_nat_dec_nat [simp]: "digits_nat (dec_nat n) = n"
proof (induction n rule: dec_nat.induct)
  case (1 n)
  show ?case
  proof (cases "n < 10")
    case True
    then show ?thesis by (subst dec_nat.simps) (simp add: digits_nat_def)
  next
    case False
    then show ?thesis using 1 by (subst dec_nat.simps) (simp add: digits_nat_snoc)
  qed
qed

lemma dec_nat_is_digit: "c \<in> set (dec_nat n) \<Longrightarrow> is_digit c"
  using dec_nat_digits by (simp add: is_digit_def)

lemma length_dec_nat: "n < 10 ^ k \<Longrightarrow> 0 < k \<Longrightarrow> length (dec_nat n) \<le> k"
proof (induction k arbitrary: n)
  case (Suc k)
  show ?case
  proof (cases "n < 10")
    case False
    then have "n div 10 < 10 ^ k" "0 < k" using Suc.prems(1) by (auto intro: gr0I)
    with Suc.IH [of "n div 10"] False show ?thesis by (subst dec_nat.simps) simp
  qed (subst dec_nat.simps, simp)
qed simp

lemma take_digits [simp]:
  "takeWhile is_digit (dec_nat n) = dec_nat n" "dropWhile is_digit (dec_nat n) = []"
  by (auto simp: takeWhile_eq_all_conv dropWhile_eq_Nil_conv dec_nat_is_digit)

lemma dec_nat_Cons: obtains c cs where "dec_nat n = c # cs" "is_digit c" "c \<noteq> CHR ''-''" "c \<noteq> CHR ''+''"
proof (cases "dec_nat n")
  case (Cons c cs)
  then have "is_digit c" using dec_nat_is_digit [of c n] by simp
  moreover from this have "c \<noteq> CHR ''-''" "c \<noteq> CHR ''+''" by (auto simp: is_digit_def)
  ultimately show thesis using Cons by (intro that)
qed simp

lemma take_sign_dec_nat: "take_sign (dec_nat n) = (False, dec_nat n)"
  by (rule dec_nat_Cons [of n]) (simp add: take_sign_def)

lemma strtod_dec_int: "strtod (dec_int n) = Some (n < 0, nat \<bar>n\<bar>, 0, [])"
proof -
  have "take_sign (dec_int n) = (n < 0, dec_nat (nat \<bar>n\<bar>))"
    using take_sign_dec_nat [of "nat n"] by (simp add: dec_int_def take_sign_def)
  then show ?thesis by (simp add: strtod_def take_fraction_def take_exponent_def)
qed

lemma double_whole_nat: "double_whole m (Suc 0) = m"
  by (simp add: double_whole_def round_half_even_def Let_def)

lemma int_of_decimal_int: "INT_MIN \<le> n \<Longrightarrow> n \<le> INT_MAX \<Longrightarrow> int_of_decimal (n < 0) (nat \<bar>n\<bar>) 0 = n"
  by (auto simp: int_of_decimal_def double_whole_nat Let_def INT_MIN_def INT_MAX_def le_nat_iff)

lemma length_dec_int: "INT_MIN \<le> n \<Longrightarrow> n \<le> INT_MAX \<Longrightarrow> length (dec_int n) \<le> 63"
proof -
  assume "INT_MIN \<le> n" "n \<le> INT_MAX"
  then have "nat \<bar>n\<bar> < 10 ^ 10" by (auto simp: INT_MIN_def INT_MAX_def nat_less_iff)
  from length_dec_nat [OF this] show ?thesis by (auto simp: dec_int_def)
qed

lemma dec_int_number_char: "c \<in> set (dec_int n) \<Longrightarrow> number_char c"
  by (auto simp: dec_int_def number_char_def dest: dec_nat_is_digit split: if_splits)

definition number_ends :: "string \<Rightarrow> bool" where
  "number_ends s \<longleftrightarrow> (case s of [] \<Rightarrow> True | c # _ \<Rightarrow> \<not> number_char c)"

lemma number_ends_simps [simp]:
  "number_ends []" "number_ends (CHR '','' # s)" "number_ends (CHR '']'' # s)" "number_ends (CHR ''}'' # s)"
  by (simp_all add: number_ends_def number_char_def is_digit_def)

lemma takeWhile_number_ends: "number_ends s \<Longrightarrow> takeWhile number_char (take k s) = []"
  by (cases s; cases k) (auto simp: number_ends_def)

lemma parse_number_dec_int:
  assumes "INT_MIN \<le> n" "n \<le> INT_MAX" "number_ends s"
  shows "parse_number (dec_int n @ s) = Some (n, s)"
proof -
  have "takeWhile number_char (take 63 (dec_int n @ s)) = dec_int n"
    using assms by (simp add: length_dec_int takeWhile_append2 dec_int_number_char takeWhile_number_ends)
  then show ?thesis
    using assms by (simp add: parse_number_def strtod_dec_int int_of_decimal_int)
qed

lemma hex_value_hex_digit [simp]: "d < 16 \<Longrightarrow> hex_value (hex_digit d) = Some d"
  by (auto simp: hex_value_def hex_digit_def Let_def)

lemma hex_value_zero: "hex_value (CHR ''0'') = Some 0"
  by (simp add: hex_value_def)

lemma parse_hex4_print:
  "n < 256 \<Longrightarrow> parse_hex4 (CHR ''0'' # CHR ''0'' # hex_digit (n div 16) # hex_digit (n mod 16) # s) = n"
  by (simp add: parse_hex4_def hex_value_zero)

lemma utf16_literal_print:
  assumes "n < 128"
  shows "utf16_literal_to_utf8 (CHR 0x5C # CHR ''u'' # CHR ''0'' # CHR ''0'' # hex_digit (n div 16) # hex_digit (n mod 16) # s)
    = Some ([char_of n], 6)"
  using assms parse_hex4_print [of n s] by (simp add: utf16_literal_to_utf8_def utf8_def Let_def)

lemma hex_digit_plain [simp]: "d < 16 \<Longrightarrow> hex_digit d \<noteq> CHR 0x22" "d < 16 \<Longrightarrow> hex_digit d \<noteq> CHR 0x5C"
  using hex_value_hex_digit [of d] by (auto simp: hex_value_def Let_def)

text \<open>The three shapes in which a character is printed.\<close>

lemma print_char_cases:
  obtains "print_char c = [c]" "c \<noteq> CHR 0x22" "c \<noteq> CHR 0x5C"
  | d where "print_char c = [CHR 0x5C, d]" "escape_char d = Some c" "d \<noteq> CHR ''u''"
  | n where "print_char c = [CHR 0x5C, CHR ''u'', CHR ''0'', CHR ''0'', hex_digit (n div 16), hex_digit (n mod 16)]"
      "n < 32" "c = char_of n"
proof -
  define n where "n = (of_char c :: nat)"
  have c: "c = char_of n" by (simp add: n_def)
  consider "n > 31 \<and> n \<noteq> 34 \<and> n \<noteq> 92" | "n \<in> {92, 34, 8, 12, 10, 13, 9}" | "n < 32 \<and> n \<notin> {8, 12, 10, 13, 9}"
    by force
  then show thesis
  proof cases
    case 1
    then show thesis by (intro that(1)) (auto simp: print_char_def Let_def n_def)
  next
    case 2
    then have "\<exists>d. print_char c = [CHR 0x5C, d] \<and> escape_char d = Some c \<and> d \<noteq> CHR ''u''"
      by (elim insertE emptyE) (simp_all add: print_char_def Let_def c escape_char_def char_of_def bit_Suc_0_iff)
    then show thesis using that(2) by blast
  next
    case 3
    then show thesis by (intro that(3) [of n]) (auto simp: print_char_def Let_def c)
  qed
qed

lemma string_end_print: "string_end (concat (map print_char s) @ CHR 0x22 # r) = Some (concat (map print_char s), r)"
proof (induction s)
  case (Cons c s)
  show ?case
    by (rule print_char_cases [of c]) (simp_all add: Cons)
qed simp

lemma unescape_print: "unescape (concat (map print_char s)) = Some s"
proof (induction s)
  case (Cons c s)
  show ?case
    by (rule print_char_cases [of c]) (simp_all add: Cons unescape.simps [of "_ # _"] utf16_literal_print)
qed (simp add: unescape.simps)

lemma parse_string_print:
  assumes "CHR 0x00 \<notin> set s"
  shows "parse_string (print_string_ptr s @ r) = Some (s, r)"
proof -
  have "takeWhile (\<lambda>c. c \<noteq> CHR 0x00) s = s" using assms by (auto simp: takeWhile_eq_all_conv)
  then show ?thesis
    using string_end_print [of s r] by (simp add: parse_string_def print_string_ptr_def unescape_print)
qed

section \<open>Reading back what the printer writes: values\<close>

text \<open>The items the program can build and the printed text can carry: strings and keys hold no NUL, a
  number is an \<open>int\<close>, and lists are nested up to the limit of the parser.\<close>

fun json_wf :: "nat \<Rightarrow> json \<Rightarrow> bool" where
  "json_wf depth JNull = True"
| "json_wf depth (JBool b) = True"
| "json_wf depth (JNum n) = (INT_MIN \<le> n \<and> n \<le> INT_MAX)"
| "json_wf depth (JStr s) = (CHR 0x00 \<notin> set s)"
| "json_wf depth (JArr xs) = (depth < CJSON_NESTING_LIMIT \<and> list_all (json_wf (depth + 1)) xs)"
| "json_wf depth (JObj kvs) =
     (depth < CJSON_NESTING_LIMIT \<and> list_all (\<lambda>(k, v). CHR 0x00 \<notin> set k \<and> json_wf (depth + 1) v) kvs)"

text \<open>What every printed value starts with: no white space, no closing bracket, no byte order mark.\<close>

definition value_start :: "char \<Rightarrow> bool" where
  "value_start c \<longleftrightarrow> 32 < (of_char c :: nat) \<and> (of_char c :: nat) < 128 \<and> c \<noteq> CHR '']'' \<and> c \<noteq> CHR ''}''"

lemma print_start: "\<exists>c cs. cJSON_PrintUnformatted j = c # cs \<and> value_start c"
proof (cases j)
  case (JNum n)
  show ?thesis
    by (rule dec_nat_Cons [of "nat n"]) (auto simp: JNum dec_int_def value_start_def is_digit_def)
qed (auto simp: value_start_def print_string_ptr_def)

lemma skip_start [simp]: "value_start c \<Longrightarrow> buffer_skip_whitespace (c # s) = c # s"
  by (simp add: buffer_skip_whitespace_def value_start_def)

lemma skip_print [simp]: "buffer_skip_whitespace (cJSON_PrintUnformatted j @ s) = cJSON_PrintUnformatted j @ s"
  using print_start [of j] by auto

lemma skip_quote [simp]: "buffer_skip_whitespace (print_string_ptr k @ s) = print_string_ptr k @ s"
  by (simp add: buffer_skip_whitespace_def print_string_ptr_def)

lemma skip_mark [simp]:
  "buffer_skip_whitespace (CHR '','' # s) = CHR '','' # s" "buffer_skip_whitespace (CHR '']'' # s) = CHR '']'' # s"
  "buffer_skip_whitespace (CHR ''}'' # s) = CHR ''}'' # s" "buffer_skip_whitespace (CHR '':'' # s) = CHR '':'' # s"
  by (simp_all add: buffer_skip_whitespace_def)

lemma skip_comma_sep:
  "\<exists>c cs. x = c # cs \<and> value_start c \<Longrightarrow> buffer_skip_whitespace (comma_sep (x # xs) @ s) = comma_sep (x # xs) @ s"
  by (cases xs) auto

lemma skip_values [simp]:
  "buffer_skip_whitespace (comma_sep (cJSON_PrintUnformatted x # xs) @ s) = comma_sep (cJSON_PrintUnformatted x # xs) @ s"
  by (rule skip_comma_sep, rule print_start)

lemma skip_members [simp]:
  "buffer_skip_whitespace (comma_sep ((print_string_ptr k @ t) # xs) @ s) = comma_sep ((print_string_ptr k @ t) # xs) @ s"
  by (rule skip_comma_sep) (simp add: print_string_ptr_def value_start_def)

lemma parse_array_print:
  assumes "xs \<noteq> []"
    and "\<And>x t. x \<in> set xs \<Longrightarrow> number_ends t \<Longrightarrow> parse_value d (cJSON_PrintUnformatted x @ t) = Some (x, t)"
  shows "parse_array d (comma_sep (map cJSON_PrintUnformatted xs) @ CHR '']'' # s) = Some (xs, s)"
  using assms
proof (induction xs rule: list_nonempty_induct)
  case (single x)
  then show ?case by (subst parse_array_eq) simp
next
  case (cons x xs)
  obtain y ys where "xs = y # ys" using cons.hyps by (cases xs) auto
  then show ?case
    using cons.IH cons.prems by (subst parse_array_eq) simp
qed

abbreviation print_member :: "string \<times> json \<Rightarrow> string" where
  "print_member \<equiv> \<lambda>(k, v). print_string_ptr k @ CHR '':'' # cJSON_PrintUnformatted v"

lemma parse_object_print:
  assumes "kvs \<noteq> []"
    and "\<And>k v t. (k, v) \<in> set kvs \<Longrightarrow> number_ends t \<Longrightarrow> parse_value d (cJSON_PrintUnformatted v @ t) = Some (v, t)"
    and "\<And>k v. (k, v) \<in> set kvs \<Longrightarrow> CHR 0x00 \<notin> set k"
  shows "parse_object d (comma_sep (map print_member kvs) @ CHR ''}'' # s) = Some (kvs, s)"
  using assms
proof (induction kvs rule: list_nonempty_induct)
  case (single kv)
  then show ?case by (cases kv) (subst parse_object_eq, simp add: parse_string_print)
next
  case (cons kv kvs)
  obtain kv' kvs' where kvs: "kvs = kv' # kvs'" using cons.hyps by (cases kvs) auto
  obtain k v k' v' where kv: "kv = (k, v)" "kv' = (k', v')" by (cases kv; cases kv') auto
  have "parse_object d (comma_sep (map print_member kvs) @ CHR ''}'' # s) = Some (kvs, s)"
    by (rule cons.IH) (use cons.prems in \<open>meson list.set_intros(2)\<close>)+
  moreover have "CHR 0x00 \<notin> set k" using cons.prems(2) [of k v] kv by simp
  moreover have "parse_value d (cJSON_PrintUnformatted v @ t) = Some (v, t)" if "number_ends t" for t
    using cons.prems(1) [of k v] kv that by simp
  ultimately show ?case
    using kvs kv by (subst parse_object_eq) (simp add: parse_string_print)
qed

lemma parse_value_Cons:
  "parse_value depth (c # cs) =
     (if take 4 (c # cs) = ''null'' then Some (JNull, drop 4 (c # cs))
      else if take 5 (c # cs) = ''false'' then Some (JBool False, drop 5 (c # cs))
      else if take 4 (c # cs) = ''true'' then Some (JBool True, drop 4 (c # cs))
      else if c = CHR 0x22 then map_option (apfst JStr) (parse_string (c # cs))
      else if c = CHR ''-'' \<or> is_digit c then map_option (apfst JNum) (parse_number (c # cs))
      else if c = CHR ''['' then
        (if depth \<ge> CJSON_NESTING_LIMIT then None
         else case buffer_skip_whitespace cs of [] \<Rightarrow> None | c # r \<Rightarrow>
           if c = CHR '']'' then Some (JArr [], r) else map_option (apfst JArr) (parse_array (depth + 1) (c # r)))
      else if c = CHR ''{'' then
        (if depth \<ge> CJSON_NESTING_LIMIT then None
         else case buffer_skip_whitespace cs of [] \<Rightarrow> None | c # r \<Rightarrow>
           if c = CHR ''}'' then Some (JObj [], r) else map_option (apfst JObj) (parse_object (depth + 1) (c # r)))
      else None)"
  by (subst parse_value.simps) (simp only: list.case)

lemma parse_value_number:
  assumes "c = CHR ''-'' \<or> is_digit c"
  shows "parse_value depth (c # cs) = map_option (apfst JNum) (parse_number (c # cs))"
proof -
  have "c \<noteq> CHR ''n''" "c \<noteq> CHR ''f''" "c \<noteq> CHR ''t''" "c \<noteq> CHR 0x22"
    using assms by (auto simp: is_digit_def)
  with assms show ?thesis unfolding parse_value_Cons by simp
qed

lemma dec_int_Cons: obtains c cs where "dec_int n = c # cs" "c = CHR ''-'' \<or> is_digit c"
  by (rule dec_nat_Cons [of "nat n"]) (cases "n < 0"; simp add: dec_int_def)

lemma parse_value_print:
  "json_wf d j \<Longrightarrow> number_ends s \<or> (\<forall>n. j \<noteq> JNum n) \<Longrightarrow> parse_value d (cJSON_PrintUnformatted j @ s) = Some (j, s)"
proof (induction d j arbitrary: s rule: json_wf.induct)
  case (3 d n)
  obtain c cs where "dec_int n = c # cs" "c = CHR ''-'' \<or> is_digit c" by (rule dec_int_Cons)
  with 3 parse_number_dec_int [of n s] show ?case by (simp add: parse_value_number)
next
  case (4 d str)
  then show ?case
    using parse_string_print [of str s] by (simp add: print_string_ptr_def parse_value_Cons)
next
  case (5 d xs)
  show ?case
  proof (cases xs)
    case (Cons x ys)
    obtain c cs where c: "cJSON_PrintUnformatted x = c # cs" "value_start c" using print_start by blast
    have "parse_array (d + 1) (comma_sep (map cJSON_PrintUnformatted xs) @ CHR '']'' # s) = Some (xs, s)"
      using 5 Cons by (intro parse_array_print) (auto simp: list_all_iff)
    moreover obtain ds where "comma_sep (map cJSON_PrintUnformatted xs) = c # ds"
      using c Cons by (cases ys) auto
    ultimately show ?thesis
      using 5 Cons c by (simp add: parse_value_Cons is_digit_def value_start_def)
  qed (use 5 in \<open>simp add: parse_value_Cons is_digit_def\<close>)
next
  case (6 d kvs)
  show ?case
  proof (cases kvs)
    case (Cons kv ys)
    have "parse_value (d + 1) (cJSON_PrintUnformatted v @ t) = Some (v, t)" if "(k, v) \<in> set kvs" "number_ends t" for k v t
      using 6(1) [OF that(1)] 6(2) that by (auto simp: list_all_iff)
    then have "parse_object (d + 1) (comma_sep (map print_member kvs) @ CHR ''}'' # s) = Some (kvs, s)"
      using 6(2) Cons by (intro parse_object_print) (auto simp: list_all_iff)
    moreover obtain ds where "comma_sep (map print_member kvs) = CHR 0x22 # ds"
      using Cons by (cases kv; cases ys) (auto simp: print_string_ptr_def)
    ultimately show ?thesis
      using 6 Cons by (simp add: parse_value_Cons is_digit_def value_start_def)
  qed (use 6 in \<open>simp add: parse_value_Cons is_digit_def\<close>)
qed (simp_all add: parse_value_Cons)

lemma parse_print:
  assumes "json_wf 0 j" and "number_ends rest \<or> (\<forall>n. j \<noteq> JNum n)"
  shows "cJSON_Parse (cJSON_PrintUnformatted j @ rest) = Some j"
proof -
  obtain c cs where c: "cJSON_PrintUnformatted j = c # cs" "value_start c" using print_start by blast
  then have "skip_utf8_bom (cJSON_PrintUnformatted j @ rest) = cJSON_PrintUnformatted j @ rest"
    by (auto simp: skip_utf8_bom_def value_start_def)
  then show ?thesis using parse_value_print [OF assms] by (simp add: cJSON_Parse_def)
qed

text \<open>C7: What \<open>cJSON_PrintUnformatted\<close> writes, \<open>cJSON_Parse\<close> reads back as the same item, for every item
  without NUL characters, with numbers in the range of \<open>int\<close> and lists nested at most 1000 deep;
  text that follows is not looked at, as long as it does not continue a number.\<close>

theorem json_print_parse:
  assumes "json_wf 0 j" and "number_ends rest \<or> (\<forall>n. j \<noteq> JNum n)"
  shows "cJSON_Parse (cJSON_PrintUnformatted j @ rest) = Some j"
  by (rule parse_print [OF assms])

lemma json_print_parse_witness:
  "cJSON_Parse (cJSON_PrintUnformatted
     (JObj [(''Type'', JStr ''SET''), (''Data'', JObj [(''List'', JArr [JNum (- 40), JBool True, JNull]),
        (''Text'', JStr [CHR 0x0A, CHR 0x01, CHR 0x22])])]) @ ''}'')
   = Some (JObj [(''Type'', JStr ''SET''), (''Data'', JObj [(''List'', JArr [JNum (- 40), JBool True, JNull]),
        (''Text'', JStr [CHR 0x0A, CHR 0x01, CHR 0x22])])])"
  by (rule json_print_parse) (simp_all add: INT_MAX_def INT_MIN_def CJSON_NESTING_LIMIT_def)

end
