(* ===== verification/X50_Resend.thy ===== *)
theory X50_Resend
  imports X50_Prelude
begin

text \<open>
  The retransmission queue of the power-board link (\<open>uart/uart_resend.c\<close>): frames that wait for an
  acknowledgement, sent again \<open>RESEND_CNT\<close> times, \<open>RESEND_WAIT_TICK\<close> milliseconds apart, until they
  are acknowledged.

  The intrusive list of \<open>list.h\<close> is the list of its entries from the head on (\<open>list_add\<close> inserts
  behind the head); \<open>X50_List\<close> shows that the pointer structure implements it. \<open>unsigned long\<close> has
  32 bits on the target, so the millisecond clock wraps every 49.7 days.
\<close>

section \<open>Ticks\<close>

definition RESEND_CNT :: byte where "RESEND_CNT = 2"
definition RESEND_WAIT_TICK :: "32 word" where "RESEND_WAIT_TICK = 500"

definition get_systime_ms :: "int \<times> int \<Rightarrow> 32 word" where
  "get_systime_ms tv = (case tv of (tv_sec, tv_usec) \<Rightarrow> word_of_int tv_sec * 1000 + word_of_int (tv_usec div 1000))"

definition resend_tick_set :: "32 word \<Rightarrow> 32 word \<Rightarrow> 32 word" where
  "resend_tick_set current_tick set_tick = current_tick + set_tick"

definition resend_tick_compare :: "32 word \<Rightarrow> 32 word \<Rightarrow> bool" where
  "resend_tick_compare current_tick compare_tick = (if current_tick \<ge> compare_tick then True else False)"

section \<open>Entries and the operations of the queue\<close>

text \<open>\<open>resend_seq_id\<close> is not initialised for data of fewer than four bytes, which is \<open>None\<close>;
  \<open>resend_cb\<close> says whether the pointer is set (it is always \<open>ecb_uart_resend_cb\<close>).\<close>

record uart_resend =
  resend_cnt :: byte
  send_data :: bytes
  resend_seq_id :: "int option"
  send_len :: nat
  wait_tick :: "32 word"
  resend_cb :: bool

definition resend_list_init :: "uart_resend list" where
  "resend_list_init = []"

definition resend_list_add :: "uart_resend list \<Rightarrow> uart_resend \<Rightarrow> uart_resend list" where
  "resend_list_add head node = node # head"

fun resend_list_get_by_id :: "uart_resend list \<Rightarrow> int \<Rightarrow> nat option option" where
  "resend_list_get_by_id [] i = Some None"
| "resend_list_get_by_id (p # ps) i =
     (case resend_seq_id p of
        None \<Rightarrow> None
      | Some j \<Rightarrow> if j = i then Some (Some 0)
                  else map_option (map_option Suc) (resend_list_get_by_id ps i))"

definition resend_list_del :: "uart_resend list \<Rightarrow> nat \<Rightarrow> uart_resend list" where
  "resend_list_del head k = take k head @ drop (Suc k) head"

definition resend_list_del_by_id :: "uart_resend list \<Rightarrow> int \<Rightarrow> (int \<times> uart_resend list) option" where
  "resend_list_del_by_id head i = do {
     p \<leftarrow> resend_list_get_by_id head i;
     case p of None \<Rightarrow> Some (-1, head) | Some k \<Rightarrow> Some (0, resend_list_del head k)
   }"

text \<open>One pass over the queue at time \<open>current_tick\<close>; \<open>cb\<close> is what \<open>resend_cb\<close> does with the data
  and its length to the rest of the program.\<close>

fun resend_list_each ::
  "32 word \<Rightarrow> (bytes \<Rightarrow> nat \<Rightarrow> 's \<Rightarrow> 's option) \<Rightarrow> uart_resend list \<Rightarrow> 's \<Rightarrow> (uart_resend list \<times> 's) option" where
  "resend_list_each current_tick cb [] s = Some ([], s)"
| "resend_list_each current_tick cb (ptr # rest) s = do {
     (ptr, s) \<leftarrow>
       (if resend_cnt ptr \<noteq> 0 then
          (if resend_tick_compare current_tick (wait_tick ptr) then do {
             let ptr = ptr\<lparr>wait_tick := resend_tick_set current_tick RESEND_WAIT_TICK,
                           resend_cnt := resend_cnt ptr - 1\<rparr>;
             s \<leftarrow> (if resend_cb ptr then cb (send_data ptr) (send_len ptr) s else Some s);
             Some (ptr, s)
           }
           else Some (ptr, s))
        else Some (ptr, s));
     (rest, s) \<leftarrow> resend_list_each current_tick cb rest s;
     Some (if resend_cnt ptr = 0 then rest else ptr # rest, s)
   }"

section \<open>Lemmas\<close>

definition due :: "32 word \<Rightarrow> uart_resend \<Rightarrow> bool" where
  "due t p \<longleftrightarrow> resend_cnt p \<noteq> 0 \<and> wait_tick p \<le> t"

definition rearm :: "32 word \<Rightarrow> uart_resend \<Rightarrow> uart_resend" where
  "rearm t p = (if due t p then p\<lparr>wait_tick := t + 500, resend_cnt := resend_cnt p - 1\<rparr> else p)"

text \<open>What one pass does, when every entry has its callback: the due entries are sent in queue order,
  and those with retransmissions left stay, in order.\<close>

lemma resend_list_each_spec:
  assumes "\<forall>p \<in> set ps. resend_cb p"
  shows "resend_list_each t cb ps s = do {
      s' \<leftarrow> foldM (\<lambda>p. cb (send_data p) (send_len p)) (filter (due t) ps) s;
      Some (filter (\<lambda>p. resend_cnt p \<noteq> 0) (map (rearm t) ps), s')
    }"
  using assms
proof (induction ps arbitrary: s)
  case (Cons p ps)
  then have cb: "resend_cb p" by simp
  have IH: "resend_list_each t cb ps s' = do {
      s' \<leftarrow> foldM (\<lambda>p. cb (send_data p) (send_len p)) (filter (due t) ps) s';
      Some (filter (\<lambda>p. resend_cnt p \<noteq> 0) (map (rearm t) ps), s')
    }" for s' using Cons by simp
  show ?case
  proof (cases "due t p")
    case True
    then have "resend_cnt p \<noteq> 0" "wait_tick p \<le> t" "rearm t p = p\<lparr>wait_tick := t + 500, resend_cnt := resend_cnt p - 1\<rparr>"
      by (simp_all add: due_def rearm_def)
    with True cb show ?thesis
      by (auto simp: IH resend_tick_compare_def resend_tick_set_def RESEND_WAIT_TICK_def Let_def
          split: Option.bind_split)
  next
    case False
    then have "resend_cnt p = 0 \<or> \<not> wait_tick p \<le> t" "rearm t p = p"
      by (auto simp: due_def rearm_def)
    with False show ?thesis
      by (auto simp: IH resend_tick_compare_def split: Option.bind_split)
  qed
qed simp

lemma get_by_id_total:
  assumes "\<forall>p \<in> set ps. resend_seq_id p \<noteq> None"
  shows "resend_list_get_by_id ps i \<noteq> None"
  using assms by (induction ps) (auto split: option.splits)

lemma get_by_id_Some:
  "resend_list_get_by_id ps i = Some (Some k) \<Longrightarrow>
    k < length ps \<and> resend_seq_id (ps ! k) = Some i \<and> (\<forall>j < k. resend_seq_id (ps ! j) \<noteq> Some i)"
proof (induction ps arbitrary: k)
  case (Cons p ps)
  then show ?case
    by (auto split: option.splits if_splits simp: nth_Cons less_Suc_eq_0_disj)
qed simp

lemma get_by_id_None:
  "resend_list_get_by_id ps i = Some None \<Longrightarrow> \<forall>p \<in> set ps. resend_seq_id p \<noteq> Some i"
  by (induction ps) (auto split: option.splits if_splits)

text \<open>An acknowledgement removes the entry with its sequence number and no other.\<close>

lemma resend_list_del_by_id_spec:
  assumes "\<forall>p \<in> set ps. resend_seq_id p \<noteq> None" and "distinct (map resend_seq_id ps)"
  shows "resend_list_del_by_id ps i =
    Some (if Some i \<in> resend_seq_id ` set ps then 0 else -1, filter (\<lambda>p. resend_seq_id p \<noteq> Some i) ps)"
proof -
  obtain r where r: "resend_list_get_by_id ps i = Some r"
    using get_by_id_total [OF assms(1)] by blast
  show ?thesis
  proof (cases r)
    case None
    with r get_by_id_None [of ps i] show ?thesis
      by (auto simp: resend_list_del_by_id_def intro!: filter_True [symmetric])
  next
    case (Some k)
    note k = get_by_id_Some [of ps i k, OF r [unfolded Some]]
    then have split: "ps = take k ps @ ps ! k # drop (Suc k) ps" by (simp add: id_take_nth_drop)
    from assms(2) have "distinct (map resend_seq_id (take k ps @ ps ! k # drop (Suc k) ps))"
      using split by simp
    then have "resend_seq_id p \<noteq> Some i" if "p \<in> set (take k ps) \<or> p \<in> set (drop (Suc k) ps)" for p
      using that k by (auto simp: image_iff)
    then have "filter (\<lambda>p. resend_seq_id p \<noteq> Some i) ps = take k ps @ drop (Suc k) ps"
      using k by (subst split) (auto intro!: filter_True)
    moreover have "Some i \<in> resend_seq_id ` set ps" using k by (metis imageI nth_mem)
    ultimately show ?thesis using r Some by (simp add: resend_list_del_by_id_def resend_list_del_def)
  qed
qed

section \<open>Runs of the timer\<close>

text \<open>The passes at the times \<open>ts\<close>, with the data that is sent again recorded.\<close>

definition resend_run :: "32 word list \<Rightarrow> uart_resend list \<Rightarrow> (uart_resend list \<times> bytes list) option" where
  "resend_run ts ps = foldM (\<lambda>t (ps, sent). resend_list_each t (\<lambda>d n sent. Some (sent @ [d])) ps sent) ts (ps, [])"

definition resends_left :: "uart_resend list \<Rightarrow> nat" where
  "resends_left ps = sum_list (map (\<lambda>p. unat (resend_cnt p)) ps)"

lemma foldM_record: "foldM (\<lambda>p sent. Some (sent @ [f p])) ps s = Some (s @ map f ps)"
  by (induction ps arbitrary: s) simp_all

lemma unat_dec: "(c :: byte) \<noteq> 0 \<Longrightarrow> Suc (unat (c - 1)) = unat c"
  by (simp add: unat_minus_one unat_gt_0)

lemma resends_left_rearm:
  "resends_left (filter (\<lambda>p. resend_cnt p \<noteq> 0) (map (rearm t) ps)) + length (filter (due t) ps) = resends_left ps"
proof (induction ps)
  case (Cons p ps)
  have "unat (resend_cnt (rearm t p)) + (if due t p then 1 else 0) = unat (resend_cnt p)"
    by (auto simp: rearm_def due_def unat_dec)
  with Cons show ?case by (auto simp: resends_left_def split: if_splits)
qed (simp add: resends_left_def)

lemma resend_cb_rearm: "resend_cb (rearm t p) = resend_cb p"
  by (simp add: rearm_def)

lemma each_record:
  assumes "\<forall>p \<in> set ps. resend_cb p"
  shows "resend_list_each t (\<lambda>d n sent. Some (sent @ [d])) ps sent =
    Some (filter (\<lambda>p. resend_cnt p \<noteq> 0) (map (rearm t) ps), sent @ map send_data (filter (due t) ps))"
  using resend_list_each_spec [OF assms, of t "\<lambda>d n sent. Some (sent @ [d])" sent]
  by (simp add: foldM_record)

lemma resend_run_count:
  assumes "\<forall>p \<in> set ps. resend_cb p"
  shows "\<exists>ps' new. foldM (\<lambda>t (ps, sent). resend_list_each t (\<lambda>d n sent. Some (sent @ [d])) ps sent) ts (ps, sent) =
      Some (ps', sent @ new) \<and> resends_left ps' + length new = resends_left ps"
  using assms
proof (induction ts arbitrary: ps sent)
  case (Cons t ts)
  let ?ps = "filter (\<lambda>p. resend_cnt p \<noteq> 0) (map (rearm t) ps)"
  have "\<forall>p \<in> set ?ps. resend_cb p" using Cons.prems by (auto simp: resend_cb_rearm)
  from Cons.IH [OF this, of "sent @ map send_data (filter (due t) ps)"]
  obtain ps' new where "foldM (\<lambda>t (ps, sent). resend_list_each t (\<lambda>d n sent. Some (sent @ [d])) ps sent) ts
      (?ps, sent @ map send_data (filter (due t) ps)) = Some (ps', (sent @ map send_data (filter (due t) ps)) @ new)"
    and "resends_left ps' + length new = resends_left ?ps" by blast
  with resends_left_rearm [of t ps] show ?case
    by (intro exI [of _ ps'] exI [of _ "map send_data (filter (due t) ps) @ new"])
      (simp add: each_record [OF Cons.prems])
qed simp

section \<open>Properties\<close>



text \<open>C24: The life of an unacknowledged frame: nothing before its wait time, the first
  retransmission at the first pass after it, the second not before another 500 ms, and then the frame
  is gone. The times must not wrap.\<close>

theorem resend_lifecycle:
  assumes "resend_cnt p = RESEND_CNT" and "resend_cb p"
    and "t0 < wait_tick p" and "wait_tick p \<le> t1" and "unat t1 + 500 < 2 ^ 32"
    and "t1 \<le> t" "t < t1 + 500" and "t1 + 500 \<le> t2"
  shows "resend_run [t0] [p] = Some ([p], []) \<and>
    (\<exists>p'. resend_run [t0, t1, t] [p] = Some ([p'], [send_data p])) \<and>
    resend_run [t0, t1, t, t2] [p] = Some ([], [send_data p, send_data p])"
proof -
  let ?p1 = "p\<lparr>wait_tick := t1 + 500, resend_cnt := 1\<rparr>"
  have w: "\<not> wait_tick p \<le> t0" "\<not> t1 + 500 \<le> t" using assms(3,7) by simp_all
  have e0: "resend_list_each t0 cb [p] s = Some ([p], s)" for cb and s :: "bytes list"
    using assms(1) w by (simp add: resend_tick_compare_def RESEND_CNT_def)
  have e1: "resend_list_each t1 (\<lambda>d n sent. Some (sent @ [d])) [p] s = Some ([?p1], s @ [send_data p])" for s
    using assms(1,2,4) by (simp add: resend_tick_compare_def resend_tick_set_def RESEND_WAIT_TICK_def RESEND_CNT_def)
  have e2: "resend_list_each t cb [?p1] s = Some ([?p1], s)" for cb and s :: "bytes list"
    using w by (simp add: resend_tick_compare_def)
  have e3: "resend_list_each t2 (\<lambda>d n sent. Some (sent @ [d])) [?p1] s = Some ([], s @ [send_data p])" for s
    using assms(2,8) by (simp add: resend_tick_compare_def)
  show ?thesis by (simp add: resend_run_def e0 e1 e2 e3 del: resend_list_each.simps)
qed

lemma resend_lifecycle_witness:
  "let p = \<lparr>resend_cnt = 2, send_data = [1], resend_seq_id = Some 1, send_len = 1, wait_tick = 500, resend_cb = True\<rparr>
   in resend_run [400] [p] = Some ([p], []) \<and>
    (\<exists>p'. resend_run [400, 600, 800] [p] = Some ([p'], [send_data p])) \<and>
    resend_run [400, 600, 800, 1200] [p] = Some ([], [send_data p, send_data p])"
  unfolding Let_def by (rule resend_lifecycle) (simp_all add: RESEND_CNT_def)



end
