(* ===== verification/X50_Select.thy ===== *)
theory X50_Select
  imports X50_Prelude
begin

text \<open>
  The \<open>select\<close> loop of the two server threads (\<open>liblinktool/tcp/select/select_server.c\<close>): a table of
  at most \<open>SELECT_MAX_CLIENT\<close> client records, the descriptor sets, and one turn of the loop.

  A client record is named by a value of type \<open>'p\<close> in place of its address; its \<open>fd\<close> and what its
  callbacks do belong to the program that owns it and are arguments. \<open>FD_SET\<close>, \<open>FD_CLR\<close> and
  \<open>FD_ISSET\<close> are defined for descriptors from 0 to 1023 only.
\<close>

definition SELECT_MAX_CLIENT :: nat where "SELECT_MAX_CLIENT = 3"

record 'p select_server =
  rfds :: "int set"
  wfds :: "int set"
  efds :: "int set"
  r_copy_fds :: "int set"
  select_client_event :: "'p option list"
  select_client_num :: int
  maxfd :: int
  runing :: int

section \<open>Operations\<close>

definition fd_ok :: "int \<Rightarrow> bool" where
  "fd_ok fd \<longleftrightarrow> 0 \<le> fd \<and> fd < 1024"

definition FD_ISSET :: "int \<Rightarrow> int set \<Rightarrow> bool option" where
  "FD_ISSET fd S = (if fd_ok fd then Some (fd \<in> S) else None)"

definition FD_SET :: "int \<Rightarrow> int set \<Rightarrow> int set option" where
  "FD_SET fd S = (if fd_ok fd then Some (insert fd S) else None)"

definition FD_CLR :: "int \<Rightarrow> int set \<Rightarrow> int set option" where
  "FD_CLR fd S = (if fd_ok fd then Some (S - {fd}) else None)"

text \<open>A server record in static memory, all zero.\<close>

definition select_server_zero :: "'p select_server" where
  "select_server_zero = \<lparr>rfds = {}, wfds = {}, efds = {}, r_copy_fds = {},
     select_client_event = replicate SELECT_MAX_CLIENT None, select_client_num = 0, maxfd = 0, runing = 0\<rparr>"

definition select_server_init :: "'p select_server \<Rightarrow> 'p select_server" where
  "select_server_init sv = sv\<lparr>runing := 1, rfds := {}, wfds := {}, efds := {}, r_copy_fds := {}\<rparr>"

definition select_server_deinit :: "'p select_server \<Rightarrow> 'p select_server" where
  "select_server_deinit sv = sv\<lparr>runing := 0\<rparr>"

definition add_select_client_event ::
  "'p select_server \<Rightarrow> 'p \<Rightarrow> int \<Rightarrow> (int \<times> 'p select_server) option" where
  "add_select_client_event sv p fd = do {
     i \<leftarrow> find_idx (\<lambda>i. do { e \<leftarrow> rd (select_client_event sv) i; Some (e = None) }) 0 SELECT_MAX_CLIENT;
     if i = SELECT_MAX_CLIENT then Some (-1, sv)
     else do {
       let sv = sv\<lparr>select_client_event := (select_client_event sv)[i := Some p]\<rparr>;
       fds \<leftarrow> FD_SET fd (r_copy_fds sv);
       let sv = sv\<lparr>r_copy_fds := fds\<rparr>;
       let sv = (if fd > maxfd sv then sv\<lparr>maxfd := fd\<rparr> else sv);
       Some (0, sv\<lparr>select_client_num := select_client_num sv + 1\<rparr>)
     }
   }"

definition delete_select_client_event ::
  "'p select_server \<Rightarrow> 'p \<Rightarrow> int \<Rightarrow> 'p select_server option" where
  "delete_select_client_event sv p fd = do {
     i \<leftarrow> find_idx (\<lambda>i. do { e \<leftarrow> rd (select_client_event sv) i; Some (e = Some p) }) 0 SELECT_MAX_CLIENT;
     sv \<leftarrow> (if i = SELECT_MAX_CLIENT then Some sv
       else do {
         b \<leftarrow> FD_ISSET fd (r_copy_fds sv);
         fds \<leftarrow> (if b then FD_CLR fd (r_copy_fds sv) else Some (r_copy_fds sv));
         Some (sv\<lparr>r_copy_fds := fds, select_client_event := (select_client_event sv)[i := None]\<rparr>)
       });
     Some (sv\<lparr>select_client_num := select_client_num sv - 1\<rparr>)
   }"

text \<open>The owner of a server: where the server record lies in its state, the \<open>fd\<close> of a client
  record, and the callbacks (a NULL callback is one that does nothing).\<close>

record ('s, 'p) select_owner =
  server_of :: "'s \<Rightarrow> 'p select_server"
  set_server :: "'p select_server \<Rightarrow> 's \<Rightarrow> 's"
  fd_of :: "'s \<Rightarrow> 'p \<Rightarrow> int"
  read_cb :: "'p \<Rightarrow> 's \<Rightarrow> 's option"
  write_cb :: "'p \<Rightarrow> 's \<Rightarrow> 's option"
  except_cb :: "'p \<Rightarrow> 's \<Rightarrow> 's option"
  error_cb :: "int \<Rightarrow> 's \<Rightarrow> 's option"
  timeout_cb :: "'s \<Rightarrow> 's option"

definition select_client_fd_check :: "('s, 'p) select_owner \<Rightarrow> 'p \<Rightarrow> 's \<Rightarrow> 's option" where
  "select_client_fd_check ow p s = do {
     r \<leftarrow> FD_ISSET (fd_of ow s p) (rfds (server_of ow s));
     s \<leftarrow> (if r then read_cb ow p s else Some s);
     w \<leftarrow> FD_ISSET (fd_of ow s p) (wfds (server_of ow s));
     s \<leftarrow> (if w then write_cb ow p s else Some s);
     e \<leftarrow> FD_ISSET (fd_of ow s p) (efds (server_of ow s));
     if e then except_cb ow p s else Some s
   }"

text \<open>One turn of the loop of \<open>select_server_task\<close>. \<open>select\<close> returned \<open>n\<close> and, when it returned a
  positive number, left the members of \<open>ready\<close> in the copy of the watched set. The table is read
  again for every slot, because a callback may change it.\<close>

definition select_server_turn :: "('s, 'p) select_owner \<Rightarrow> int \<Rightarrow> int set \<Rightarrow> 's \<Rightarrow> 's option" where
  "select_server_turn ow n ready s = do {
     let sv = server_of ow s;
     let s = set_server ow (sv\<lparr>rfds := r_copy_fds sv \<inter> ready\<rparr>) s;
     if n < 0 then error_cb ow n s
     else if n = 0 then timeout_cb ow s
     else foldM (\<lambda>i s. do {
         e \<leftarrow> rd (select_client_event (server_of ow s)) i;
         case e of None \<Rightarrow> Some s | Some p \<Rightarrow> select_client_fd_check ow p s
       }) [0..<SELECT_MAX_CLIENT] s
   }"

text \<open>\<open>while (runing)\<close> over the results of successive \<open>select\<close> calls; the loop is left when a
  callback or another thread has cleared the flag.\<close>

fun select_server_task :: "('s, 'p) select_owner \<Rightarrow> (int \<times> int set) list \<Rightarrow> 's \<Rightarrow> 's option" where
  "select_server_task ow [] s = Some s"
| "select_server_task ow ((n, ready) # evs) s =
     (if runing (server_of ow s) \<noteq> 0 then do {
        s \<leftarrow> select_server_turn ow n ready s;
        select_server_task ow evs s
      }
      else Some s)"

section \<open>The table invariant\<close>

text \<open>The watched descriptors are those of the clients in the table, no client is entered twice, the
  count is right and \<open>maxfd\<close> covers every watched descriptor.\<close>

definition clients :: "'p select_server \<Rightarrow> 'p list" where
  "clients sv = List.map_filter id (select_client_event sv)"

definition select_inv :: "('p \<Rightarrow> int) \<Rightarrow> 'p select_server \<Rightarrow> bool" where
  "select_inv fd sv \<longleftrightarrow> length (select_client_event sv) = SELECT_MAX_CLIENT \<and>
     distinct (map fd (clients sv)) \<and>
     r_copy_fds sv = fd ` set (clients sv) \<and>
     select_client_num sv = int (length (clients sv)) \<and>
     (\<forall>p \<in> set (clients sv). 0 \<le> fd p \<and> fd p \<le> maxfd sv)"

lemma map_filter_id_update_Some:
  "i < length xs \<Longrightarrow> xs ! i = None \<Longrightarrow>
    List.map_filter id (xs[i := Some p]) =
      List.map_filter id (take i xs) @ p # List.map_filter id (drop (Suc i) xs)"
  by (simp add: upd_conv_take_nth_drop map_filter_def)

lemma map_filter_id_split:
  "i < length xs \<Longrightarrow> List.map_filter id xs =
    List.map_filter id (take i xs) @ (case xs ! i of None \<Rightarrow> [] | Some p \<Rightarrow> [p]) @ List.map_filter id (drop (Suc i) xs)"
  by (subst id_take_nth_drop [of i xs]) (auto simp: map_filter_def split: option.splits)

lemma length_map_filter_id: "length (List.map_filter id xs) \<le> length xs"
  by (simp add: map_filter_def)

lemma set_clients: "p \<in> set (clients sv) \<longleftrightarrow> Some p \<in> set (select_client_event sv)"
  by (auto simp: clients_def map_filter_def image_iff intro!: bexI [of _ "Some p"])

lemma slot_search:
  assumes "length xs = SELECT_MAX_CLIENT"
  shows "\<exists>k. find_idx (\<lambda>i. do { e \<leftarrow> rd xs i; Some (P e) }) 0 SELECT_MAX_CLIENT = Some k \<and> k \<le> length xs \<and>
    (\<forall>j < k. \<not> P (xs ! j)) \<and> (k < length xs \<longrightarrow> P (xs ! k))"
proof -
  let ?P = "\<lambda>i. do { e \<leftarrow> rd xs i; Some (P e) }"
  have P: "?P i = Some (P (xs ! i))" if "i < SELECT_MAX_CLIENT" for i
    using that assms by (simp add: rd_def)
  then obtain k where k: "find_idx ?P 0 SELECT_MAX_CLIENT = Some k" "k \<le> SELECT_MAX_CLIENT"
    "\<forall>j. 0 \<le> j \<and> j < k \<longrightarrow> ?P j = Some False" "k < SELECT_MAX_CLIENT \<longrightarrow> ?P k = Some True"
    using find_idx_ex [of 0 SELECT_MAX_CLIENT ?P] by auto
  with P assms show ?thesis by (intro exI [of _ k]) fastforce
qed

lemma add_select_spec:
  assumes "select_inv fd sv" and "fd_ok (fd p)" and "fd p \<notin> r_copy_fds sv"
  shows "if length (clients sv) < SELECT_MAX_CLIENT
    then \<exists>sv'. add_select_client_event sv p (fd p) = Some (0, sv') \<and> select_inv fd sv' \<and>
      set (clients sv') = insert p (set (clients sv)) \<and> runing sv' = runing sv
    else add_select_client_event sv p (fd p) = Some (-1, sv)"
proof -
  let ?xs = "select_client_event sv"
  have len: "length ?xs = SELECT_MAX_CLIENT" using assms(1) by (simp add: select_inv_def)
  obtain k where k: "find_idx (\<lambda>i. do { e \<leftarrow> rd ?xs i; Some (e = None) }) 0 SELECT_MAX_CLIENT = Some k"
    "k \<le> length ?xs" "\<forall>j < k. ?xs ! j \<noteq> None" "k < length ?xs \<longrightarrow> ?xs ! k = None"
    using slot_search [OF len, of "\<lambda>e. e = None"] by auto
  have full: "length (clients sv) = SELECT_MAX_CLIENT" if "k = SELECT_MAX_CLIENT"
  proof -
    have "\<forall>x \<in> set ?xs. x \<noteq> None" using k(3) that len by (metis in_set_conv_nth)
    then show ?thesis by (simp add: clients_def map_filter_def len [symmetric])
  qed
  show ?thesis
  proof (cases "k = SELECT_MAX_CLIENT")
    case True
    with full k show ?thesis by (simp add: add_select_client_event_def)
  next
    case False
    then have kl: "k < length ?xs" "?xs ! k = None" using k len by auto
    define sv' where "sv' = (let s1 = sv\<lparr>select_client_event := ?xs[k := Some p], r_copy_fds := insert (fd p) (r_copy_fds sv)\<rparr>;
      s2 = (if fd p > maxfd s1 then s1\<lparr>maxfd := fd p\<rparr> else s1) in s2\<lparr>select_client_num := select_client_num s2 + 1\<rparr>)"
    have run: "add_select_client_event sv p (fd p) = Some (0, sv')"
      using k False assms(2) by (simp add: add_select_client_event_def FD_SET_def sv'_def Let_def)
    have cl: "clients sv = List.map_filter id (take k ?xs) @ List.map_filter id (drop (Suc k) ?xs)"
      unfolding clients_def using map_filter_id_split [OF kl(1)] kl(2) by simp
    have cl': "clients sv' = List.map_filter id (take k ?xs) @ p # List.map_filter id (drop (Suc k) ?xs)"
      unfolding clients_def sv'_def Let_def using map_filter_id_update_Some [OF kl] by simp
    have "length (clients sv) < SELECT_MAX_CLIENT"
      using kl(1) len length_map_filter_id [of "take k ?xs"] length_map_filter_id [of "drop (Suc k) ?xs"]
      unfolding cl by simp
    moreover have "select_inv fd sv' \<and> set (clients sv') = insert p (set (clients sv)) \<and> runing sv' = runing sv"
    proof -
      have "fd p \<notin> fd ` set (clients sv)" "0 \<le> fd p"
        using assms by (auto simp: select_inv_def fd_ok_def)
      moreover have "maxfd sv \<le> maxfd sv'" "fd p \<le> maxfd sv'" "r_copy_fds sv' = insert (fd p) (r_copy_fds sv)"
        "select_client_num sv' = select_client_num sv + 1" "length (select_client_event sv') = length ?xs"
        "runing sv' = runing sv"
        by (simp_all add: sv'_def Let_def)
      moreover have "set (clients sv') = insert p (set (clients sv))" "length (clients sv') = Suc (length (clients sv))"
        "distinct (map fd (clients sv')) \<longleftrightarrow> distinct (map fd (clients sv)) \<and> fd p \<notin> fd ` set (clients sv)"
        unfolding cl cl' by auto
      ultimately show ?thesis using assms(1) by (auto simp: select_inv_def)
    qed
    ultimately show ?thesis using run by auto
  qed
qed

lemma delete_select_spec:
  assumes "select_inv fd sv" and "p \<in> set (clients sv)" and "fd_ok (fd p)"
  shows "\<exists>sv'. delete_select_client_event sv p (fd p) = Some sv' \<and> select_inv fd sv' \<and>
    set (clients sv') = set (clients sv) - {p} \<and> fd p \<notin> r_copy_fds sv' \<and> runing sv' = runing sv"
proof -
  let ?xs = "select_client_event sv"
  have len: "length ?xs = SELECT_MAX_CLIENT" using assms(1) by (simp add: select_inv_def)
  obtain k where k: "find_idx (\<lambda>i. do { e \<leftarrow> rd ?xs i; Some (e = Some p) }) 0 SELECT_MAX_CLIENT = Some k"
    "k \<le> length ?xs" "\<forall>j < k. ?xs ! j \<noteq> Some p" "k < length ?xs \<longrightarrow> ?xs ! k = Some p"
    using slot_search [OF len, of "\<lambda>e. e = Some p"] by auto
  have kl: "k < length ?xs"
    using k(2,3) assms(2) by (metis set_clients in_set_conv_nth le_neq_implies_less)
  let ?sv = "sv\<lparr>r_copy_fds := r_copy_fds sv - {fd p}, select_client_event := ?xs[k := None],
    select_client_num := select_client_num sv - 1\<rparr>"
  have "fd p \<in> r_copy_fds sv" using assms(1,2) by (auto simp: select_inv_def)
  then have run: "delete_select_client_event sv p (fd p) = Some ?sv"
    using k(1) kl len assms(3) by (simp add: delete_select_client_event_def FD_ISSET_def FD_CLR_def Let_def)
  let ?l = "List.map_filter id (take k ?xs)" and ?r = "List.map_filter id (drop (Suc k) ?xs)"
  have cl: "clients sv = ?l @ p # ?r"
    unfolding clients_def using map_filter_id_split [OF kl] k(4) kl by simp
  have cl': "clients ?sv = ?l @ ?r"
    unfolding clients_def using kl by (simp add: upd_conv_take_nth_drop map_filter_def)
  have d: "distinct (map fd (?l @ p # ?r))" using assms(1) by (simp add: select_inv_def flip: cl)
  then have "fd p \<notin> fd ` set (?l @ ?r)" by auto
  then have "fd ` set (clients ?sv) = fd ` set (clients sv) - {fd p}" "set (clients ?sv) = set (clients sv) - {p}"
    unfolding cl cl' by auto
  moreover have "distinct (map fd (clients ?sv))" "length (clients sv) = Suc (length (clients ?sv))"
    using d unfolding cl cl' by auto
  ultimately have "select_inv fd ?sv \<and> set (clients ?sv) = set (clients sv) - {p}"
    using assms(1) by (auto simp: select_inv_def)
  with run show ?thesis by simp
qed

end
