(* ===== verification/X50_World.thy ===== *)
theory X50_World
  imports X50_Json_Parse X50_Resend X50_Select
begin

text \<open>
  The state of the whole program and its surroundings.

  \<^item> \<open>world\<close> holds every static variable of \<open>x50/src\<close> that outlives a call, grouped by the file that
    owns it, and the trace of what the program has done to the outside (\<open>effect\<close>).
  \<^item> \<open>env\<close> is the outside as one handler sees it: clocks, results of system calls and of the
    libraries that are not under \<open>src\<close> (the WiFi library, sqlite), answers of the Alibaba SDK. It is
    fixed while a handler runs.
  \<^item> A handler is a function \<open>env \<Rightarrow> world \<Rightarrow> ('a \<times> world) option\<close>; \<open>None\<close> is undefined
    behaviour (see \<open>X50_Prelude\<close>).

  Mutexes protect handlers of different threads from each other; a handler never takes a mutex it
  holds, so locking succeeds and is left out.
\<close>

section \<open>Effects\<close>

text \<open>The message types of \<open>IOT_Linkkit_Query\<close> the program uses.\<close>

datatype itm_msg =
    ITM_MSG_QUERY_TIMESTAMP
  | ITM_MSG_QUERY_FOTA_DATA
  | ITM_MSG_QUERY_COTA_DATA
  | ITM_MSG_REQUEST_FOTA_IMAGE

datatype effect =
    Ecb_Write bytes                    \<comment> \<open>\<open>write\<close> to the power-board port\<close>
  | Gesture_Write bytes                \<comment> \<open>\<open>write\<close> to the gesture-board port\<close>
  | Sock_Send int bytes                \<comment> \<open>\<open>send\<close> on a UI socket\<close>
  | Close int
  | Post_Property string               \<comment> \<open>\<open>IOT_Linkkit_Report\<close>\<close>
  | Post_Event string string           \<comment> \<open>\<open>IOT_Linkkit_TriggerEvent\<close>\<close>
  | Link_Query itm_msg string              \<comment> \<open>\<open>IOT_Linkkit_Query\<close>\<close>
  | DevReset_Report string string      \<comment> \<open>\<open>IOT_DevReset_Report\<close> of product key and device name\<close>
  | Wifi_Enable int
  | Wifi_Connect string string int
  | Wifi_Disconnect
  | Wifi_Scan
  | Sleep nat                          \<comment> \<open>seconds\<close>
  | Sleep_Ms nat
  | Sync
  | Reboot
  | System string
  | Timer_Set string int int
  | File_Write string string

section \<open>sqlite\<close>

text \<open>The part of sqlite's interface \<open>databse/database.c\<close> uses. \<open>'db\<close> is a database. A row is what
  \<open>sqlite3_column_int\<close> and \<open>sqlite3_column_text\<close> return for its columns (NULL for an SQL NULL).\<close>

datatype sql_arg = Sql_Int int | Sql_Text string
datatype sql_col = Sql_Col (col_int: int) (col_text: "string option")

record 'db sqlite =
  sqlite3_exec :: "string \<Rightarrow> 'db \<Rightarrow> bool \<times> 'db"
  sqlite3_prepare :: "string \<Rightarrow> 'db \<Rightarrow> bool"
  sqlite3_run :: "string \<Rightarrow> sql_arg list \<Rightarrow> 'db \<Rightarrow> sql_col list list \<times> int \<times> 'db"

section \<open>Cloud attributes and the device record\<close>

text \<open>\<open>cloud_attr_t\<close> and \<open>cloud_dev_t\<close> of \<open>cloud_platform_task.h\<close>. The two enums are \<open>int\<close>s, because
  the profile's numbers are assigned to them unchecked. \<open>attr_value\<close> is the allocated block, \<open>None\<close>
  for NULL; its length is \<open>uart_byte_len\<close> when it is allocated.\<close>

definition LINK_VALUE_TYPE_NUM :: int where "LINK_VALUE_TYPE_NUM = 0"
definition LINK_VALUE_TYPE_STRING_NUM :: int where "LINK_VALUE_TYPE_STRING_NUM = 1"
definition LINK_VALUE_TYPE_STRING :: int where "LINK_VALUE_TYPE_STRING = 2"
definition LINK_VALUE_TYPE_STRUCT :: int where "LINK_VALUE_TYPE_STRUCT = 3"

definition LINK_FUN_TYPE_ATTR_REPORT_CTRL :: int where "LINK_FUN_TYPE_ATTR_REPORT_CTRL = 0"
definition LINK_FUN_TYPE_ATTR_REPORT :: int where "LINK_FUN_TYPE_ATTR_REPORT = 1"
definition LINK_FUN_TYPE_ATTR_CTRL :: int where "LINK_FUN_TYPE_ATTR_CTRL = 2"
definition LINK_FUN_TYPE_EVENT :: int where "LINK_FUN_TYPE_EVENT = 3"
definition LINK_FUN_TYPE_SERVICE :: int where "LINK_FUN_TYPE_SERVICE = 4"

lemmas link_types =
  LINK_VALUE_TYPE_NUM_def LINK_VALUE_TYPE_STRING_NUM_def LINK_VALUE_TYPE_STRING_def LINK_VALUE_TYPE_STRUCT_def
  LINK_FUN_TYPE_ATTR_REPORT_CTRL_def LINK_FUN_TYPE_ATTR_REPORT_def LINK_FUN_TYPE_ATTR_CTRL_def
  LINK_FUN_TYPE_EVENT_def LINK_FUN_TYPE_SERVICE_def

record cloud_attr =
  cloud_key :: string
  cloud_value_type :: int
  cloud_fun_type :: int
  uart_cmd :: byte
  uart_byte_len :: byte
  attr_value :: "bytes option"

record cloud_dev =
  product_key :: string
  product_secret :: string
  device_name :: string
  device_secret :: string
  device_category :: string
  device_model :: string
  after_sales_phone :: string
  hardware_ver :: string
  software_ver :: string
  remind :: "string list"
  update_log :: string
  attrs :: "cloud_attr list"

section \<open>OTA states\<close>

datatype ota_type =
    OTA_IDLE
  | OTA_NO_FIRMWARE
  | OTA_NEW_FIRMWARE
  | OTA_DOWNLOAD_START
  | OTA_DOWNLOAD_FAIL
  | OTA_DOWNLOAD_SUCCESS
  | OTA_INSTALL_START
  | OTA_INSTALL_FAIL
  | OTA_INSTALL_SUCCESS

fun ota_number :: "ota_type \<Rightarrow> int" where
  "ota_number OTA_IDLE = 0"
| "ota_number OTA_NO_FIRMWARE = 1"
| "ota_number OTA_NEW_FIRMWARE = 2"
| "ota_number OTA_DOWNLOAD_START = 3"
| "ota_number OTA_DOWNLOAD_FAIL = 4"
| "ota_number OTA_DOWNLOAD_SUCCESS = 5"
| "ota_number OTA_INSTALL_START = 6"
| "ota_number OTA_INSTALL_FAIL = 7"
| "ota_number OTA_INSTALL_SUCCESS = 8"

section \<open>History rows\<close>

text \<open>\<open>recipes_t\<close> of \<open>databse/database.h\<close> and \<open>history_t\<close> of \<open>libhistory\<close> have the same fields and are
  cast into each other.\<close>

record recipes =
  r_id :: int
  r_seqid :: int
  r_dishName :: string
  r_imgUrl :: string
  r_details :: string
  r_cookSteps :: string
  r_timestamp :: int
  r_collect :: int
  r_cookType :: int
  r_recipeType :: int
  r_cookPos :: int

definition recipes_zero :: recipes where
  "recipes_zero = \<lparr>r_id = 0, r_seqid = 0, r_dishName = [], r_imgUrl = [], r_details = [], r_cookSteps = [],
     r_timestamp = 0, r_collect = 0, r_cookType = 0, r_recipeType = 0, r_cookPos = 0\<rparr>"

section \<open>The state of the components\<close>

text \<open>\<open>uart/ecb_uart.c\<close> and \<open>uart/ecb_uart_parse_msg.c\<close>.\<close>

record ecb_state =
  ecb_fd :: int
  ecb_seq_id :: "16 word"
  ecb_msg_get_count :: int
  ecb_msg_get_timeout :: int
  ecb_list_resend :: "uart_resend list"
  ecb_read_buf :: "bytes \<times> nat"
  msg_get_timeout_count :: int
  ecb_heart_count :: int

text \<open>\<open>uart/gesture_uart.c\<close>.\<close>

record gesture_state =
  gesture_fd :: int
  gesture_error_status :: byte
  gesture_alarm_status :: byte
  gesture_recv_error :: int
  gesture_read_buf :: "bytes \<times> nat"

text \<open>\<open>uds/uds_tcp_server.c\<close>: the listening record and the client records, whose address is
  \<open>Uds_Server\<close> or \<open>Uds_Client i\<close>. \<open>cb_set\<close> says whether the callback pointers are filled in.\<close>

definition SELECT_TCP_MAX_CLIENT :: nat where "SELECT_TCP_MAX_CLIENT = 2"
definition BUFLEN :: nat where "BUFLEN = 4096"

datatype uds_client_ref = Uds_Server | Uds_Client nat

record app_client =
  client_fd :: int
  client_cb_set :: bool

record uds_state =
  uds_select :: "uds_client_ref select_server"
  uds_server_fd :: int
  uds_clients :: "app_client list"
  g_seqid :: int

text \<open>\<open>aliyun/linkkit_solo.c\<close>, \<open>linkkit_ota.c\<close>, \<open>linkkit_reset.c\<close> (the stored reset flag) and the new
  version of \<open>ota/ota_task.c\<close>.\<close>

record linkkit_state =
  master_devid :: int
  cloud_connected :: int
  master_initialized :: int
  linkkit_runing :: int
  token_state :: int
  meta_quad :: "string \<times> string \<times> string \<times> string"
  g_ota_state :: ota_type
  g_ota_version :: string
  ota_new_version :: string
  kv_rst :: "byte option"

text \<open>\<open>databse/database_task.c\<close> and the list of \<open>libhistory\<close>.\<close>

record history_state =
  g_history_seqid :: int
  historyList :: "recipes list"

text \<open>\<open>uart_buf\<close> is the static buffer of \<open>cloud_resp_set\<close>. \<open>gesture_registered\<close>: \<open>gesture_uart_init\<close> has registered its callbacks with the WiFi task and
  the link.\<close>

record 'db world =
  ecb :: ecb_state
  gesture :: gesture_state
  uds :: uds_state
  linkkit :: linkkit_state
  history :: history_state
  g_cloud_dev :: cloud_dev
  uart_buf :: bytes
  gesture_registered :: bool
  database :: 'db
  trace :: "effect list"

text \<open>Static memory when the program starts, with the device record \<open>cloud_init\<close> will load.\<close>

definition world_zero :: "cloud_dev \<Rightarrow> 'db \<Rightarrow> 'db world" where
  "world_zero dev db = \<lparr>
     ecb = \<lparr>ecb_fd = 0, ecb_seq_id = 0, ecb_msg_get_count = 0, ecb_msg_get_timeout = 15, ecb_list_resend = [],
       ecb_read_buf = (replicate 512 0, 0), msg_get_timeout_count = 0, ecb_heart_count = 0\<rparr>,
     gesture = \<lparr>gesture_fd = 0, gesture_error_status = 0, gesture_alarm_status = 0, gesture_recv_error = 0,
       gesture_read_buf = (replicate 256 0, 0)\<rparr>,
     uds = \<lparr>uds_select = select_server_zero, uds_server_fd = 0,
       uds_clients = replicate 2 \<lparr>client_fd = 0, client_cb_set = False\<rparr>, g_seqid = 0\<rparr>,
     linkkit = \<lparr>master_devid = 0, cloud_connected = 0, master_initialized = 0, linkkit_runing = 0, token_state = 0,
       meta_quad = ([], [], [], []), g_ota_state = OTA_IDLE, g_ota_version = [], ota_new_version = [], kv_rst = None\<rparr>,
     history = \<lparr>g_history_seqid = 0, historyList = []\<rparr>,
     g_cloud_dev = dev, uart_buf = replicate 256 0, gesture_registered = False, database = db, trace = []\<rparr>"

definition cloud_dev_zero :: cloud_dev where
  "cloud_dev_zero = \<lparr>product_key = [], product_secret = [], device_name = [], device_secret = [],
     device_category = [], device_model = [], after_sales_phone = [], hardware_ver = [], software_ver = [],
     remind = replicate 3 [], update_log = [], attrs = []\<rparr>"

definition emit :: "effect \<Rightarrow> 'db world \<Rightarrow> 'db world" where
  "emit e w = w\<lparr>trace := trace w @ [e]\<rparr>"

section \<open>The environment\<close>

record 'db env =
  env_timeofday :: "int \<times> int"
  env_time :: int
  env_localtime :: "int \<Rightarrow> int \<times> int"
  env_ecb_write :: "bytes \<Rightarrow> int"
  env_gesture_write :: "bytes \<Rightarrow> int"
  env_wifi_state :: int
  RK_WIFI_State_CONNECTED :: int
  RK_WIFI_State_DISCONNECTED :: int
  env_wifi_enable :: "int \<Rightarrow> int"
  env_wifi_connect :: "string \<Rightarrow> string \<Rightarrow> int \<Rightarrow> int"
  env_wifi_disconnect :: int
  env_wifi_scan_r :: string
  env_wifi_info :: "int \<times> string \<times> string \<times> string \<times> string"
  env_hwaddr :: "bytes option"
  env_query :: "itm_msg \<Rightarrow> string \<Rightarrow> int"
  env_fota_percents :: "int list"
  env_reset_report :: int
  env_file :: "string \<Rightarrow> string option"
  env_file_write :: "string \<Rightarrow> string \<Rightarrow> int"
  env_sqlite :: "'db sqlite"

text \<open>A sample environment around a database engine, for the witnesses.\<close>

definition env_of :: "'db sqlite \<Rightarrow> 'db env" where
  "env_of engine = \<lparr>env_timeofday = (1700000000, 250000), env_time = 1700000000, env_localtime = (\<lambda>t. (9, 41)),
     env_ecb_write = (\<lambda>b. int (length b)), env_gesture_write = (\<lambda>b. int (length b)),
     env_wifi_state = 4, RK_WIFI_State_CONNECTED = 4, RK_WIFI_State_DISCONNECTED = 5,
     env_wifi_enable = (\<lambda>n. 0), env_wifi_connect = (\<lambda>s p e. 0), env_wifi_disconnect = 0,
     env_wifi_scan_r = ''[]'', env_wifi_info = (0, [], [], [], []), env_hwaddr = Some [0x00, 0x16, 0xE0, 0x00, 0x00, 0x01],
     env_query = (\<lambda>m s. 0), env_fota_percents = [50, 100], env_reset_report = 1,
     env_file = (\<lambda>f. None), env_file_write = (\<lambda>f s. 0),
     env_sqlite = engine\<rparr>"

definition null_engine :: "unit sqlite" where
  "null_engine = \<lparr>sqlite3_exec = (\<lambda>s d. (True, d)), sqlite3_prepare = (\<lambda>s d. True),
     sqlite3_run = (\<lambda>s a d. ([], 0, d))\<rparr>"

section \<open>Frame rules\<close>

lemma emit_simps [simp]:
  "ecb (emit e w) = ecb w" "gesture (emit e w) = gesture w" "uds (emit e w) = uds w"
  "linkkit (emit e w) = linkkit w" "history (emit e w) = history w" "g_cloud_dev (emit e w) = g_cloud_dev w"
  "uart_buf (emit e w) = uart_buf w" "gesture_registered (emit e w) = gesture_registered w" "database (emit e w) = database w"
  "trace (emit e w) = trace w @ [e]"
  by (simp_all add: emit_def)

lemma emit_inject [simp]: "emit e w = emit e w' \<longleftrightarrow> w = w'"
  by (cases w; cases w') (auto simp: emit_def)

end
