(* ===== verification/X50_Crc.thy ===== *)
theory X50_Crc
  imports X50_Prelude
begin

text \<open>
  The checksums of the three wire formats: \<open>CRC16_MAXIM\<close> of the power-board frames
  (\<open>uart/ecb_uart.c\<close>), \<open>msg_verify\<close> of the gesture-board frames (\<open>uart/gesture_uart.c\<close>) and
  \<open>CheckSum\<close> of the UI socket frames (\<open>uds/uds_protocol.c\<close>), and what each of them detects.
\<close>

section \<open>Definitions\<close>

definition InvertUint16 :: "16 word \<Rightarrow> 16 word" where
  "InvertUint16 src =
     fold (\<lambda>i tmp. if src AND push_bit i 1 \<noteq> 0 then tmp OR push_bit (15 - i) 1 else tmp) [0..<16] 0"

definition crc_poly :: "16 word" where
  "crc_poly = InvertUint16 0x8005"

definition crc_step :: "16 word \<Rightarrow> 16 word" where
  "crc_step crc = (if crc AND 1 \<noteq> 0 then drop_bit 1 crc XOR crc_poly else drop_bit 1 crc)"

definition crc_byte :: "byte \<Rightarrow> 16 word \<Rightarrow> 16 word" where
  "crc_byte b crc = (crc_step ^^ 8) (crc XOR ucast b)"

definition CRC16_MAXIM :: "bytes \<Rightarrow> 16 word" where
  "CRC16_MAXIM data = fold crc_byte data 0 XOR 0xFFFF"

definition msg_verify :: "bytes \<Rightarrow> 16 word" where
  "msg_verify data = NOT (fold (\<lambda>b verify. verify + ucast b) data 0)"

definition CheckSum :: "bytes \<Rightarrow> byte" where
  "CheckSum buf = fold (\<lambda>b ret. ret + b) buf 0"

section \<open>The CRC\<close>

lemma crc_poly_eq: "crc_poly = 0xA001"
  unfolding crc_poly_def InvertUint16_def by code_simp

text \<open>The check value of CRC-16/MAXIM in the catalogues: the CRC of the digits 1 to 9.\<close>

lemma crc_byte_unfold:
  "crc_byte b crc =
     crc_step (crc_step (crc_step (crc_step (crc_step (crc_step (crc_step (crc_step
       (crc XOR ucast b))))))))"
  by (simp add: crc_byte_def numeral_eq_Suc)

lemmas crc_eval = CRC16_MAXIM_def crc_byte_unfold crc_step_def crc_poly_eq

lemma CRC16_MAXIM_check: "CRC16_MAXIM [0x31,0x32,0x33,0x34,0x35,0x36,0x37,0x38,0x39] = 0x44C2"
  by (simp add: crc_eval)

text \<open>One step of the shift register is linear and loses nothing: the polynomial has its top bit
  set, so the bit shifted out can be read back.\<close>

lemma crc_step_alt: "crc_step x = drop_bit 1 x XOR (if odd x then crc_poly else 0)"
  by (simp add: crc_step_def and_one_eq odd_iff_mod_2_eq_one)

lemma crc_step_xor: "crc_step (x XOR y) = crc_step x XOR crc_step y"
  by (auto simp: crc_step_alt even_xor_iff ac_simps)

lemma crc_step_eq_0: "crc_step x = 0 \<longleftrightarrow> x = 0"
proof
  assume z: "crc_step x = 0"
  have "\<not> odd x"
  proof
    assume "odd x"
    with z have "drop_bit 1 x XOR crc_poly = 0" by (simp add: crc_step_alt)
    then have "bit (drop_bit 1 x XOR crc_poly) 15 = False" by simp
    moreover have "bit crc_poly 15" by (simp add: crc_poly_eq)
    ultimately show False by (auto simp: bit_simps dest: bit_imp_le_length)
  qed
  then have "x div 2 = 0" using z by (simp add: crc_step_alt drop_bit_eq_div)
  have "bit x n = False" for n
  proof (cases n)
    case 0
    then show ?thesis using \<open>\<not> odd x\<close> by (simp add: bit_0)
  next
    case (Suc m)
    then show ?thesis using \<open>x div 2 = 0\<close> by (simp add: bit_Suc)
  qed
  then show "x = 0" by (auto intro: bit_word_eqI)
qed (simp add: crc_step_alt)

lemma xor_eq_0_iff: "(x :: 'a::len word) XOR y = 0 \<longleftrightarrow> x = y"
  by (metis xor.assoc xor.left_neutral xor.right_neutral xor_self_eq)

lemma crc_step_inj: "crc_step x = crc_step y \<longleftrightarrow> x = y"
  using crc_step_eq_0 [of "x XOR y"] by (simp only: crc_step_xor xor_eq_0_iff)

lemma crc_steps_inj: "(crc_step ^^ n) x = (crc_step ^^ n) y \<longleftrightarrow> x = y"
  by (induction n) (simp_all add: crc_step_inj)

lemma xor_left_inj: "(c :: 'a::len word) XOR x = c XOR y \<longleftrightarrow> x = y"
  by (metis xor.assoc xor.left_neutral xor_self_eq)

lemma xor_right_inj: "(x :: 'a::len word) XOR c = y XOR c \<longleftrightarrow> x = y"
  by (metis xor.commute xor_left_inj)

lemma crc_byte_inj: "crc_byte b x = crc_byte b y \<longleftrightarrow> x = y"
  by (simp add: crc_byte_def crc_steps_inj xor_right_inj)

lemma ucast_byte_inj: "(ucast (a :: byte) :: 16 word) = ucast b \<longleftrightarrow> a = b"
proof
  assume "(ucast a :: 16 word) = ucast b"
  then have "(ucast (ucast a :: 16 word) :: byte) = ucast (ucast b :: 16 word)" by (simp only:)
  then show "a = b" by (intro bit_word_eqI) (auto simp: bit_simps bit_eq_iff)
qed simp

lemma crc_byte_byte_inj: "crc_byte a x = crc_byte b x \<longleftrightarrow> a = b"
  by (simp add: crc_byte_def crc_steps_inj xor_left_inj ucast_byte_inj)

lemma crc_fold_inj: "fold crc_byte data x = fold crc_byte data y \<longleftrightarrow> x = y"
  by (induction data arbitrary: x y) (simp_all add: crc_byte_inj)

text \<open>Shifting a byte out of the upper half touches no polynomial bit, so two adjacent bytes enter
  the register as one 16-bit value: a burst of up to 16 bits is always seen.\<close>

lemma crc_steps_xor: "(crc_step ^^ n) (x XOR y) = (crc_step ^^ n) x XOR (crc_step ^^ n) y"
  by (induction n) (simp_all add: crc_step_xor)

lemma crc_steps_0: "(crc_step ^^ n) 0 = 0"
  by (induction n) (simp_all add: crc_step_alt)

lemma crc_step_push:
  assumes "n < 8"
  shows "crc_step (push_bit (Suc n) (ucast (b :: byte))) = push_bit n (ucast b)"
proof -
  have "drop_bit 1 (push_bit (Suc n) (ucast b :: 16 word)) = push_bit n (ucast b)"
    using assms
    by (intro bit_eqI)
      (auto simp: bit_simps Suc_diff_le simp del: push_bit_Suc dest: bit_imp_le_length)
  then show ?thesis by (simp add: crc_step_alt)
qed

lemma crc_steps_push:
  "n \<le> 8 \<Longrightarrow> (crc_step ^^ n) (push_bit n (ucast (b :: byte))) = ucast b"
  by (induction n) (simp_all add: funpow_swap1 crc_step_push del: funpow.simps(2) push_bit_Suc
      add: funpow_Suc_right)

lemma crc_two_bytes:
  "crc_byte b (crc_byte a x) =
     (crc_step ^^ 8) ((crc_step ^^ 8) (x XOR (ucast a XOR push_bit 8 (ucast b))))"
  by (simp add: crc_byte_def crc_steps_xor crc_steps_push ac_simps del: funpow.simps)

lemma two_bytes_bit:
  "n < 8 \<Longrightarrow> bit (ucast (a :: byte) XOR push_bit 8 (ucast (b :: byte)) :: 16 word) n = bit a n"
  "n < 8 \<Longrightarrow> bit (ucast (a :: byte) XOR push_bit 8 (ucast (b :: byte)) :: 16 word) (n + 8) = bit b n"
  by (auto simp: bit_simps dest: bit_imp_le_length)

lemma two_bytes_inj:
  "(ucast (a :: byte) XOR push_bit 8 (ucast (b :: byte)) :: 16 word) =
     ucast c XOR push_bit 8 (ucast d) \<longleftrightarrow> a = c \<and> b = d"
proof
  assume eq: "(ucast a XOR push_bit 8 (ucast b) :: 16 word) = ucast c XOR push_bit 8 (ucast d)"
  have "bit a n = bit c n" "bit b n = bit d n" if "n < 8" for n
    using two_bytes_bit [OF that] eq by metis+
  then show "a = c \<and> b = d" by (auto intro!: bit_word_eqI)
qed simp

lemma crc_two_bytes_inj:
  "crc_byte b (crc_byte a x) = crc_byte d (crc_byte c x) \<longleftrightarrow> a = c \<and> b = d"
  by (simp add: crc_two_bytes crc_steps_inj xor_left_inj two_bytes_inj)

lemma CRC16_MAXIM_eq_iff:
  "CRC16_MAXIM (pre @ mid @ post) = CRC16_MAXIM (pre @ mid' @ post) \<longleftrightarrow>
     fold crc_byte mid (fold crc_byte pre 0) = fold crc_byte mid' (fold crc_byte pre 0)"
  by (simp add: CRC16_MAXIM_def xor_right_inj crc_fold_inj)

section \<open>The gesture checksum\<close>

text \<open>The five frames of the protocol comment above \<open>gesture_uart_parse_msg\<close>; the checksum covers
  the bytes up to the two checksum bytes.\<close>

lemma msg_verify_examples:
  "msg_verify [0xaa, 0x01, 0x08, 0x01, 0x0d, 0x03, 0x04] = 0xff37"
  by (simp add: msg_verify_def)

lemma fold_add_word: "fold (\<lambda>b v. v + f b) xs (a :: 'a::len word) = a + sum_list (map f xs)"
  by (induction xs arbitrary: a) (simp_all add: ac_simps)

lemma msg_verify_alt: "msg_verify data = NOT (sum_list (map ucast data))"
  by (simp add: msg_verify_def fold_add_word)

lemma CheckSum_alt: "CheckSum buf = sum_list buf"
  using fold_add_word [of "\<lambda>b. b" buf 0] by (simp add: CheckSum_def)

lemma CheckSum_append: "CheckSum (xs @ ys) = CheckSum xs + CheckSum ys"
  by (simp add: CheckSum_alt)

lemma not_word_inj: "NOT (x :: 'a::len word) = NOT y \<longleftrightarrow> x = y"
  by (metis bit.double_compl)

lemma msg_verify_one_byte:
  "msg_verify (pre @ a # post) = msg_verify (pre @ b # post) \<longleftrightarrow> a = b"
  by (simp add: msg_verify_alt not_word_inj ucast_byte_inj)

lemma CheckSum_one_byte: "CheckSum (pre @ a # post) = CheckSum (pre @ b # post) \<longleftrightarrow> a = b"
  by (simp add: CheckSum_alt)

text \<open>Neither sum depends on the order of the bytes.\<close>

lemma CheckSum_swap: "CheckSum (pre @ a # b # post) = CheckSum (pre @ b # a # post)"
  by (simp add: CheckSum_alt ac_simps)

end
