(* ===== verification/X50_Uart_Stream.thy ===== *)
theory X50_Uart_Stream
  imports X50_Prelude
begin

text \<open>
  The receive side the two serial ports share: the status codes of a frame parser
  (\<open>uart/ecb_uart_parse_msg.h\<close>), the loop \<open>uart_parse_msg\<close> that hands a buffer to a parser frame by
  frame (\<open>uart/ecb_uart_parse_msg.c\<close>), and the read callback around it (\<open>ecb_recv_cb\<close>,
  \<open>gesture_recv_cb\<close>).

  The parser is a function pointer in C. The locale \<open>frame_stream\<close> is the contract the loop needs of
  it; the two parsers are shown to meet it in their own theories. The loop may run forever with an
  arbitrary parser, so it is a \<open>partial_function\<close> whose value \<open>None\<close> is a fault or no return.
\<close>

datatype ecb_uart_read_status_t =
    ECB_UART_READ_VALID
  | ECB_UART_READ_NO_HEADER
  | ECB_UART_READ_LEN_SMALL
  | ECB_UART_READ_LEN_ERR
  | ECB_UART_READ_CHECK_ERR
  | ECB_UART_READ_TAILER_ERR

section \<open>The parse loop\<close>

text \<open>\<open>func(&in[index], msg_len, &end)\<close>: the first argument is the buffer from \<open>index\<close> to the end
  of the array, \<open>end\<close> is passed in because the parser may leave it unset, and \<open>'s\<close> is what the
  parser changes.\<close>

type_synonym 's frame_func =
  "bytes \<Rightarrow> nat \<Rightarrow> int \<Rightarrow> 's \<Rightarrow> (ecb_uart_read_status_t \<times> int \<times> 's) option"

partial_function (option) uart_parse_loop ::
  "'s frame_func \<Rightarrow> bytes \<Rightarrow> int \<Rightarrow> int \<Rightarrow> int \<Rightarrow> 's \<Rightarrow> (int \<times> int \<times> 's) option" where
  "uart_parse_loop func buf index msg_len end' s =
     (if index < 0 \<or> int (length buf) < index then None
      else do {
        r \<leftarrow> func (drop (nat index) buf) (nat msg_len) end' s;
        (case r of (status, end', s) \<Rightarrow>
           if status = ECB_UART_READ_LEN_SMALL then Some (index + end', msg_len - end', s)
           else if status = ECB_UART_READ_NO_HEADER then Some (index + end', 0, s)
           else if msg_len - end' \<le> 0 then Some (index + end', msg_len - end', s)
           else uart_parse_loop func buf (index + end') (msg_len - end') end' s)
      })"

definition uart_parse_msg ::
  "'s frame_func \<Rightarrow> bytes \<Rightarrow> nat \<Rightarrow> int \<Rightarrow> 's \<Rightarrow> (bytes \<times> nat \<times> 's) option" where
  "uart_parse_msg func buf in_len end' s = do {
     (index, msg_len, s) \<leftarrow> uart_parse_loop func buf 0 (int in_len) end' s;
     if msg_len \<le> 0 then Some (buf, 0, s)
     else do {
       rest \<leftarrow> rd_n buf (nat index) (nat msg_len);
       buf \<leftarrow> wr_n buf 0 rest;
       Some (buf, nat msg_len, s)
     }
   }"

text \<open>The body of both read callbacks: \<open>read\<close> puts what the port has into the free part of the
  buffer (nothing when the buffer is full), then the frames are parsed. \<open>avail\<close> is what the port
  can deliver; the bytes that did not fit come back.\<close>

definition uart_recv_cb ::
  "'s frame_func \<Rightarrow> int \<Rightarrow> bytes \<Rightarrow> bytes \<times> nat \<Rightarrow> 's \<Rightarrow> (bytes \<times> (bytes \<times> nat) \<times> 's) option" where
  "uart_recv_cb func end0 avail rx s = (case rx of (buf, index) \<Rightarrow>
     let got = take (length buf - index) avail; avail = drop (length got) avail in
     if length got > 0 then do {
       buf \<leftarrow> wr_n buf index got;
       (buf, index, s) \<leftarrow> uart_parse_msg func buf (index + length got) end0 s;
       Some (avail, (buf, index), s)
     }
     else Some (avail, rx, s))"

section \<open>The contract of a frame parser\<close>

text \<open>A parser that returns has either consumed at least one and at most all of the bytes, or found
  no header, or asks for more input; it reads the old \<open>end\<close> in no case.\<close>

locale frame_stream =
  fixes func :: "'s frame_func" and I :: "'s \<Rightarrow> bool"
  assumes keeps: "I s \<Longrightarrow> 0 < n \<Longrightarrow> n \<le> length buf \<Longrightarrow> func buf n e s = Some (st, e', s') \<Longrightarrow> I s'"
    and small: "I s \<Longrightarrow> 0 < n \<Longrightarrow> n \<le> length buf \<Longrightarrow>
      func buf n e s = Some (ECB_UART_READ_LEN_SMALL, e', s') \<Longrightarrow> 0 \<le> e' \<and> e' \<le> int n"
    and consumes: "I s \<Longrightarrow> 0 < n \<Longrightarrow> n \<le> length buf \<Longrightarrow> func buf n e s = Some (st, e', s') \<Longrightarrow>
      st \<noteq> ECB_UART_READ_LEN_SMALL \<Longrightarrow> st \<noteq> ECB_UART_READ_NO_HEADER \<Longrightarrow> 0 < e' \<and> e' \<le> int n"
    and end_free: "func buf n e s = Some (st, e', s') \<Longrightarrow>
      func buf n e2 s = Some (st, if st = ECB_UART_READ_NO_HEADER then e2 else e', s')"
begin

lemma end_free_None: "func buf n e s = None \<Longrightarrow> func buf n e2 s = None"
  using end_free [of buf n e2 s _ _ _ e] by (cases "func buf n e2 s") auto

text \<open>Where the loop stops, if it does not fault.\<close>

lemma loop_post:
  assumes "uart_parse_loop func buf (int i) (int n) e s = Some (ix, ml, s')"
    and "I s" and "0 < n" and "i + n \<le> length buf"
  shows "I s' \<and> 0 \<le> ml \<and> ml \<le> int n \<and> (0 < ml \<longrightarrow> ix + ml = int (i + n))"
  using assms
proof (induction n arbitrary: i e s rule: less_induct)
  case (less n)
  obtain st e' t where f: "func (drop i buf) n e s = Some (st, e', t)"
    using less.prems(1) by (subst (asm) uart_parse_loop.simps) (auto split: if_splits simp: option_bind_Some_iff)
  have len: "n \<le> length (drop i buf)" using less.prems(4) by simp
  note I = keeps [OF less.prems(2,3) len f]
  have run: "(if st = ECB_UART_READ_LEN_SMALL then Some (int i + e', int n - e', t)
     else if st = ECB_UART_READ_NO_HEADER then Some (int i + e', 0, t)
     else if int n - e' \<le> 0 then Some (int i + e', int n - e', t)
     else uart_parse_loop func buf (int i + e') (int n - e') e' t) = Some (ix, ml, s')"
    using less.prems(1,4) f by (subst (asm) uart_parse_loop.simps) simp
  show ?case
  proof (cases "st = ECB_UART_READ_LEN_SMALL \<or> st = ECB_UART_READ_NO_HEADER")
    case True
    then show ?thesis using run I small [OF less.prems(2,3) len] f by auto
  next
    case False
    then have e': "0 < e'" "e' \<le> int n" using consumes [OF less.prems(2,3) len f] by auto
    show ?thesis
    proof (cases "int n - e' \<le> 0")
      case True
      with False run e' I show ?thesis by auto
    next
      case more: False
      obtain k where k: "e' = int k" using e'(1) by (metis pos_int_cases)
      define m where "m = n - k"
      have m: "int n - e' = int m" "int i + e' = int (i + k)" "m < n" "0 < m"
        "(i + k) + m = i + n" using more e' by (auto simp: m_def k)
      from run False more have "uart_parse_loop func buf (int i + e') (int n - e') e' t = Some (ix, ml, s')"
        by simp
      then have "uart_parse_loop func buf (int (i + k)) (int m) e' t = Some (ix, ml, s')"
        unfolding m(1,2) .
      from less.IH [OF m(3) this I m(4)] m less.prems(4) show ?thesis by auto
    qed
  qed
qed

lemma loop_end_free:
  assumes "I s" and "0 < n" and "i + n \<le> length buf"
  shows "map_option snd (uart_parse_loop func buf (int i) (int n) e s) =
    map_option snd (uart_parse_loop func buf (int i) (int n) e2 s)"
proof (cases "func (drop i buf) n e s")
  case None
  with end_free_None have "func (drop i buf) n e2 s = None" by blast
  with None show ?thesis by (simp add: uart_parse_loop.simps)
next
  case (Some r)
  obtain st e' t where r: "r = (st, e', t)" by (cases r)
  have f: "func (drop i buf) n e s = Some (st, e', t)" using Some r by simp
  note f2 = end_free [OF f, of e2]
  show ?thesis
    using assms(3) by (subst (1 2) uart_parse_loop.simps) (simp add: f f2)
qed

lemma parse_post:
  assumes "uart_parse_msg func buf n e s = Some (buf', n', s')" and "I s" and "0 < n" and "n \<le> length buf"
  shows "I s'" and "length buf' = length buf" and "n' \<le> n"
    and "\<exists>k \<le> n. take n' buf' = drop k (take n buf) \<or> n' = 0"
proof -
  obtain ix ml t where l: "uart_parse_loop func buf 0 (int n) e s = Some (ix, ml, t)"
    using assms(1) by (auto simp: uart_parse_msg_def option_bind_Some_iff)
  have p: "I t" "0 \<le> ml" "ml \<le> int n" "0 < ml \<longrightarrow> ix + ml = int n"
    using loop_post [of buf 0 n e s ix ml t] l assms(2-4) by auto
  consider "ml = 0" "buf' = buf" "n' = 0" "s' = t"
    | r where "0 < ml" "rd_n buf (nat ix) (nat ml) = Some r" "wr_n buf 0 r = Some buf'" "n' = nat ml" "s' = t"
    using assms(1) l p(2) by (auto simp: uart_parse_msg_def option_bind_Some_iff split: if_splits)
  then have "I s' \<and> length buf' = length buf \<and> n' \<le> n \<and> (\<exists>k \<le> n. take n' buf' = drop k (take n buf) \<or> n' = 0)"
  proof cases
    case (2 r)
    then have ix: "nat ix + nat ml = n" using p by linarith
    have r: "r = drop (nat ix) (take n buf)" "length r = nat ml"
      using 2 ix by (auto simp: rd_n_eq_Some_iff drop_take)
    have "take n' buf' = r" using 2(3,4) r(2) by (auto simp: wr_n_def split: if_splits)
    then show ?thesis using 2 p r ix wr_n_length [OF 2(3)] by (auto intro: exI [of _ "nat ix"])
  qed (use p in auto)
  then show "I s'" "length buf' = length buf" "n' \<le> n"
    "\<exists>k \<le> n. take n' buf' = drop k (take n buf) \<or> n' = 0" by auto
qed

end

text \<open>A parser that never faults on the bytes it is given: then the loop ends.\<close>

locale total_frame_stream = frame_stream +
  assumes defined: "I s \<Longrightarrow> 0 < n \<Longrightarrow> n \<le> length buf \<Longrightarrow> func buf n e s \<noteq> None"
begin

lemma loop_total:
  assumes "I s" and "0 < n" and "i + n \<le> length buf"
  shows "\<exists>r. uart_parse_loop func buf (int i) (int n) e s = Some r"
  using assms
proof (induction n arbitrary: i e s rule: less_induct)
  case (less n)
  have len: "n \<le> length (drop i buf)" using less.prems(3) by simp
  obtain st e' t where f: "func (drop i buf) n e s = Some (st, e', t)"
    using defined [OF less.prems(1,2) len] by fastforce
  note I = keeps [OF less.prems(1,2) len f]
  show ?case
  proof (cases "st = ECB_UART_READ_LEN_SMALL \<or> st = ECB_UART_READ_NO_HEADER \<or> int n - e' \<le> 0")
    case True
    then show ?thesis using f less.prems(3) by (subst uart_parse_loop.simps) auto
  next
    case False
    then have e': "0 < e'" "e' \<le> int n" using consumes [OF less.prems(1,2) len f] by auto
    obtain k where k: "e' = int k" using e'(1) by (metis pos_int_cases)
    define m where "m = n - k"
    have m: "int n - e' = int m" "int i + e' = int (i + k)" "m < n" "0 < m"
      "(i + k) + m \<le> length buf" using False e' less.prems(3) by (auto simp: m_def k)
    obtain r where "uart_parse_loop func buf (int (i + k)) (int m) e' t = Some r"
      using less.IH [OF m(3) I m(4,5)] by blast
    then have "uart_parse_loop func buf (int i + e') (int n - e') e' t = Some r"
      unfolding m(1,2) .
    with False f less.prems(3) show ?thesis
      by (subst uart_parse_loop.simps, cases r) auto
  qed
qed

lemma parse_total:
  assumes "I s" and "0 < n" and "n \<le> length buf"
  shows "\<exists>buf' n' s'. uart_parse_msg func buf n e s = Some (buf', n', s')"
proof -
  obtain ix ml t where l: "uart_parse_loop func buf 0 (int n) e s = Some (ix, ml, t)"
    using loop_total [of s n 0 buf e] assms by auto
  have p: "0 \<le> ml" "ml \<le> int n" "0 < ml \<longrightarrow> ix + ml = int n"
    using loop_post [of buf 0 n e s ix ml t] l assms by auto
  then have "0 < ml \<Longrightarrow> nat ix + nat ml \<le> length buf" using assms(3) by linarith
  with l p show ?thesis
    by (auto simp: uart_parse_msg_def rd_n_def wr_n_def)
qed

lemma recv_total:
  assumes "I s" and "i \<le> length buf"
  shows "\<exists>rest buf' i' s'. uart_recv_cb func e avail (buf, i) s = Some (rest, (buf', i'), s') \<and>
    length buf' = length buf \<and> i' \<le> length buf \<and> I s'"
proof (cases "take (length buf - i) avail = []")
  case True
  then show ?thesis using assms by (auto simp: uart_recv_cb_def Let_def)
next
  case False
  define got where "got = take (length buf - i) avail"
  have g: "0 < length got" "i + length got \<le> length buf" using False assms(2) by (auto simp: got_def)
  define b where "b = take i buf @ got @ drop (i + length got) buf"
  have w: "wr_n buf i got = Some b" and lb: "length b = length buf"
    using g by (simp_all add: b_def wr_n_def)
  obtain buf' n' s' where p: "uart_parse_msg func b (i + length got) e s = Some (buf', n', s')"
    using parse_total [of s "i + length got" b e] assms(1) g lb by auto
  have "I s'" "length buf' = length b" "n' \<le> i + length got"
    using parse_post [OF p assms(1)] g lb by auto
  with p w g lb assms(1) show ?thesis
    by (auto simp: uart_recv_cb_def Let_def simp flip: got_def)
qed

end

section \<open>Parsers that scan and react\<close>

text \<open>Both parsers first find a frame in the buffer, which depends on the buffer alone, and then act on
  what they have found. \<open>frame_scanner\<close> is the contract of the first half; any reaction that keeps an
  invariant on the events \<open>ok\<close> gives a parser for the loop.\<close>

definition parse_with ::
  "(bytes \<Rightarrow> nat \<Rightarrow> int \<Rightarrow> (ecb_uart_read_status_t \<times> int \<times> 'ev) option) \<Rightarrow> ('ev \<Rightarrow> 's \<Rightarrow> 's option) \<Rightarrow> 's frame_func" where
  "parse_with scan react buf n e s = do { (st, e', ev) \<leftarrow> scan buf n e; s \<leftarrow> react ev s; Some (st, e', s) }"

lemma parse_with_Some:
  "parse_with scan react buf n e s = Some (st, e', s') \<longleftrightarrow>
    (\<exists>ev. scan buf n e = Some (st, e', ev) \<and> react ev s = Some s')"
  by (auto simp: parse_with_def option_bind_Some_iff)

locale frame_scanner =
  fixes scan :: "bytes \<Rightarrow> nat \<Rightarrow> int \<Rightarrow> (ecb_uart_read_status_t \<times> int \<times> 'ev) option" and ok :: "'ev \<Rightarrow> bool"
  assumes scan_post: "scan buf n e = Some (st, e', ev) \<Longrightarrow>
      st = ECB_UART_READ_NO_HEADER \<and> e' = e \<or>
      st = ECB_UART_READ_LEN_SMALL \<and> 0 \<le> e' \<and> e' \<le> int n \<or>
      st \<noteq> ECB_UART_READ_NO_HEADER \<and> st \<noteq> ECB_UART_READ_LEN_SMALL \<and> 0 < e' \<and> e' \<le> int n"
    and scan_end_free: "scan buf n e = Some (st, e', ev) \<Longrightarrow>
      scan buf n e2 = Some (st, if st = ECB_UART_READ_NO_HEADER then e2 else e', ev)"
    and scan_total: "n \<le> length buf \<Longrightarrow> scan buf n e \<noteq> None"
    and scan_ok: "n \<le> length buf \<Longrightarrow> scan buf n e = Some (st, e', ev) \<Longrightarrow> ok ev"
begin

lemma reacting:
  assumes react: "\<And>ev s. ok ev \<Longrightarrow> I s \<Longrightarrow> \<exists>s'. react ev s = Some s' \<and> I s'"
  shows "total_frame_stream (parse_with scan react) I"
proof unfold_locales
  fix buf n e s st e' s'
  assume I: "I s" and n: "0 < n" "n \<le> length buf" and f: "parse_with scan react buf n e s = Some (st, e', s')"
  obtain ev where ev: "scan buf n e = Some (st, e', ev)" "react ev s = Some s'" using f by (auto simp: parse_with_Some)
  show "I s'" using react [OF scan_ok [OF n(2) ev(1)] I] ev(2) by auto
  show "0 < e' \<and> e' \<le> int n" if "st \<noteq> ECB_UART_READ_LEN_SMALL" "st \<noteq> ECB_UART_READ_NO_HEADER"
    using scan_post [OF ev(1)] that by auto
next
  fix buf n e s e' s'
  assume "parse_with scan react buf n e s = Some (ECB_UART_READ_LEN_SMALL, e', s')"
  then obtain ev where "scan buf n e = Some (ECB_UART_READ_LEN_SMALL, e', ev)" by (auto simp: parse_with_Some)
  from scan_post [OF this] show "0 \<le> e' \<and> e' \<le> int n" by auto
next
  fix buf n e s st e' s' e2
  assume "parse_with scan react buf n e s = Some (st, e', s')"
  then obtain ev where ev: "scan buf n e = Some (st, e', ev)" "react ev s = Some s'" by (auto simp: parse_with_Some)
  show "parse_with scan react buf n e2 s = Some (st, if st = ECB_UART_READ_NO_HEADER then e2 else e', s')"
    unfolding parse_with_Some using scan_end_free [OF ev(1)] ev(2) by blast
next
  fix buf :: bytes and n e s
  assume "I s" and n: "n \<le> length buf"
  obtain st e' ev where ev: "scan buf n e = Some (st, e', ev)" using scan_total [OF n, of e] by (cases "scan buf n e") auto
  with react [OF scan_ok [OF n ev] \<open>I s\<close>] show "parse_with scan react buf n e s \<noteq> None"
    by (auto simp: parse_with_def)
qed

lemma loop_with_step:
  assumes "scan (drop i buf) n e = Some (st, e', ev)" and "i \<le> length buf"
  shows "uart_parse_loop (parse_with scan r) buf (int i) (int n) e s = (case r ev s of None \<Rightarrow> None | Some s \<Rightarrow>
    if st = ECB_UART_READ_LEN_SMALL \<or> st = ECB_UART_READ_NO_HEADER \<or> int n - e' \<le> 0
    then Some (int i + e', if st = ECB_UART_READ_NO_HEADER then 0 else int n - e', s)
    else uart_parse_loop (parse_with scan r) buf (int i + e') (int n - e') e' s)"
  using assms by (subst uart_parse_loop.simps) (auto simp: parse_with_def split: option.split)

lemma recv_of_loop:
  assumes "\<And>s. uart_parse_loop f (take i buf @ got @ drop (i + length got) buf) 0 (int (i + length got)) e s =
      do { s \<leftarrow> F s; Some (ix, ml, s) }"
    and "got = take (length buf - i) avail" and "got \<noteq> []" and "b = take i buf @ got @ drop (i + length got) buf"
  shows "uart_recv_cb f e avail (buf, i) s = do { s \<leftarrow> F s;
    (rest, rx) \<leftarrow> (if ml \<le> 0 then Some (drop (length got) avail, (b, 0))
      else do { r \<leftarrow> rd_n b (nat ix) (nat ml); b' \<leftarrow> wr_n b 0 r; Some (drop (length got) avail, (b', nat ml)) });
    Some (rest, rx, s) }"
proof -
  have "i + length got \<le> length buf" using assms(2,3) by auto
  then have w: "wr_n buf i got = Some b" by (simp add: wr_n_def assms(4))
  have "uart_parse_msg f b (i + length got) e s = do { s \<leftarrow> F s;
      if ml \<le> 0 then Some (b, 0, s) else do { r \<leftarrow> rd_n b (nat ix) (nat ml); b' \<leftarrow> wr_n b 0 r; Some (b', nat ml, s) } }"
    using assms(1) by (cases "F s") (simp_all add: uart_parse_msg_def assms(4))
  moreover have "0 < length got" using assms(3) by simp
  ultimately show ?thesis
    unfolding uart_recv_cb_def Let_def prod.case assms(2) [symmetric] by (cases "F s") (simp_all add: w)
qed

text \<open>What a stream contains does not depend on the reaction: the loop is the list of events followed by
  the reactions to them. (Two reactions are named because their states have different types.)\<close>

lemma loop_events:
  fixes s1 :: "'s" and s2 :: "'t"
  assumes "0 < n" and "i + n \<le> length buf"
  shows "\<exists>ix ml evs.
    (\<forall>s. uart_parse_loop (parse_with scan r1) buf (int i) (int n) e s = do { s :: 's \<leftarrow> foldM r1 evs s; Some (ix, ml, s) }) \<and>
    (\<forall>s. uart_parse_loop (parse_with scan r2) buf (int i) (int n) e s = do { s :: 't \<leftarrow> foldM r2 evs s; Some (ix, ml, s) })"
  using assms
proof (induction n arbitrary: i e rule: less_induct)
  case (less n)
  have i: "i \<le> length buf" "n \<le> length (drop i buf)" using less.prems by simp_all
  obtain st e' ev where f: "scan (drop i buf) n e = Some (st, e', ev)"
    using scan_total [OF i(2), of e] by (cases "scan (drop i buf) n e") auto
  show ?case
  proof (cases "st = ECB_UART_READ_LEN_SMALL \<or> st = ECB_UART_READ_NO_HEADER \<or> int n - e' \<le> 0")
    case True
    define ml where "ml = (if st = ECB_UART_READ_NO_HEADER then 0 else int n - e')"
    show ?thesis
      by (rule exI [of _ "int i + e'"], rule exI [of _ ml], rule exI [of _ "[ev]"])
        (use True in \<open>auto simp: loop_with_step [OF f i(1)] ml_def split: option.split\<close>)
  next
    case False
    then have e': "0 < e'" "e' < int n" using scan_post [OF f] by auto
    obtain k where k: "e' = int k" using e'(1) by (metis pos_int_cases)
    have m: "int n - e' = int (n - k)" "int i + e' = int (i + k)" "n - k < n" "0 < n - k" "(i + k) + (n - k) \<le> length buf"
      using e' less.prems(2) by (auto simp: k)
    obtain ix ml evs where IH:
      "\<And>s. uart_parse_loop (parse_with scan r1) buf (int (i + k)) (int (n - k)) e' s = do { s \<leftarrow> foldM r1 evs s; Some (ix, ml, s) }"
      "\<And>s. uart_parse_loop (parse_with scan r2) buf (int (i + k)) (int (n - k)) e' s = do { s \<leftarrow> foldM r2 evs s; Some (ix, ml, s) }"
      using less.IH [OF m(3-5), of e'] by blast
    show ?thesis
      by (rule exI [of _ ix], rule exI [of _ ml], rule exI [of _ "ev # evs"])
        (use False in \<open>simp add: loop_with_step [OF f i(1)] m(1,2) IH del: of_nat_add of_nat_diff split: option.split\<close>)
  qed
qed

lemma recv_events:
  fixes s1 :: "'s" and s2 :: "'t"
  assumes "i \<le> length buf"
  shows "\<exists>out evs.
    (\<forall>s. uart_recv_cb (parse_with scan r1) e avail (buf, i) s = do { s :: 's \<leftarrow> foldM r1 evs s; (rest, rx) \<leftarrow> out; Some (rest, rx, s) }) \<and>
    (\<forall>s. uart_recv_cb (parse_with scan r2) e avail (buf, i) s = do { s :: 't \<leftarrow> foldM r2 evs s; (rest, rx) \<leftarrow> out; Some (rest, rx, s) })"
proof (cases "take (length buf - i) avail = []")
  case True
  then show ?thesis
    by (intro exI [of _ "Some (avail, (buf, i))"] exI [of _ "[]"]) (auto simp: uart_recv_cb_def Let_def)
next
  case False
  define got where "got = take (length buf - i) avail"
  have g: "0 < length got" "i + length got \<le> length buf" using False assms by (auto simp: got_def)
  define b where "b = take i buf @ got @ drop (i + length got) buf"
  have w: "wr_n buf i got = Some b" and lb: "length b = length buf" using g by (simp_all add: b_def wr_n_def)
  let ?n = "i + length got"
  obtain ix ml evs where l:
    "\<And>s. uart_parse_loop (parse_with scan r1) b 0 (int ?n) e s = do { s \<leftarrow> foldM r1 evs s; Some (ix, ml, s) }"
    "\<And>s. uart_parse_loop (parse_with scan r2) b 0 (int ?n) e s = do { s \<leftarrow> foldM r2 evs s; Some (ix, ml, s) }"
    using loop_events [of ?n 0 b r1 e r2] g lb by auto
  define out where "out = (if ml \<le> 0 then Some (drop (length got) avail, (b, 0))
    else do { r \<leftarrow> rd_n b (nat ix) (nat ml); b' \<leftarrow> wr_n b 0 r; Some (drop (length got) avail, (b', nat ml)) })"
  note recv = recv_of_loop [OF _ got_def _ b_def]
  show ?thesis
    by (rule exI [of _ out], rule exI [of _ evs])
      (use recv [OF l(1) [unfolded b_def]] recv [OF l(2) [unfolded b_def]] False in \<open>simp add: out_def flip: got_def\<close>)
qed

end

text \<open>What the loop does on a prefix the parser accepts, used to follow a stream frame by frame.\<close>

lemma uart_parse_loop_step:
  assumes "func (drop i buf) n e s = Some (st, int k, s')"
    and "st \<noteq> ECB_UART_READ_LEN_SMALL" "st \<noteq> ECB_UART_READ_NO_HEADER"
    and "i \<le> length buf" "k < n"
  shows "uart_parse_loop func buf (int i) (int n) e s =
    uart_parse_loop func buf (int (i + k)) (int (n - k)) (int k) s'"
  using assms by (subst uart_parse_loop.simps) (simp add: of_nat_diff)

lemma uart_parse_loop_last:
  assumes "func (drop i buf) n e s = Some (st, int n, s')"
    and "st \<noteq> ECB_UART_READ_LEN_SMALL" "st \<noteq> ECB_UART_READ_NO_HEADER" and "i \<le> length buf"
  shows "uart_parse_loop func buf (int i) (int n) e s = Some (int (i + n), 0, s')"
  using assms by (subst uart_parse_loop.simps) simp

lemma uart_parse_loop_small:
  assumes "func (drop i buf) n e s = Some (ECB_UART_READ_LEN_SMALL, int k, s')"
    and "i \<le> length buf" "k \<le> n"
  shows "uart_parse_loop func buf (int i) (int n) e s = Some (int (i + k), int (n - k), s')"
  using assms by (subst uart_parse_loop.simps) (simp add: of_nat_diff)

lemma uart_parse_loop_no_header:
  assumes "func (drop i buf) n e s = Some (ECB_UART_READ_NO_HEADER, e', s')" and "i \<le> length buf"
  shows "uart_parse_loop func buf (int i) (int n) e s = Some (int i + e', 0, s')"
  using assms by (subst uart_parse_loop.simps) simp

end
