(* ===== verification/X50_Ecb_Codec.thy ===== *)
theory X50_Ecb_Codec
  imports X50_Crc X50_Uart_Stream
begin

text \<open>
  Frames of the power-board link: the command and status codes of \<open>uart/ecb_uart_parse_msg.h\<close>, the
  frame \<open>ecb_uart_send_msg\<close> builds (\<open>uart/ecb_uart.c\<close>) and the part of \<open>ecb_uart_parse_msg\<close> that
  finds and checks a frame (\<open>uart/ecb_uart_parse_msg.c\<close>, up to the dispatch on the command, which
  is in \<open>X50_Ecb_Parse\<close>).

  A frame is \<open>e6 e6, sequence (2), command, length (2), payload, CRC (2), 6e 6e\<close>.
\<close>

section \<open>Codes\<close>

definition ECB_MSG_MIN_LEN :: nat where "ECB_MSG_MIN_LEN = 11"

definition ECB_UART_COMMAND_GET :: byte where "ECB_UART_COMMAND_GET = 0x01"
definition ECB_UART_COMMAND_SET :: byte where "ECB_UART_COMMAND_SET = 0x02"
definition ECB_UART_COMMAND_EVENT :: byte where "ECB_UART_COMMAND_EVENT = 0x03"
definition ECB_UART_COMMAND_KEYPRESS :: byte where "ECB_UART_COMMAND_KEYPRESS = 0x04"
definition ECB_UART_COMMAND_STORE :: byte where "ECB_UART_COMMAND_STORE = 0x05"
definition ECB_UART_COMMAND_HEART :: byte where "ECB_UART_COMMAND_HEART = 0x0c"
definition ECB_UART_COMMAND_GETACK :: byte where "ECB_UART_COMMAND_GETACK = 0x0d"
definition ECB_UART_COMMAND_ACK :: byte where "ECB_UART_COMMAND_ACK = 0x0e"
definition ECB_UART_COMMAND_NAK :: byte where "ECB_UART_COMMAND_NAK = 0x0f"

definition ECB_NAK_TAILER :: byte where "ECB_NAK_TAILER = 0x02"
definition ECB_NAK_COMMAND_UNKNOWN :: byte where "ECB_NAK_COMMAND_UNKNOWN = 0x04"

lemmas ecb_commands =
  ECB_UART_COMMAND_GET_def ECB_UART_COMMAND_SET_def ECB_UART_COMMAND_EVENT_def
  ECB_UART_COMMAND_KEYPRESS_def ECB_UART_COMMAND_STORE_def ECB_UART_COMMAND_HEART_def
  ECB_UART_COMMAND_GETACK_def ECB_UART_COMMAND_ACK_def ECB_UART_COMMAND_NAK_def

section \<open>Building a frame\<close>

text \<open>The bytes the stores into \<open>send_msg\<close> leave there; \<open>body\<close> is what the CRC covers.\<close>

definition ecb_body :: "16 word \<Rightarrow> byte \<Rightarrow> bytes \<Rightarrow> bytes" where
  "ecb_body seq_id command msg =
     [byte_of_nat (unat seq_id div 256), byte_of_nat (unat seq_id), command,
      byte_of_nat (length msg div 256), byte_of_nat (length msg)] @ msg"

definition ecb_frame :: "16 word \<Rightarrow> byte \<Rightarrow> bytes \<Rightarrow> bytes" where
  "ecb_frame seq_id command msg =
     (let body = ecb_body seq_id command msg; crc16 = CRC16_MAXIM body in
      [0xe6, 0xe6] @ body @
      [byte_of_nat (unat crc16 div 256), byte_of_nat (unat crc16), 0x6e, 0x6e])"

lemma length_ecb_body [simp]: "length (ecb_body s c m) = 5 + length m"
  by (simp add: ecb_body_def)

lemma length_ecb_frame [simp]: "length (ecb_frame s c m) = 11 + length m"
  by (simp add: ecb_frame_def Let_def)

section \<open>Finding and checking a frame\<close>

text \<open>What a scan hands to the dispatch: nothing, a frame without its tail (its sequence number is
  answered), or a frame, whose \<open>payload\<close> is the buffer from the payload on (the C code keeps a
  pointer) with \<open>data_len\<close>. The comparison of the CRC only logs, so its result is part of the
  event and of no status.\<close>

datatype ecb_event =
    Ecb_None
  | Ecb_Bad_Tail "16 word"
  | Ecb_Msg (msg_seq: "16 word") (msg_command: byte) (msg_payload: bytes) (msg_data_len: nat) (msg_crc_ok: bool)

definition ecb_header_at :: "bytes \<Rightarrow> nat \<Rightarrow> bool option" where
  "ecb_header_at buf i = do {
     a \<leftarrow> rd buf i;
     if a \<noteq> 0xe6 then Some False
     else do { b \<leftarrow> rd buf (i + 1); Some (b = 0xe6) }
   }"

text \<open>From the header at \<open>index\<close> on.\<close>

definition ecb_check ::
  "bytes \<Rightarrow> nat \<Rightarrow> nat \<Rightarrow> (ecb_uart_read_status_t \<times> int \<times> ecb_event) option" where
  "ecb_check buf in_len index =
     (if in_len - index < ECB_MSG_MIN_LEN then
        Some (ECB_UART_READ_LEN_SMALL, int index, Ecb_None)
      else do {
        s1 \<leftarrow> rd buf (index + 2);
        s0 \<leftarrow> rd buf (index + 3);
        command \<leftarrow> rd buf (index + 4);
        l1 \<leftarrow> rd buf (index + 5);
        l0 \<leftarrow> rd buf (index + 6);
        let seq_id = word_of_nat (be16 s1 s0);
        let data_len = be16 l1 l0;
        if data_len > 512 then Some (ECB_UART_READ_LEN_ERR, int (index + 1), Ecb_None)
        else do {
          let msg_index = 7 + data_len;
          if index + msg_index + 2 + 2 > in_len then do {
            a \<leftarrow> rd buf (in_len - 1);
            b \<leftarrow> rd buf (in_len - 2);
            if a = 0x6e \<and> b = 0x6e then Some (ECB_UART_READ_LEN_ERR, int (index + 1), Ecb_None)
            else Some (ECB_UART_READ_LEN_SMALL, int index, Ecb_None)
          }
          else do {
            t1 \<leftarrow> rd buf (index + msg_index + 2);
            t0 \<leftarrow> rd buf (index + msg_index + 2 + 1);
            if t1 \<noteq> 0x6e \<or> t0 \<noteq> 0x6e then
              Some (ECB_UART_READ_TAILER_ERR, int (index + msg_index + 2 + 2), Ecb_Bad_Tail seq_id)
            else do {
              body \<leftarrow> rd_n buf (index + 2) (msg_index - 2);
              c1 \<leftarrow> rd buf (index + msg_index);
              c0 \<leftarrow> rd buf (index + msg_index + 1);
              Some (ECB_UART_READ_VALID, int (index + msg_index + 2 + 2),
                Ecb_Msg seq_id command (drop (index + 7) buf) data_len
                  (CRC16_MAXIM body = word_of_nat (be16 c1 c0)))
            }
          }
        }
      })"

definition ecb_scan ::
  "bytes \<Rightarrow> nat \<Rightarrow> int \<Rightarrow> (ecb_uart_read_status_t \<times> int \<times> ecb_event) option" where
  "ecb_scan buf in_len end' =
     (if in_len < 2 then Some (ECB_UART_READ_LEN_SMALL, 0, Ecb_None)
      else do {
        index \<leftarrow> find_idx (ecb_header_at buf) 0 (in_len - 1);
        if index \<ge> in_len - 1 then Some (ECB_UART_READ_NO_HEADER, end', Ecb_None)
        else ecb_check buf in_len index
      })"

text \<open>The parser as the receive loop sees it when the events are only collected.\<close>

definition ecb_collect :: "ecb_event list frame_func" where
  "ecb_collect buf n e evs = do { (st, e, ev) \<leftarrow> ecb_scan buf n e; Some (st, e, evs @ [ev]) }"

section \<open>The scan meets the contract of the receive loop\<close>

lemma ecb_header_at_in:
  "i + 1 < length buf \<Longrightarrow> ecb_header_at buf i = Some (buf ! i = 0xe6 \<and> buf ! (i + 1) = 0xe6)"
  by (simp add: ecb_header_at_def mem_simps)

lemma ecb_header_search:
  assumes "n \<le> length buf" "2 \<le> n"
  shows "\<exists>k. find_idx (ecb_header_at buf) 0 (n - 1) = Some k \<and> k \<le> n - 1"
proof -
  have "ecb_header_at buf j \<noteq> None" if "j < n - 1" for j
    using that assms by (simp add: ecb_header_at_in)
  then show ?thesis
    using find_idx_ex [of 0 "n - 1" "ecb_header_at buf"] by auto
qed

lemma ecb_check_total:
  assumes "n \<le> length buf" and "k < n"
  shows "ecb_check buf n k \<noteq> None"
proof -
  have "i < n \<Longrightarrow> rd buf i = Some (buf ! i)" for i using assms(1) by (simp add: mem_simps)
  moreover have "i + l \<le> n \<Longrightarrow> rd_n buf i l = Some (take l (drop i buf))" for i l
    using assms(1) by (simp add: mem_simps)
  ultimately show ?thesis
    by (simp add: ecb_check_def ECB_MSG_MIN_LEN_def Let_def)
qed

lemma ecb_check_post:
  assumes "ecb_check buf n k = Some (st, e', ev)" and "k < n"
  shows "st \<noteq> ECB_UART_READ_NO_HEADER \<and> 0 \<le> e' \<and> e' \<le> int n \<and>
    (st \<noteq> ECB_UART_READ_LEN_SMALL \<longrightarrow> 0 < e')"
  using assms
  by (auto simp: ecb_check_def ECB_MSG_MIN_LEN_def Let_def option_bind_Some_iff split: if_splits)

lemma ecb_scan_total:
  assumes "n \<le> length buf"
  shows "ecb_scan buf n e \<noteq> None"
proof (cases "n < 2")
  case False
  then obtain k where k: "find_idx (ecb_header_at buf) 0 (n - 1) = Some k" "k \<le> n - 1"
    using ecb_header_search [OF assms] by auto
  show ?thesis
  proof (cases "k \<ge> n - 1")
    case True
    with False k show ?thesis by (simp add: ecb_scan_def)
  next
    case less: False
    with assms have "ecb_check buf n k \<noteq> None" by (intro ecb_check_total) auto
    with False k less show ?thesis by (simp add: ecb_scan_def)
  qed
qed (simp add: ecb_scan_def)

lemma ecb_scan_cases:
  assumes "ecb_scan buf n e = Some (st, e', ev)"
  obtains "n < 2" "st = ECB_UART_READ_LEN_SMALL" "e' = 0" "ev = Ecb_None"
    | k where "2 \<le> n" "find_idx (ecb_header_at buf) 0 (n - 1) = Some k" "n - 1 \<le> k"
      "st = ECB_UART_READ_NO_HEADER" "e' = e" "ev = Ecb_None"
    | k where "2 \<le> n" "find_idx (ecb_header_at buf) 0 (n - 1) = Some k" "k < n - 1"
      "ecb_check buf n k = Some (st, e', ev)"
  using assms
  by (auto simp: ecb_scan_def option_bind_Some_iff not_le not_less split: if_splits)
    (metis not_le)

lemma ecb_scan_post:
  assumes "ecb_scan buf n e = Some (st, e', ev)"
  shows "st = ECB_UART_READ_NO_HEADER \<and> e' = e \<or>
    st = ECB_UART_READ_LEN_SMALL \<and> 0 \<le> e' \<and> e' \<le> int n \<or>
    st \<noteq> ECB_UART_READ_NO_HEADER \<and> st \<noteq> ECB_UART_READ_LEN_SMALL \<and> 0 < e' \<and> e' \<le> int n"
  using assms
proof (cases rule: ecb_scan_cases)
  case (3 k)
  with ecb_check_post [of buf n k st e' ev] show ?thesis by auto
qed auto

lemma ecb_scan_end_free:
  assumes "ecb_scan buf n e = Some (st, e', ev)"
  shows "ecb_scan buf n e2 = Some (st, if st = ECB_UART_READ_NO_HEADER then e2 else e', ev)"
  using assms
proof (cases rule: ecb_scan_cases)
  case (3 k)
  with ecb_check_post [of buf n k st e' ev] show ?thesis by (simp add: ecb_scan_def)
qed (simp_all add: ecb_scan_def)

text \<open>The payload of a frame that is handed on is followed by its CRC and its end.\<close>

definition ecb_event_ok :: "ecb_event \<Rightarrow> bool" where
  "ecb_event_ok ev \<longleftrightarrow> (case ev of Ecb_Msg s c payload d ok \<Rightarrow> d + 4 \<le> length payload | _ \<Rightarrow> True)"

lemma ecb_check_ok:
  "n \<le> length buf \<Longrightarrow> ecb_check buf n k = Some (st, e', ev) \<Longrightarrow> ecb_event_ok ev"
  by (auto simp: ecb_check_def ecb_event_ok_def option_bind_Some_iff Let_def split: if_splits)

interpretation ecb_scanner: frame_scanner ecb_scan ecb_event_ok
proof
  fix buf n e st e' ev
  assume s: "ecb_scan buf n e = Some (st, e', ev)"
  show "st = ECB_UART_READ_NO_HEADER \<and> e' = e \<or> st = ECB_UART_READ_LEN_SMALL \<and> 0 \<le> e' \<and> e' \<le> int n \<or>
      st \<noteq> ECB_UART_READ_NO_HEADER \<and> st \<noteq> ECB_UART_READ_LEN_SMALL \<and> 0 < e' \<and> e' \<le> int n"
    by (rule ecb_scan_post [OF s])
  show "ecb_scan buf n e2 = Some (st, if st = ECB_UART_READ_NO_HEADER then e2 else e', ev)" for e2
    by (rule ecb_scan_end_free [OF s])
  show "ecb_event_ok ev" if "n \<le> length buf"
    using s by (cases rule: ecb_scan_cases) (use ecb_check_ok [OF that] in \<open>auto simp: ecb_event_ok_def\<close>)
qed (rule ecb_scan_total)

lemma ecb_collect_parse: "ecb_collect = parse_with ecb_scan (\<lambda>ev evs. Some (evs @ [ev]))"
  by (simp add: fun_eq_iff ecb_collect_def parse_with_def)

interpretation ecb_rx: total_frame_stream ecb_collect "\<lambda>_. True"
  unfolding ecb_collect_parse by (rule ecb_scanner.reacting) simp

section \<open>A frame that was built is found and read back\<close>

text \<open>Bytes in front of a frame that contain no header, also not one that ends with the first byte
  of the frame.\<close>

definition no_header :: "bytes \<Rightarrow> bool" where
  "no_header g = (\<forall>i < length g. \<not> ((g @ [0xe6]) ! i = 0xe6 \<and> (g @ [0xe6]) ! Suc i = 0xe6))"

lemma no_header_Nil [simp]: "no_header []"
  by (simp add: no_header_def)

lemma ecb_frame_nth:
  "ecb_frame s c m @ rest =
    [0xe6, 0xe6, byte_of_nat (unat s div 256), byte_of_nat (unat s), c,
     byte_of_nat (length m div 256), byte_of_nat (length m)] @ m @
    [byte_of_nat (unat (CRC16_MAXIM (ecb_body s c m)) div 256),
     byte_of_nat (unat (CRC16_MAXIM (ecb_body s c m))), 0x6e, 0x6e] @ rest"
  by (simp add: ecb_frame_def ecb_body_def Let_def)

lemma rd_frame_head:
  assumes "F = ecb_frame s c m @ rest"
  shows "rd F 0 = Some 0xe6" "rd F 1 = Some 0xe6"
    "rd F 2 = Some (byte_of_nat (unat s div 256))" "rd F 3 = Some (byte_of_nat (unat s))"
    "rd F 4 = Some c"
    "rd F 5 = Some (byte_of_nat (length m div 256))" "rd F 6 = Some (byte_of_nat (length m))"
  unfolding assms ecb_frame_nth by (simp_all add: rd_def)

lemma rd_frame_tail:
  assumes "F = ecb_frame s c m @ rest"
  shows "rd F (7 + length m) = Some (byte_of_nat (unat (CRC16_MAXIM (ecb_body s c m)) div 256))"
    "rd F (7 + length m + 1) = Some (byte_of_nat (unat (CRC16_MAXIM (ecb_body s c m))))"
    "rd F (7 + length m + 2) = Some 0x6e" "rd F (7 + length m + 2 + 1) = Some 0x6e"
  unfolding assms ecb_frame_nth by (simp_all add: rd_def nth_append)

lemma rd_frame_body:
  assumes "F = ecb_frame s c m @ rest"
  shows "rd_n F 2 (7 + length m - 2) = Some (ecb_body s c m)"
  unfolding assms by (simp add: rd_n_def ecb_frame_def Let_def)

lemma ecb_header_after:
  assumes "no_header g" and "F = 0xe6 # 0xe6 # R" and "length g + 1 < n"
  shows "find_idx (ecb_header_at (g @ F)) 0 (n - 1) = Some (length g)"
proof (rule find_idx_first)
  show "length g < n - 1" using assms(3) by simp
  show "ecb_header_at (g @ F) (length g) = Some True"
    using assms(2) by (simp add: ecb_header_at_def rd_def nth_append)
  fix j assume j: "j < length g"
  have "(g @ F) ! j = (g @ [0xe6]) ! j" "(g @ F) ! Suc j = (g @ [0xe6]) ! Suc j"
    using j assms(2) by (auto simp: nth_append nth_Cons' less_Suc_eq not_less)
  then show "ecb_header_at (g @ F) j = Some False"
    using j assms(1,2) by (simp add: ecb_header_at_in no_header_def)
qed simp

lemma ecb_scan_at_frame:
  assumes "no_header g" and "F = 0xe6 # 0xe6 # R" and "length g + 1 < n"
  shows "ecb_scan (g @ F) n e = ecb_check (g @ F) n (length g)"
proof -
  have "\<not> n < 2" "\<not> n - 1 \<le> length g" using assms(3) by auto
  then show ?thesis using ecb_header_after [OF assms] by (simp add: ecb_scan_def)
qed

text \<open>The reads of a scan that accepts, in the order of the code.\<close>

lemma ecb_check_valid:
  assumes "rd buf (k + 2) = Some s1" "rd buf (k + 3) = Some s0" "rd buf (k + 4) = Some c"
    and "rd buf (k + 5) = Some l1" "rd buf (k + 6) = Some l0" and "d = be16 l1 l0" "d \<le> 512"
    and "k + (7 + d) + 4 \<le> n"
    and "rd buf (k + (7 + d + 2)) = Some 0x6e" "rd buf (k + (7 + d + 2 + 1)) = Some 0x6e"
    and "rd_n buf (k + 2) (7 + d - 2) = Some body"
    and "rd buf (k + (7 + d)) = Some c1" "rd buf (k + (7 + d + 1)) = Some c0"
  shows "ecb_check buf n k = Some (ECB_UART_READ_VALID, int (k + 11 + d),
    Ecb_Msg (word_of_nat (be16 s1 s0)) c (drop (k + 7) buf) d (CRC16_MAXIM body = word_of_nat (be16 c1 c0)))"
proof -
  have "\<not> n - k < 11" "\<not> n < k + (7 + d) + 2 + 2" "\<not> 512 < d" using assms(7,8) by auto
  moreover have "rd buf (k + (7 + d) + 2) = Some 0x6e" "rd buf (k + (7 + d) + 2 + 1) = Some 0x6e"
    "rd buf (k + (7 + d)) = Some c1" "rd buf (k + (7 + d) + 1) = Some c0"
    using assms(9,10,12,13) by (simp_all only: add.assoc)
  ultimately show ?thesis
    unfolding ecb_check_def ECB_MSG_MIN_LEN_def Let_def
    using assms(1-5,11) by (simp only: assms(6) [symmetric] if_False bind.bind_lunit simp_thms) simp
qed

lemma ecb_scan_frame:
  assumes "no_header g" and "length m \<le> 512" and "length g + 11 + length m \<le> n"
  shows "ecb_scan (g @ ecb_frame s c m @ rest) n e =
    Some (ECB_UART_READ_VALID, int (length g + 11 + length m),
      Ecb_Msg s c (drop 7 (ecb_frame s c m @ rest)) (length m) True)"
proof -
  define F where "F = ecb_frame s c m @ rest"
  have F: "F = 0xe6 # 0xe6 # drop 2 F" by (simp add: F_def ecb_frame_def ecb_body_def Let_def)
  have len: "length m = be16 (byte_of_nat (length m div 256)) (byte_of_nat (length m))"
    using assms(2) by (simp add: be16_split)
  note h = rd_frame_head [OF F_def] and t = rd_frame_tail [OF F_def] and b = rd_frame_body [OF F_def]
  have "ecb_scan (g @ F) n e = ecb_check (g @ F) n (length g)"
    using ecb_scan_at_frame [OF assms(1) F, of n e] assms(3) by simp
  also have "\<dots> = Some (ECB_UART_READ_VALID, int (length g + 11 + length m),
      Ecb_Msg s c (drop (length g + 7) (g @ F)) (length m) True)"
    using ecb_check_valid [of "g @ F" "length g", unfolded rd_append rd_n_append,
        OF h(3-7) len assms(2) _ t(3,4) b t(1,2), of n] assms(3)
    by (simp add: be16_word)
  finally show ?thesis by (simp add: F_def)
qed

section \<open>A frame that is not complete yet\<close>

text \<open>The first bytes of a frame that do not by chance end with two tail bytes: then the parser
  waits. (If they do, it takes the frame for damaged and skips its header.)\<close>

definition ecb_partial :: "bytes \<Rightarrow> bool" where
  "ecb_partial p \<longleftrightarrow> p = [] \<or> (\<exists>s c m k. length m \<le> 512 \<and> k < 11 + length m \<and> p = take k (ecb_frame s c m) \<and>
     \<not> (11 \<le> k \<and> p ! (k - 1) = 0x6e \<and> p ! (k - 2) = 0x6e))"

lemma ecb_partial_Nil [simp]: "ecb_partial []"
  by (simp add: ecb_partial_def)

lemma rd_take: "i < k \<Longrightarrow> rd F i = Some v \<Longrightarrow> rd (take k F @ R) i = Some v"
  by (auto simp: rd_def nth_append)

lemma ecb_check_prefix:
  assumes "F = ecb_frame s c m @ []" and "length m \<le> 512" and "11 \<le> k" "k < 11 + length m"
    and "b = take k F @ R" and "\<not> (b ! (k - 1) = 0x6e \<and> b ! (k - 2) = 0x6e)"
  shows "ecb_check b k 0 = Some (ECB_UART_READ_LEN_SMALL, 0, Ecb_None)"
proof -
  have len: "be16 (byte_of_nat (length m div 256)) (byte_of_nat (length m)) = length m"
    using assms(2) by (simp add: be16_split)
  have lb: "k \<le> length b" using assms(1,4,5) by simp
  note h = rd_frame_head [OF assms(1)]
  have "rd b i = rd F i" if "i < k" "rd F i \<noteq> None" for i
    using that by (auto simp: assms(5) rd_take)
  note r = this [of 2, unfolded h] this [of 3, unfolded h] this [of 4, unfolded h]
    this [of 5, unfolded h] this [of 6, unfolded h]
  have "rd b (k - 1) = Some (b ! (k - 1))" "rd b (k - 2) = Some (b ! (k - 2))"
    using lb assms(3) by (simp_all add: rd_def)
  then show ?thesis
    using r assms(2-4,6)
    by (auto simp add: ecb_check_def ECB_MSG_MIN_LEN_def Let_def len simp del: add_2_eq_Suc add_2_eq_Suc')
qed

lemma ecb_scan_partial:
  assumes "ecb_partial p"
  shows "ecb_scan (p @ R) (length p) e = Some (ECB_UART_READ_LEN_SMALL, 0, Ecb_None)"
proof (cases "length p < 2")
  case False
  then obtain s c m k where k: "length m \<le> 512" "k < 11 + length m" "p = take k (ecb_frame s c m)"
    "\<not> (11 \<le> k \<and> p ! (k - 1) = 0x6e \<and> p ! (k - 2) = 0x6e)"
    using assms by (auto simp: ecb_partial_def)
  then have lp: "length p = k" by simp
  have "take k (ecb_frame s c m) = 0xe6 # 0xe6 # take (k - 2) (drop 2 (ecb_frame s c m))"
    using False lp by (cases k; cases "k - 1") (auto simp: ecb_frame_def ecb_body_def Let_def)
  then have p: "p @ R = 0xe6 # 0xe6 # take (k - 2) (drop 2 (ecb_frame s c m)) @ R" using k(3) by simp
  show ?thesis
  proof (cases "length p = 2")
    case True
    have "find_idx (ecb_header_at (p @ R)) 0 1 = Some 0"
      by (rule find_idx_hit) (simp_all add: p ecb_header_at_def rd_def)
    with True show ?thesis by (simp add: ecb_scan_def ecb_check_def ECB_MSG_MIN_LEN_def)
  next
    case gt: False
    have "ecb_scan (p @ R) (length p) e = ecb_check (p @ R) (length p) 0"
      using ecb_scan_at_frame [of "[]" "p @ R" _ "length p" e, OF no_header_Nil p] False gt by simp
    also have "\<dots> = Some (ECB_UART_READ_LEN_SMALL, 0, Ecb_None)"
    proof (cases "k < 11")
      case True
      then show ?thesis by (simp add: ecb_check_def ECB_MSG_MIN_LEN_def lp)
    next
      case False
      then have "(p @ R) ! (k - 1) = p ! (k - 1)" "(p @ R) ! (k - 2) = p ! (k - 2)"
        using lp by (simp_all add: nth_append)
      with k False show ?thesis
        unfolding lp by (intro ecb_check_prefix [where F = "ecb_frame s c m" and R = R]) auto
    qed
    finally show ?thesis .
  qed
qed (simp add: ecb_scan_def)

section \<open>A stream of frames\<close>

type_synonym ecb_msg = "16 word \<times> byte \<times> bytes"

definition ecb_encode :: "ecb_msg list \<Rightarrow> bytes" where
  "ecb_encode fs = concat (map (\<lambda>(s, c, m). ecb_frame s c m) fs)"

text \<open>The frames among collected events, with the payload cut to its length; only those whose CRC
  was right.\<close>

definition delivered :: "ecb_event list \<Rightarrow> ecb_msg list" where
  "delivered evs = List.map_filter
     (\<lambda>ev. case ev of Ecb_Msg s c p d ok \<Rightarrow> if ok then Some (s, c, take d p) else None | _ \<Rightarrow> None) evs"

text \<open>Nothing else happened: no broken frame, and every frame whole and with a right CRC.\<close>

fun clean_event :: "ecb_event \<Rightarrow> bool" where
  "clean_event Ecb_None = True"
| "clean_event (Ecb_Bad_Tail s) = False"
| "clean_event (Ecb_Msg s c p d ok) = (ok \<and> d + 4 \<le> length p)"

lemma delivered_simps [simp]:
  "delivered [] = []"
  "delivered (Ecb_None # evs) = delivered evs"
  "delivered (Ecb_Msg s c p d True # evs) = (s, c, take d p) # delivered evs"
  by (simp_all add: delivered_def map_filter_simps)

lemma ecb_encode_simps [simp]:
  "ecb_encode [] = []" "ecb_encode ((s, c, m) # fs) = ecb_frame s c m @ ecb_encode fs"
  by (simp_all add: ecb_encode_def)

lemma frame_payload: "take (length m) (drop 7 (ecb_frame s c m @ rest)) = m"
  by (simp add: ecb_frame_def ecb_body_def Let_def)

lemma collect_frame:
  assumes "length m \<le> 512" "11 + length m \<le> n"
  shows "ecb_collect (ecb_frame s c m @ rest) n e evs = Some (ECB_UART_READ_VALID, int (11 + length m),
    evs @ [Ecb_Msg s c (drop 7 (ecb_frame s c m @ rest)) (length m) True])"
  using ecb_scan_frame [of "[]" m n s c rest e] assms by (simp add: ecb_collect_def)

lemma loop_stream:
  assumes "\<forall>(s, c, m) \<in> set fs. length m \<le> 512" and "ecb_partial p"
    and "ecb_encode fs @ p \<noteq> []"
  shows "\<exists>ix evs'. uart_parse_loop ecb_collect (pre @ ecb_encode fs @ p @ R) (int (length pre))
      (int (length (ecb_encode fs @ p))) e evs = Some (ix, int (length p), evs @ evs') \<and>
    delivered evs' = fs \<and> list_all clean_event evs'"
  using assms(1,3)
proof (induction fs arbitrary: pre e evs)
  case Nil
  have c0: "ecb_collect (drop (length pre) (pre @ p @ R)) (length p) e evs =
      Some (ECB_UART_READ_LEN_SMALL, int 0, evs @ [Ecb_None])"
    using ecb_scan_partial [OF assms(2), of R e] by (simp add: ecb_collect_def)
  from uart_parse_loop_small [of ecb_collect "length pre" "pre @ p @ R" "length p" e evs 0, OF c0]
  have "uart_parse_loop ecb_collect (pre @ p @ R) (int (length pre)) (int (length p)) e evs =
      Some (int (length pre + 0), int (length p - 0), evs @ [Ecb_None])"
    by simp
  then show ?case by auto
next
  case (Cons f fs)
  obtain s c m where f: "f = (s, c, m)" by (cases f)
  let ?rest = "ecb_encode fs @ p @ R" and ?F = "ecb_frame s c m" and ?n = "length (ecb_encode fs @ p)"
  let ?ev = "Ecb_Msg s c (drop 7 (?F @ ?rest)) (length m) True"
  have m: "length m \<le> 512" and fs: "\<forall>(s, c, m) \<in> set fs. length m \<le> 512" using Cons.prems f by auto
  have c: "ecb_collect (drop (length pre) (pre @ ?F @ ?rest)) (11 + length m + ?n) e evs =
      Some (ECB_UART_READ_VALID, int (11 + length m), evs @ [?ev])"
    using collect_frame [OF m, of "11 + length m + ?n" s c ?rest e evs] by simp
  show ?case
  proof (cases "ecb_encode fs @ p = []")
    case True
    then have "fs = []" by (cases fs) (auto simp: ecb_frame_def ecb_body_def Let_def)
    with True c f show ?thesis
      using uart_parse_loop_last [of ecb_collect "length pre" "pre @ ?F @ R" "11 + length m" e evs _ "evs @ [?ev]"]
      by (auto simp: frame_payload frame_payload [where rest = "[]", simplified])
  next
    case False
    then have n: "11 + length m < 11 + length m + ?n" by auto
    have step: "uart_parse_loop ecb_collect (pre @ ?F @ ?rest) (int (length pre)) (int (11 + length m + ?n)) e evs =
      uart_parse_loop ecb_collect (pre @ ?F @ ?rest) (int (length pre + (11 + length m))) (int ?n)
        (int (11 + length m)) (evs @ [?ev])"
      using uart_parse_loop_step [of ecb_collect "length pre" "pre @ ?F @ ?rest" "11 + length m + ?n" e evs
          ECB_UART_READ_VALID "11 + length m" "evs @ [?ev]", OF c _ _ _ n] by simp
    obtain ix evs' where "uart_parse_loop ecb_collect ((pre @ ?F) @ ecb_encode fs @ p @ R) (int (length (pre @ ?F)))
        (int ?n) (int (11 + length m)) (evs @ [?ev]) = Some (ix, int (length p), (evs @ [?ev]) @ evs')"
      and "delivered evs' = fs \<and> list_all clean_event evs'"
      using Cons.IH [OF fs False, of "pre @ ?F" "int (11 + length m)" "evs @ [?ev]"] by blast
    with step show ?thesis
      by (intro exI [of _ ix] exI [of _ "?ev # evs'"]) (simp add: f frame_payload [where rest = "[]", simplified] add.assoc)
  qed
qed

lemma parse_stream:
  assumes "\<forall>(s, c, m) \<in> set fs. length m \<le> 512" and "ecb_partial p" and "ecb_encode fs @ p \<noteq> []"
  shows "\<exists>buf' evs'. uart_parse_msg ecb_collect (ecb_encode fs @ p @ R) (length (ecb_encode fs @ p)) e evs =
      Some (buf', length p, evs @ evs') \<and> delivered evs' = fs \<and> list_all clean_event evs' \<and> take (length p) buf' = p \<and>
      length buf' = length (ecb_encode fs @ p @ R)"
proof -
  obtain ix evs' where l: "uart_parse_loop ecb_collect (ecb_encode fs @ p @ R) 0
      (int (length (ecb_encode fs @ p))) e evs = Some (ix, int (length p), evs @ evs')"
    and d: "delivered evs' = fs \<and> list_all clean_event evs'"
    using loop_stream [OF assms, of "[]" R e evs] by auto
  show ?thesis
  proof (cases "p = []")
    case True
    with l d show ?thesis by (simp add: uart_parse_msg_def)
  next
    case False
    then have ix: "ix = int (length (ecb_encode fs))"
      using ecb_rx.loop_post [of "ecb_encode fs @ p @ R" 0 "length (ecb_encode fs @ p)" e evs] l by auto
    have "rd_n (ecb_encode fs @ p @ R) (length (ecb_encode fs)) (length p) = Some p"
      by (simp add: rd_n_def)
    with l d ix False show ?thesis
      by (simp add: uart_parse_msg_def wr_n_def)
  qed
qed

text \<open>One call of the read callback: what is left of the previous reads and the new bytes together
  are whole frames and the beginning of one. The frames come out, the beginning stays.\<close>

lemma recv_stream:
  assumes "\<forall>(s, c, m) \<in> set fs. length m \<le> 512" and "ecb_partial p"
    and "take i buf @ chunk = ecb_encode fs @ p" and "i + length chunk \<le> length buf" and "chunk \<noteq> []"
  shows "\<exists>buf' evs'. uart_recv_cb ecb_collect e chunk (buf, i) evs = Some ([], (buf', length p), evs @ evs') \<and>
      delivered evs' = fs \<and> list_all clean_event evs' \<and> take (length p) buf' = p \<and> length buf' = length buf"
proof -
  have w: "wr_n buf i chunk = Some (ecb_encode fs @ p @ drop (i + length chunk) buf)"
    using assms(3,4) by (simp add: wr_n_def)
  have i: "i + length chunk = length (ecb_encode fs @ p)"
    using arg_cong [OF assms(3), of length] assms(4) by simp
  have ne: "ecb_encode fs @ p \<noteq> []" using assms(3,5) by auto
  obtain buf' evs' where p: "uart_parse_msg ecb_collect (ecb_encode fs @ p @ drop (i + length chunk) buf)
      (length (ecb_encode fs @ p)) e evs = Some (buf', length p, evs @ evs')"
    "delivered evs' = fs \<and> list_all clean_event evs'" "take (length p) buf' = p"
    "length buf' = length (ecb_encode fs @ p @ drop (i + length chunk) buf)"
    using parse_stream [OF assms(1,2) ne] by blast
  have "take (length buf - i) chunk = chunk" using assms(4) by simp
  moreover have "length buf' = length buf" using p(4) i assms(4) by simp
  ultimately show ?thesis using w p assms(5) i
    by (auto simp: uart_recv_cb_def Let_def)
qed

text \<open>A frame longer than the buffer fills it and is never complete; a full buffer takes no more
  bytes.\<close>

lemma recv_full:
  "uart_recv_cb func e avail (buf, length buf) s = Some (avail, (buf, length buf), s)"
  by (simp add: uart_recv_cb_def)

lemma recv_too_long:
  assumes "length m \<le> 512" and "length buf < 11 + length m" and "11 \<le> length buf"
    and p: "p = take (length buf) (ecb_frame s c m)"
    and "\<not> (p ! (length buf - 1) = 0x6e \<and> p ! (length buf - 2) = 0x6e)"
  shows "\<exists>evs'. uart_recv_cb ecb_collect e (ecb_frame s c m) (buf, 0) evs =
      Some (drop (length buf) (ecb_frame s c m), (p, length buf), evs @ evs') \<and> delivered evs' = []"
proof -
  have lp: "length p = length buf" using assms(2) p by simp
  have "ecb_partial p" unfolding ecb_partial_def using assms lp by blast
  moreover have "p \<noteq> []" using lp assms(3) by auto
  ultimately obtain buf' evs' where r: "uart_recv_cb ecb_collect e p (buf, 0) evs = Some ([], (buf', length p), evs @ evs')"
    "delivered evs' = []" "take (length p) buf' = p" "length buf' = length buf"
    using recv_stream [of "[]" p 0 buf p e evs] lp by auto
  have got: "take (length buf - 0) (ecb_frame s c m) = p" "take (length buf - 0) p = p"
    using lp p by simp_all
  have "uart_recv_cb ecb_collect e (ecb_frame s c m) (buf, 0) evs =
      map_option (\<lambda>(_, r). (drop (length buf) (ecb_frame s c m), r)) (uart_recv_cb ecb_collect e p (buf, 0) evs)"
    using lp \<open>p \<noteq> []\<close> unfolding uart_recv_cb_def Let_def prod.case got
    by (cases "wr_n buf 0 p") (auto split: Option.bind_split)
  with r lp show ?thesis by auto
qed

section \<open>A damaged frame\<close>

text \<open>The frame built for one body with another body of the same length in its place.\<close>

definition ecb_damaged :: "ecb_msg \<Rightarrow> ecb_msg \<Rightarrow> bytes" where
  "ecb_damaged sent got = (case (sent, got) of ((s, c, m), (s', c', m')) \<Rightarrow>
     [0xe6, 0xe6] @ ecb_body s' c' m' @ drop (7 + length m) (ecb_frame s c m))"

lemma ecb_frame_drop:
  "drop (7 + length m) (ecb_frame s c m) =
    [byte_of_nat (unat (CRC16_MAXIM (ecb_body s c m)) div 256),
     byte_of_nat (unat (CRC16_MAXIM (ecb_body s c m))), 0x6e, 0x6e]"
proof -
  have "ecb_frame s c m = ([0xe6, 0xe6] @ ecb_body s c m) @
    [byte_of_nat (unat (CRC16_MAXIM (ecb_body s c m)) div 256),
     byte_of_nat (unat (CRC16_MAXIM (ecb_body s c m))), 0x6e, 0x6e]"
    by (simp add: ecb_frame_def Let_def)
  moreover have "length ([0xe6, 0xe6] @ ecb_body s c m) = 7 + length m" by simp
  ultimately show ?thesis by (simp only: drop_append) simp
qed

lemma scan_damaged:
  assumes "length m' = length m" and "length m \<le> 512"
  shows "ecb_scan (ecb_damaged (s, c, m) (s', c', m') @ rest) (11 + length m) e =
    Some (ECB_UART_READ_VALID, int (11 + length m),
      Ecb_Msg s' c' (drop 7 (ecb_damaged (s, c, m) (s', c', m') @ rest)) (length m)
        (CRC16_MAXIM (ecb_body s' c' m') = CRC16_MAXIM (ecb_body s c m)))"
proof -
  define F where "F = ecb_damaged (s, c, m) (s', c', m') @ rest"
  let ?crc = "CRC16_MAXIM (ecb_body s c m)"
  let ?tl = "[byte_of_nat (unat ?crc div 256), byte_of_nat (unat ?crc), 0x6e, 0x6e] @ rest"
  have F: "F = [0xe6, 0xe6, byte_of_nat (unat s' div 256), byte_of_nat (unat s'), c',
     byte_of_nat (length m' div 256), byte_of_nat (length m')] @ m' @ ?tl"
    using assms(1) by (simp add: F_def ecb_damaged_def ecb_frame_drop) (simp add: ecb_body_def)
  have h: "rd F 2 = Some (byte_of_nat (unat s' div 256))" "rd F 3 = Some (byte_of_nat (unat s'))"
    "rd F 4 = Some c'" "rd F 5 = Some (byte_of_nat (length m' div 256))"
    "rd F 6 = Some (byte_of_nat (length m'))"
    unfolding F by (simp_all add: rd_def)
  have t: "rd F (7 + length m) = Some (byte_of_nat (unat ?crc div 256))"
    "rd F (7 + length m + 1) = Some (byte_of_nat (unat ?crc))"
    "rd F (7 + length m + 2) = Some 0x6e" "rd F (7 + length m + 2 + 1) = Some 0x6e"
    unfolding F by (simp_all add: rd_def nth_append assms(1))
  have b: "rd_n F 2 (7 + length m - 2) = Some (ecb_body s' c' m')"
    using assms(1) by (simp add: F_def ecb_damaged_def rd_n_def)
  have len: "length m = be16 (byte_of_nat (length m' div 256)) (byte_of_nat (length m'))"
    using assms by (simp add: be16_split)
  have F2: "F = 0xe6 # 0xe6 # drop 2 F" unfolding F by simp
  have "ecb_scan ([] @ F) (11 + length m) e = ecb_check ([] @ F) (11 + length m) (length [])"
    using ecb_scan_at_frame [OF no_header_Nil F2, of "11 + length m" e] F2 by simp
  then show ?thesis
    using ecb_check_valid [of F 0, unfolded add_0, OF h len assms(2) _ t(3,4) b t(1,2)]
    by (simp add: be16_word flip: F_def)
qed

section \<open>Properties\<close>

text \<open>C8: Reception of the power-board stream. If the bytes still in the receive buffer followed by
  the bytes just read are the encoding of a list of frames followed by the beginning of a frame, one
  call of the read callback delivers exactly these frames, in order and with a correct CRC, and keeps
  exactly the beginning for the next call.\<close>

theorem ecb_reception_delivers_frames:
  assumes "\<forall>(s, c, m) \<in> set fs. length m \<le> 512"
    and "ecb_partial p"
    and "take i buf @ chunk = ecb_encode fs @ p"
    and "i + length chunk \<le> length buf"
    and "chunk \<noteq> []"
  shows "\<exists>buf' evs'. uart_recv_cb ecb_collect e chunk (buf, i) evs = Some ([], (buf', length p), evs @ evs') \<and>
      delivered evs' = fs \<and> list_all clean_event evs' \<and> take (length p) buf' = p \<and> length buf' = length buf"
  using recv_stream [OF assms] .

lemma ecb_reception_delivers_frames_witness:
  "\<exists>buf' evs'. uart_recv_cb ecb_collect 0 (ecb_encode [(7, 3, [0x40, 1]), (8, 12, [])])
      (replicate 512 0, 0) [] = Some ([], (buf', length ([] :: bytes)), [] @ evs') \<and>
    delivered evs' = [(7, 3, [0x40, 1]), (8, 12, [])] \<and> list_all clean_event evs' \<and> take (length ([] :: bytes)) buf' = [] \<and>
    length buf' = length (replicate 512 (0 :: byte))"
  by (rule ecb_reception_delivers_frames) (auto simp: ecb_frame_def ecb_body_def Let_def)

text \<open>A frame may arrive in two reads. Cut anywhere, except where the first part happens to end
  with two tail bytes, it is not delivered by the first read and delivered whole by the second.\<close>

theorem ecb_split_frame:
  assumes "length m \<le> 501" and "0 < k" and "k < 11 + length m"
    and "\<not> (11 \<le> k \<and> ecb_frame s c m ! (k - 1) = 0x6e \<and> ecb_frame s c m ! (k - 2) = 0x6e)"
    and "length buf = 512"
  shows "\<exists>buf1 buf2 evs1 evs2.
    uart_recv_cb ecb_collect e1 (take k (ecb_frame s c m)) (buf, 0) [] = Some ([], (buf1, k), evs1) \<and>
    delivered evs1 = [] \<and>
    uart_recv_cb ecb_collect e2 (drop k (ecb_frame s c m)) (buf1, k) [] = Some ([], (buf2, 0), evs2) \<and>
    delivered evs2 = [(s, c, m)]"
proof -
  define F where "F = ecb_frame s c m"
  have F: "length F = 11 + length m" "ecb_encode [(s, c, m)] = F" by (simp_all add: F_def)
  have len: "length (take k F) = k" "length (drop k F) = 11 + length m - k" using F assms(3) by simp_all
  then have ne: "take k F \<noteq> []" "drop k F \<noteq> []" using assms(2,3) by auto
  have part: "ecb_partial (take k F)"
    unfolding ecb_partial_def F_def using assms(1,3,4)
    by (auto intro!: exI [of _ s] exI [of _ c] exI [of _ m] exI [of _ k])
  obtain buf1 evs1 where 1: "uart_recv_cb ecb_collect e1 (take k F) (buf, 0) [] = Some ([], (buf1, k), evs1)"
    "delivered evs1 = []" "take k buf1 = take k F" "length buf1 = 512"
    using recv_stream [of "[]" "take k F" 0 buf "take k F" e1 "[]"] part ne assms len by auto
  obtain buf2 evs2 where "uart_recv_cb ecb_collect e2 (drop k F) (buf1, k) [] = Some ([], (buf2, 0), evs2)"
    "delivered evs2 = [(s, c, m)]"
    using recv_stream [of "[(s, c, m)]" "[]" k buf1 "drop k F" e2 "[]", unfolded F(2)] 1(3,4) ne assms len F(1)
    by auto
  with 1 show ?thesis by (simp flip: F_def)
qed

lemma ecb_split_frame_witness:
  "\<exists>buf1 buf2 evs1 evs2.
    uart_recv_cb ecb_collect 0 (take 9 (ecb_frame 7 3 [0x40, 1])) (replicate 512 0, 0) [] = Some ([], (buf1, 9), evs1) \<and>
    delivered evs1 = [] \<and>
    uart_recv_cb ecb_collect 0 (drop 9 (ecb_frame 7 3 [0x40, 1])) (buf1, 9) [] = Some ([], (buf2, 0), evs2) \<and>
    delivered evs2 = [(7, 3, [0x40, 1])]"
  by (rule ecb_split_frame) simp_all



text \<open>C32: Whatever bytes arrive, the read callback with the frame scan returns, touches no byte
  outside its buffer and leaves a fill level within the buffer: the parse loop always ends.\<close>

theorem ecb_reception_total:
  assumes "i \<le> length buf"
  shows "\<exists>rest buf' i' evs'. uart_recv_cb ecb_collect e avail (buf, i) evs = Some (rest, (buf', i'), evs') \<and>
    length buf' = length buf \<and> i' \<le> length buf"
  using ecb_rx.recv_total [OF TrueI assms, of e avail evs] by blast

lemma ecb_reception_total_witness:
  "\<exists>rest buf' i' evs'. uart_recv_cb ecb_collect 0 [0xe6, 0xe6, 1] (replicate 512 0, 5) [] = Some (rest, (buf', i'), evs') \<and>
    length buf' = length (replicate 512 (0 :: byte)) \<and> i' \<le> length (replicate 512 (0 :: byte))"
  by (rule ecb_reception_total) simp

text \<open>C40: A frame with 502 to 512 payload bytes passes the length check but is longer than the
  512-byte receive buffer: its beginning fills the buffer, nothing is delivered, and every later read
  is asked for zero bytes, so reception has stopped for good.\<close>

theorem ecb_oversized_frame_stalls:
  assumes "501 < length m" and "length m \<le> 512" and "length buf = 512"
    and "p = take 512 (ecb_frame s c m)"
    and "\<not> (p ! 511 = 0x6e \<and> p ! 510 = 0x6e)"
  shows "\<exists>evs. uart_recv_cb ecb_collect e (ecb_frame s c m) (buf, 0) [] =
      Some (drop 512 (ecb_frame s c m), (p, 512), evs) \<and> delivered evs = [] \<and>
    (\<forall>e' avail evs'. uart_recv_cb ecb_collect e' avail (p, 512) evs' = Some (avail, (p, 512), evs'))"
proof -
  have "length p = 512" using assms(1,4) by simp
  then show ?thesis
    using recv_too_long [of m buf p s c e "[]"] recv_full [of ecb_collect _ _ p] assms by auto
qed

lemma ecb_oversized_frame_stalls_witness:
  "\<exists>evs. uart_recv_cb ecb_collect 0 (ecb_frame 0 3 (replicate 505 0)) (replicate 512 0, 0) [] =
      Some (drop 512 (ecb_frame 0 3 (replicate 505 0)), (take 512 (ecb_frame 0 3 (replicate 505 0)), 512), evs) \<and>
    delivered evs = [] \<and>
    (\<forall>e' avail evs'. uart_recv_cb ecb_collect e' avail (take 512 (ecb_frame 0 3 (replicate 505 0)), 512) evs' =
      Some (avail, (take 512 (ecb_frame 0 3 (replicate 505 0)), 512), evs'))"
proof (rule ecb_oversized_frame_stalls)
  have "take 512 (ecb_frame 0 3 (replicate 505 0)) ! 510 = (0 :: byte)"
    by (simp add: ecb_frame_def ecb_body_def Let_def nth_append nth_Cons')
  then show "\<not> (take 512 (ecb_frame 0 3 (replicate 505 0)) ! 511 = (0x6e :: byte) \<and>
      take 512 (ecb_frame 0 3 (replicate 505 0)) ! 510 = (0x6e :: byte))" by simp
qed simp_all

end
