(* ===== verification/X50_Ecb_Link.thy ===== *)
theory X50_Ecb_Link
  imports X50_World X50_Ecb_Codec
begin

text \<open>
  Sending on the power-board link: \<open>ecb_uart_send\<close>, \<open>ecb_uart_send_msg\<close> and the resend queue
  (\<open>uart/ecb_uart.c\<close>), and the messages \<open>uart/ecb_uart_parse_msg.c\<close> builds on them.
\<close>

section \<open>Sending\<close>

text \<open>\<open>uart_init\<close> returned \<open>fd\<close>. A frame that is to be sent again is entered in the queue with the
  two sequence bytes it carries.\<close>

definition ecb_uart_send ::
  "'db env \<Rightarrow> bytes option \<Rightarrow> int \<Rightarrow> bool \<Rightarrow> bool \<Rightarrow> 'db world \<Rightarrow> (int \<times> 'db world) option" where
  "ecb_uart_send env data in_len resend iscopy w =
     (if ecb_fd (ecb w) \<le> 0 then Some (-1, w)
      else if data = None \<or> in_len \<le> 0 then Some (0, w)
      else do {
        out \<leftarrow> rd_n (the data) 0 (nat in_len);
        let res = env_ecb_write env out;
        let w = emit (Ecb_Write out) w;
        if resend then
          let r = \<lparr>resend_cnt = RESEND_CNT, send_data = out,
                   resend_seq_id = (if nat in_len \<ge> 4 then Some (int (be16 (out ! 2) (out ! 3))) else None),
                   send_len = nat in_len,
                   wait_tick = resend_tick_set (get_systime_ms (env_timeofday env)) RESEND_WAIT_TICK,
                   resend_cb = True\<rparr>
          in Some (res, w\<lparr>ecb := (ecb w)\<lparr>ecb_list_resend := resend_list_add (ecb_list_resend (ecb w)) r\<rparr>\<rparr>)
        else Some (res, w)
      })"

definition ecb_uart_resend_cb :: "'db env \<Rightarrow> bytes \<Rightarrow> nat \<Rightarrow> 'db world \<Rightarrow> 'db world option" where
  "ecb_uart_resend_cb env data in_len w = map_option snd (ecb_uart_send env (Some data) (int in_len) False False w)"

definition ecb_resend_list_del_by_id :: "int \<Rightarrow> 'db world \<Rightarrow> 'db world option" where
  "ecb_resend_list_del_by_id i w = do {
     (_, l) \<leftarrow> resend_list_del_by_id (ecb_list_resend (ecb w)) i;
     Some (w\<lparr>ecb := (ecb w)\<lparr>ecb_list_resend := l\<rparr>\<rparr>)
   }"

text \<open>The sequence number is the caller's, or the counter, an \<open>unsigned short\<close>. Sending \<open>msg_len\<close>
  bytes of a NULL message would send bytes that were never written.\<close>

definition ecb_uart_send_msg ::
  "'db env \<Rightarrow> byte \<Rightarrow> bytes option \<Rightarrow> nat \<Rightarrow> bool \<Rightarrow> int \<Rightarrow> 'db world \<Rightarrow> (int \<times> 'db world) option" where
  "ecb_uart_send_msg env command msg msg_len resend seq_id w = do {
     let (seq_id, w) =
       (if seq_id < 0 then (uint (ecb_seq_id (ecb w)), w\<lparr>ecb := (ecb w)\<lparr>ecb_seq_id := ecb_seq_id (ecb w) + 1\<rparr>\<rparr>)
        else (seq_id, w));
     payload \<leftarrow> (case msg of None \<Rightarrow> (if msg_len = 0 then Some [] else None) | Some m \<Rightarrow> rd_n m 0 msg_len);
     ecb_uart_send env (Some (ecb_frame (word_of_int seq_id) command payload))
       (int (ECB_MSG_MIN_LEN + msg_len)) resend False w
   }"

section \<open>The messages\<close>

definition ecb_uart_send_cloud_msg :: "'db env \<Rightarrow> bytes \<Rightarrow> nat \<Rightarrow> 'db world \<Rightarrow> (int \<times> 'db world) option" where
  "ecb_uart_send_cloud_msg env msg msg_len = ecb_uart_send_msg env ECB_UART_COMMAND_SET (Some msg) msg_len True (-1)"

definition ecb_uart_send_ack :: "'db env \<Rightarrow> int \<Rightarrow> 'db world \<Rightarrow> (int \<times> 'db world) option" where
  "ecb_uart_send_ack env seq_id = ecb_uart_send_msg env ECB_UART_COMMAND_ACK None 0 False seq_id"

definition ecb_uart_send_nak :: "'db env \<Rightarrow> byte \<Rightarrow> int \<Rightarrow> 'db world \<Rightarrow> (int \<times> 'db world) option" where
  "ecb_uart_send_nak env error_code seq_id =
     ecb_uart_send_msg env ECB_UART_COMMAND_NAK (Some [error_code]) 1 False seq_id"

datatype ft_ret =
    FT_RET_OK_WIFI
  | FT_RET_ERR_WIFI
  | FT_RET_ERR_BT
  | FT_RET_ERR_RESET
  | FT_RET_OK_RESET
  | FT_RET_OK_META
  | FT_RET_ERR_WIFI_WEAK

fun ft_ret_byte :: "ft_ret \<Rightarrow> byte" where
  "ft_ret_byte FT_RET_OK_WIFI = 0"
| "ft_ret_byte FT_RET_ERR_WIFI = 1"
| "ft_ret_byte FT_RET_ERR_BT = 2"
| "ft_ret_byte FT_RET_ERR_RESET = 3"
| "ft_ret_byte FT_RET_OK_RESET = 4"
| "ft_ret_byte FT_RET_OK_META = 5"
| "ft_ret_byte FT_RET_ERR_WIFI_WEAK = 6"

definition UART_STORE_FT_RESULT :: byte where "UART_STORE_FT_RESULT = 0xf2"

definition ecb_uart_send_factory :: "'db env \<Rightarrow> ft_ret \<Rightarrow> 'db world \<Rightarrow> (int \<times> 'db world) option" where
  "ecb_uart_send_factory env ret =
     ecb_uart_send_msg env ECB_UART_COMMAND_STORE (Some [UART_STORE_FT_RESULT, ft_ret_byte ret]) 2 True (-1)"

section \<open>Connection supervision\<close>

text \<open>The status is a number, compared with those of \<open>enum ecb_uart_status_t\<close>; with \<open>increase\<close> the
  result is that of sending.\<close>

definition ECB_UART_CONNECTED :: int where "ECB_UART_CONNECTED = 0"
definition ECB_UART_CONNECTINT :: int where "ECB_UART_CONNECTINT = 1"
definition ECB_UART_DISCONNECT :: int where "ECB_UART_DISCONNECT = 2"
definition ECB_UART_DISCONNECT_COUNT :: int where "ECB_UART_DISCONNECT_COUNT = 4"

definition MSG_GET_SHORT_TIME :: int where "MSG_GET_SHORT_TIME = 3 * 5"
definition MSG_GET_LONG_TIME :: int where "MSG_GET_LONG_TIME = 3 * 30 * 5"
definition MSG_HEART_TIME :: int where "MSG_HEART_TIME = 15 * 5"

definition ecb_uart_msg_get :: "'db env \<Rightarrow> bool \<Rightarrow> 'db world \<Rightarrow> (int \<times> 'db world) option" where
  "ecb_uart_msg_get env increase w =
     (if increase then
        let c = msg_get_timeout_count (ecb w);
            w = (if c \<le> ECB_UART_DISCONNECT_COUNT then w\<lparr>ecb := (ecb w)\<lparr>msg_get_timeout_count := c + 1\<rparr>\<rparr> else w)
        in ecb_uart_send_msg env ECB_UART_COMMAND_GET None 0 False (-1) w
      else if msg_get_timeout_count (ecb w) \<ge> ECB_UART_DISCONNECT_COUNT then Some (ECB_UART_DISCONNECT, w)
      else if msg_get_timeout_count (ecb w) = 0 then Some (ECB_UART_CONNECTED, w)
      else Some (ECB_UART_CONNECTINT, w))"

definition ecb_uart_heart_timeout :: "bool \<Rightarrow> 'db world \<Rightarrow> int \<times> 'db world" where
  "ecb_uart_heart_timeout increase w =
     (if increase then
        let c = ecb_heart_count (ecb w) + 1 in (c, w\<lparr>ecb := (ecb w)\<lparr>ecb_heart_count := c\<rparr>\<rparr>)
      else (ecb_heart_count (ecb w), w))"

section \<open>What sending a message does\<close>

definition resend_entry :: "'db env \<Rightarrow> 16 word \<Rightarrow> bytes \<Rightarrow> uart_resend" where
  "resend_entry env seq out = \<lparr>resend_cnt = 2, send_data = out, resend_seq_id = Some (uint seq),
     send_len = length out, wait_tick = get_systime_ms (env_timeofday env) + 500, resend_cb = True\<rparr>"

lemma ecb_frame_seq:
  "int (be16 (ecb_frame s c m ! 2) (ecb_frame s c m ! 3)) = uint s"
proof -
  have "ecb_frame s c m ! 2 = byte_of_nat (unat s div 256)" "ecb_frame s c m ! 3 = byte_of_nat (unat s)"
    by (simp_all add: ecb_frame_def ecb_body_def Let_def)
  then show ?thesis by (simp add: be16_split unat_16_lt)
qed

lemma ecb_uart_send_frame:
  assumes "0 < ecb_fd (ecb w)"
  shows "ecb_uart_send env (Some (ecb_frame s c m)) (int (11 + length m)) resend cp w =
    Some (env_ecb_write env (ecb_frame s c m),
      if resend then (emit (Ecb_Write (ecb_frame s c m)) w)
        \<lparr>ecb := (ecb w)\<lparr>ecb_list_resend := resend_entry env s (ecb_frame s c m) # ecb_list_resend (ecb w)\<rparr>\<rparr>
      else emit (Ecb_Write (ecb_frame s c m)) w)"
  using assms
  by (simp add: ecb_uart_send_def rd_n_def Let_def resend_entry_def RESEND_CNT_def resend_tick_set_def
      RESEND_WAIT_TICK_def resend_list_add_def nat_add_distrib ecb_frame_seq)

text \<open>A message with a given sequence number and one with the next number.\<close>

lemma send_msg_seq:
  assumes "0 < ecb_fd (ecb w)" and "0 \<le> seq"
  shows "ecb_uart_send_msg env command (Some m) (length m) False seq w =
      Some (env_ecb_write env (ecb_frame (word_of_int seq) command m),
        emit (Ecb_Write (ecb_frame (word_of_int seq) command m)) w)"
    and "ecb_uart_send_msg env command None 0 False seq w =
      Some (env_ecb_write env (ecb_frame (word_of_int seq) command []),
        emit (Ecb_Write (ecb_frame (word_of_int seq) command [])) w)"
  using assms ecb_uart_send_frame [of w env "word_of_int seq" command m False False]
    ecb_uart_send_frame [of w env "word_of_int seq" command "[]" False False]
  by (simp_all add: ecb_uart_send_msg_def ECB_MSG_MIN_LEN_def rd_n_def)

lemma send_msg_next:
  assumes "0 < ecb_fd (ecb w)"
  defines "s \<equiv> ecb_seq_id (ecb w)"
  shows "ecb_uart_send_msg env command (Some m) (length m) True (-1) w =
      Some (env_ecb_write env (ecb_frame s command m), (emit (Ecb_Write (ecb_frame s command m)) w)
        \<lparr>ecb := (ecb w)\<lparr>ecb_seq_id := s + 1,
           ecb_list_resend := resend_entry env s (ecb_frame s command m) # ecb_list_resend (ecb w)\<rparr>\<rparr>)"
    and "ecb_uart_send_msg env command None 0 False (-1) w =
      Some (env_ecb_write env (ecb_frame s command []), (emit (Ecb_Write (ecb_frame s command [])) w)
        \<lparr>ecb := (ecb w)\<lparr>ecb_seq_id := s + 1\<rparr>\<rparr>)"
proof -
  let ?w = "w\<lparr>ecb := (ecb w)\<lparr>ecb_seq_id := s + 1\<rparr>\<rparr>"
  have fd: "0 < ecb_fd (ecb ?w)" using assms(1) by simp
  show "ecb_uart_send_msg env command (Some m) (length m) True (-1) w =
      Some (env_ecb_write env (ecb_frame s command m), (emit (Ecb_Write (ecb_frame s command m)) w)
        \<lparr>ecb := (ecb w)\<lparr>ecb_seq_id := s + 1,
           ecb_list_resend := resend_entry env s (ecb_frame s command m) # ecb_list_resend (ecb w)\<rparr>\<rparr>)"
    using ecb_uart_send_frame [OF fd, of env s command m True False]
    by (simp add: ecb_uart_send_msg_def ECB_MSG_MIN_LEN_def rd_n_def emit_def flip: s_def)
  show "ecb_uart_send_msg env command None 0 False (-1) w =
      Some (env_ecb_write env (ecb_frame s command []), (emit (Ecb_Write (ecb_frame s command [])) w)
        \<lparr>ecb := (ecb w)\<lparr>ecb_seq_id := s + 1\<rparr>\<rparr>)"
    using ecb_uart_send_frame [OF fd, of env s command "[]" False False]
    by (simp add: ecb_uart_send_msg_def ECB_MSG_MIN_LEN_def rd_n_def emit_def flip: s_def)
qed

end
