(* ===== verification/X50_Attr.thy ===== *)
theory X50_Attr
  imports X50_World
begin

text \<open>
  The attribute tables of the tasks: a table maps keys of the UI protocol to callbacks, and every
  task answers \<open>GET\<close>, \<open>GETALL\<close> and \<open>SET\<close> by walking its table (\<open>*_resp_get\<close>, \<open>*_resp_getall\<close>,
  \<open>*_resp_set\<close> in \<open>wifi\<close>, \<open>ota\<close>, \<open>device\<close> and \<open>databse\<close>, with \<open>set_attr_report_uds\<close> and
  \<open>set_attr_ctrl_uds\<close> of \<open>cloud_platform_task.c\<close>).

  The locale \<open>attr_table\<close> is the contract between the walk and a table; each task interprets it on
  its own table.
\<close>

section \<open>Entries and the walk\<close>

text \<open>\<open>sa_cb\<close> gets the item of the request, NULL in a report, and returns the item of the answer or
  NULL.\<close>

record 'w set_attr =
  sa_cloud_key :: string
  sa_fun_type :: int
  sa_cb :: "json option \<Rightarrow> 'w \<Rightarrow> (json option \<times> 'w) option"

definition set_attr_report_uds :: "'w set_attr \<Rightarrow> json \<times> 'w \<Rightarrow> (json \<times> 'w) option" where
  "set_attr_report_uds attr st = (case st of (root, w) \<Rightarrow>
     if sa_fun_type attr = LINK_FUN_TYPE_ATTR_REPORT_CTRL \<or> sa_fun_type attr = LINK_FUN_TYPE_ATTR_REPORT then do {
       (item, w) \<leftarrow> sa_cb attr None w;
       Some (case item of None \<Rightarrow> root | Some j \<Rightarrow> cJSON_AddItemToObject root (sa_cloud_key attr) j, w)
     }
     else Some (root, w))"

definition set_attr_ctrl_uds :: "'w set_attr \<Rightarrow> json option \<Rightarrow> json \<times> 'w \<Rightarrow> (json \<times> 'w) option" where
  "set_attr_ctrl_uds attr item st = (case st of (root, w) \<Rightarrow>
     if sa_fun_type attr = LINK_FUN_TYPE_ATTR_REPORT_CTRL \<or> sa_fun_type attr = LINK_FUN_TYPE_ATTR_CTRL then do {
       (item, w) \<leftarrow> sa_cb attr item w;
       Some (case item of None \<Rightarrow> root | Some j \<Rightarrow> cJSON_AddItemToObject root (sa_cloud_key attr) j, w)
     }
     else Some (root, w))"

definition attr_resp_get :: "'w set_attr list \<Rightarrow> json option \<Rightarrow> json \<times> 'w \<Rightarrow> (json \<times> 'w) option" where
  "attr_resp_get table root =
     foldM (\<lambda>a st. if cJSON_HasObjectItem root (sa_cloud_key a) then set_attr_report_uds a st else Some st) table"

definition attr_resp_getall :: "'w set_attr list \<Rightarrow> json \<times> 'w \<Rightarrow> (json \<times> 'w) option" where
  "attr_resp_getall table = foldM set_attr_report_uds table"

definition attr_resp_set :: "'w set_attr list \<Rightarrow> json option \<Rightarrow> json \<times> 'w \<Rightarrow> (json \<times> 'w) option" where
  "attr_resp_set table root =
     foldM (\<lambda>a st. if cJSON_HasObjectItem root (sa_cloud_key a)
                   then set_attr_ctrl_uds a (cJSON_GetObjectItem root (sa_cloud_key a)) st else Some st) table"

section \<open>The contract of a table\<close>

definition reports :: "'w set_attr \<Rightarrow> bool" where
  "reports a \<longleftrightarrow> sa_fun_type a = LINK_FUN_TYPE_ATTR_REPORT_CTRL \<or> sa_fun_type a = LINK_FUN_TYPE_ATTR_REPORT"

definition controls :: "'w set_attr \<Rightarrow> bool" where
  "controls a \<longleftrightarrow> sa_fun_type a = LINK_FUN_TYPE_ATTR_REPORT_CTRL \<or> sa_fun_type a = LINK_FUN_TYPE_ATTR_CTRL"

text \<open>Reporting never faults and keeps \<open>I\<close>; controlling keeps \<open>J\<close> when it returns.\<close>

locale attr_table =
  fixes table :: "'w set_attr list" and I :: "'w \<Rightarrow> bool" and J :: "'w \<Rightarrow> bool"
  assumes report: "a \<in> set table \<Longrightarrow> reports a \<Longrightarrow> I w \<Longrightarrow> \<exists>item w'. sa_cb a None w = Some (item, w') \<and> I w'"
    and control: "a \<in> set table \<Longrightarrow> controls a \<Longrightarrow> J w \<Longrightarrow> sa_cb a (Some j) w = Some (item, w') \<Longrightarrow> J w'"
begin

lemma report_step:
  assumes "a \<in> set table" and "I w"
  shows "\<exists>new w'. set_attr_report_uds a (JObj kvs, w) = Some (JObj (kvs @ new), w') \<and> I w' \<and>
    (new = [] \<or> reports a \<and> (\<exists>j. new = [(sa_cloud_key a, j)]))"
proof (cases "reports a")
  case True
  then obtain item w' where "sa_cb a None w = Some (item, w')" "I w'" using report [OF assms(1) _ assms(2)] by blast
  with True show ?thesis
    by (cases item) (auto simp: set_attr_report_uds_def reports_def)
next
  case False
  with assms show ?thesis by (auto simp: set_attr_report_uds_def reports_def)
qed

text \<open>\<open>GETALL\<close> always answers, and only with keys that report, in table order.\<close>

lemma getall_total_aux:
  assumes "set as \<subseteq> set table" and "I w"
  shows "\<exists>new w'. foldM (\<lambda>a st. if P a then set_attr_report_uds a st else Some st) as (JObj kvs, w) =
      Some (JObj (kvs @ new), w') \<and> I w' \<and> set (map fst new) \<subseteq> {sa_cloud_key a | a. a \<in> set as \<and> P a \<and> reports a}"
  using assms
proof (induction as arbitrary: kvs w)
  case (Cons a as)
  obtain new w' where step: "(if P a then set_attr_report_uds a (JObj kvs, w) else Some (JObj kvs, w)) =
      Some (JObj (kvs @ new), w')" "I w'" "new = [] \<or> P a \<and> reports a \<and> (\<exists>j. new = [(sa_cloud_key a, j)])"
    using report_step [of a w kvs] Cons.prems by (cases "P a") auto
  obtain new' w'' where "foldM (\<lambda>a st. if P a then set_attr_report_uds a st else Some st) as (JObj (kvs @ new), w') =
      Some (JObj ((kvs @ new) @ new'), w'')" "I w''"
      "set (map fst new') \<subseteq> {sa_cloud_key a | a. a \<in> set as \<and> P a \<and> reports a}"
    using Cons.IH [of w' "kvs @ new"] Cons.prems(1) step(2) by auto
  with step show ?case
    by (intro exI [of _ "new @ new'"] exI [of _ w'']) auto
qed simp

lemma getall_total:
  assumes "I w"
  shows "\<exists>new w'. attr_resp_getall table (JObj kvs, w) = Some (JObj (kvs @ new), w') \<and> I w' \<and>
    set (map fst new) \<subseteq> {sa_cloud_key a | a. a \<in> set table \<and> reports a}"
  using getall_total_aux [of table w "\<lambda>_. True" kvs] assms by (simp add: attr_resp_getall_def)

text \<open>\<open>GET\<close> always answers, and only with keys that were asked for.\<close>

lemma get_total:
  assumes "I w"
  shows "\<exists>new w'. attr_resp_get table root (JObj kvs, w) = Some (JObj (kvs @ new), w') \<and> I w' \<and>
    set (map fst new) \<subseteq> {sa_cloud_key a | a. a \<in> set table \<and> cJSON_HasObjectItem root (sa_cloud_key a) \<and> reports a}"
  using getall_total_aux [of table w "\<lambda>a. cJSON_HasObjectItem root (sa_cloud_key a)" kvs] assms
  by (simp add: attr_resp_get_def)

lemma set_keeps:
  assumes "attr_resp_set table root (resp, w) = Some (resp', w')" and "J w"
  shows "J w'"
proof -
  have "J (snd (resp', w'))"
  proof (rule foldM_invariant [OF assms(1) [unfolded attr_resp_set_def], where P = "\<lambda>st. J (snd st)"])
    show "J (snd (resp, w))" using assms(2) by simp
  next
    fix a st st'
    assume a: "a \<in> set table" "J (snd st)"
      and step: "(if cJSON_HasObjectItem root (sa_cloud_key a)
        then set_attr_ctrl_uds a (cJSON_GetObjectItem root (sa_cloud_key a)) st else Some st) = Some st'"
    obtain r w1 where st: "st = (r, w1)" by (cases st)
    show "J (snd st')"
    proof (cases "cJSON_HasObjectItem root (sa_cloud_key a)")
      case True
      then obtain j where j: "cJSON_GetObjectItem root (sa_cloud_key a) = Some j"
        by (auto simp: cJSON_HasObjectItem_def)
      show ?thesis
      proof (cases "controls a")
        case True
        then obtain item w2 where "sa_cb a (Some j) w1 = Some (item, w2)" "snd st' = w2"
          using step j \<open>cJSON_HasObjectItem root (sa_cloud_key a)\<close> st
          by (auto simp: set_attr_ctrl_uds_def controls_def option_bind_Some_iff)
        with control [OF a(1) True] a(2) st show ?thesis by auto
      next
        case False
        with step a(2) st show ?thesis by (auto simp: set_attr_ctrl_uds_def controls_def split: if_splits)
      qed
    next
      case False
      with step a(2) show ?thesis by simp
    qed
  qed
  then show ?thesis by simp
qed

end

section \<open>Tables that report the same\<close>

definition same_reports :: "'w set_attr list \<Rightarrow> 'w set_attr list \<Rightarrow> bool" where
  "same_reports = list_all2 (\<lambda>a b. sa_cloud_key a = sa_cloud_key b \<and> sa_fun_type a = sa_fun_type b \<and>
     (reports a \<longrightarrow> sa_cb a = sa_cb b))"

lemma report_cong:
  "sa_cloud_key a = sa_cloud_key b \<Longrightarrow> sa_fun_type a = sa_fun_type b \<Longrightarrow> (reports a \<longrightarrow> sa_cb a = sa_cb b) \<Longrightarrow>
    set_attr_report_uds a = set_attr_report_uds b"
  by (rule ext) (auto simp: set_attr_report_uds_def reports_def cong: option.case_cong)

lemma foldM_cong2:
  "list_all2 R xs ys \<Longrightarrow> (\<And>x y. R x y \<Longrightarrow> f x = g y) \<Longrightarrow> foldM f xs = foldM g ys"
proof (induction xs ys rule: list_all2_induct)
  case (Cons x xs y ys)
  then have "f x = g y" "foldM f xs = foldM g ys" by blast+
  then show ?case by (intro ext) simp
qed (intro ext, simp)

lemma same_reports_walk:
  assumes "same_reports t t'"
  shows "attr_resp_get t = attr_resp_get t'" and "attr_resp_getall t = attr_resp_getall t'"
proof -
  show "attr_resp_get t = attr_resp_get t'"
    unfolding attr_resp_get_def
  proof (rule ext, rule foldM_cong2 [OF assms [unfolded same_reports_def]])
    fix root :: "json option" and a b :: "'a set_attr"
    assume "sa_cloud_key a = sa_cloud_key b \<and> sa_fun_type a = sa_fun_type b \<and> (reports a \<longrightarrow> sa_cb a = sa_cb b)"
    then have "set_attr_report_uds a = set_attr_report_uds b" "sa_cloud_key a = sa_cloud_key b" using report_cong by blast+
    then show "(\<lambda>st. if cJSON_HasObjectItem root (sa_cloud_key a) then set_attr_report_uds a st else Some st) =
        (\<lambda>st. if cJSON_HasObjectItem root (sa_cloud_key b) then set_attr_report_uds b st else Some st)"
      by (intro ext) simp
  qed
  show "attr_resp_getall t = attr_resp_getall t'"
    unfolding attr_resp_getall_def
    by (rule foldM_cong2 [OF assms [unfolded same_reports_def]]) (use report_cong in blast)
qed

end
