(* ===== verification/X50_Uds_Link.thy ===== *)
theory X50_Uds_Link
  imports X50_World X50_Crc
begin

text \<open>
  The socket to the user interface: the table of connected clients and its callbacks
  (\<open>uds/uds_tcp_server.c\<close> on top of \<open>X50_Select\<close>) and the frames sent to all of them
  (\<open>send_event_uds\<close> of \<open>uds/uds_protocol.c\<close>).

  A frame is \<open>aa aa, 00, sequence (2), length (2), JSON text, checksum, bb bb\<close>.
\<close>

section \<open>The client table\<close>

definition uds_fd_of :: "'db world \<Rightarrow> uds_client_ref \<Rightarrow> int" where
  "uds_fd_of w p = (case p of Uds_Server \<Rightarrow> uds_server_fd (uds w) | Uds_Client i \<Rightarrow> client_fd (uds_clients (uds w) ! i))"

definition set_client :: "nat \<Rightarrow> app_client \<Rightarrow> 'db world \<Rightarrow> 'db world" where
  "set_client i c w = w\<lparr>uds := (uds w)\<lparr>uds_clients := (uds_clients (uds w))[i := c]\<rparr>\<rparr>"

definition set_uds_select :: "uds_client_ref select_server \<Rightarrow> 'db world \<Rightarrow> 'db world" where
  "set_uds_select sv w = w\<lparr>uds := (uds w)\<lparr>uds_select := sv\<rparr>\<rparr>"

text \<open>Every slot is sent to, also one without a client, whose \<open>fd\<close> is 0.\<close>

definition app_select_client_tcp_server_send :: "bytes \<Rightarrow> 'db world \<Rightarrow> 'db world" where
  "app_select_client_tcp_server_send data w =
     fold (\<lambda>i w. emit (Sock_Send (client_fd (uds_clients (uds w) ! i)) data) w) [0..<SELECT_TCP_MAX_CLIENT] w"

text \<open>The loop over the slots stops at the first free one; after it the code compares the index with
  \<open>SELECT_MAX_CLIENT\<close>, the size of another table. \<open>connect_cb\<close> only prints.\<close>

definition app_add_tcp_select_client_event :: "int \<Rightarrow> 'db world \<Rightarrow> (int \<times> 'db world) option" where
  "app_add_tcp_select_client_event cfd w = do {
     i \<leftarrow> find_idx (\<lambda>i. do { c \<leftarrow> rd (uds_clients (uds w)) i; Some (client_fd c = 0) }) 0 SELECT_TCP_MAX_CLIENT;
     if i < SELECT_TCP_MAX_CLIENT then do {
       let w = set_client i \<lparr>client_fd = cfd, client_cb_set = True\<rparr> w;
       (res, sv) \<leftarrow> add_select_client_event (uds_select (uds w)) (Uds_Client i) cfd;
       let w = set_uds_select sv w;
       if res < 0 then Some (-1, set_client i ((uds_clients (uds w) ! i)\<lparr>client_fd := 0\<rparr>) w)
       else if i = SELECT_MAX_CLIENT then Some (-1, w)
       else Some (0, w)
     }
     else if i = SELECT_MAX_CLIENT then Some (-1, w)
     else Some (0, w)
   }"

text \<open>\<open>accept\<close> returned \<open>cfd\<close>; \<open>again\<close> says that \<open>errno\<close> is \<open>EAGAIN\<close> or \<open>EINTR\<close>.\<close>

definition app_select_tcp_server_accetp_cb :: "int \<Rightarrow> bool \<Rightarrow> 'db world \<Rightarrow> (int \<times> 'db world) option" where
  "app_select_tcp_server_accetp_cb cfd again w =
     (if cfd = -1 then Some (-1, if \<not> again then emit (Sleep 1) w else w)
      else do {
        (res, w) \<leftarrow> app_add_tcp_select_client_event cfd w;
        if res < 0 then Some (res, emit (Close cfd) w)
        else Some (res, w)
      })"

text \<open>\<open>recv\<close> on client \<open>i\<close> returned \<open>n\<close> and left the bytes \<open>data\<close> in the buffer of \<open>BUFLEN + 1\<close>
  bytes, which it is given in full; the terminating NUL goes behind them. \<open>recv_cb\<close> is the protocol
  handler, given the buffer and the length. \<open>disconnect_cb\<close> only prints.\<close>

definition app_select_tcp_server_recv_cb ::
  "(bytes \<Rightarrow> nat \<Rightarrow> 'db world \<Rightarrow> 'db world option) \<Rightarrow> nat \<Rightarrow> int \<Rightarrow> bytes \<Rightarrow> bytes \<Rightarrow> 'db world \<Rightarrow> (int \<times> 'db world) option" where
  "app_select_tcp_server_recv_cb recv_cb i n data buf w =
     (let c = uds_clients (uds w) ! i; fd = client_fd c in
      if n \<le> 0 then do {
        sv \<leftarrow> delete_select_client_event (uds_select (uds w)) (Uds_Client i) fd;
        let w = emit (Close fd) (set_uds_select sv w);
        Some (-1, set_client i (c\<lparr>client_fd := 0\<rparr>) w)
      }
      else do {
        buf \<leftarrow> wr_n buf 0 data;
        buf \<leftarrow> wr_n buf (nat n) [0];
        w \<leftarrow> (if client_cb_set c then recv_cb buf (nat n) w else Some w);
        Some (0, w)
      })"

definition uds_tcp_server_close :: "'db world \<Rightarrow> 'db world" where
  "uds_tcp_server_close w =
     (let w = (if uds_server_fd (uds w) \<noteq> 0 then emit (Close (uds_server_fd (uds w))) w else w) in
      fold (\<lambda>i w. let fd = client_fd (uds_clients (uds w) ! i) in if fd \<noteq> 0 then emit (Close fd) w else w)
        [0..<SELECT_TCP_MAX_CLIENT] w)"

text \<open>The part of \<open>uds_tcp_server_task\<close> before its loop; \<open>tcp_uds_server_init\<close> returned \<open>fd\<close>.\<close>

definition uds_tcp_server_start :: "int \<Rightarrow> 'db world \<Rightarrow> 'db world option" where
  "uds_tcp_server_start fd w = do {
     let w = set_uds_select (select_server_init (uds_select (uds w))) w;
     let w = w\<lparr>uds := (uds w)\<lparr>uds_server_fd := fd\<rparr>\<rparr>;
     (_, sv) \<leftarrow> add_select_client_event (uds_select (uds w)) Uds_Server fd;
     Some (set_uds_select sv w)
   }"

definition uds_tcp_server_task_deinit :: "'db world \<Rightarrow> 'db world" where
  "uds_tcp_server_task_deinit w = set_uds_select (select_server_deinit (uds_select (uds w))) w"

section \<open>Sending to the user interface\<close>

definition FRAME_HEADER :: byte where "FRAME_HEADER = 0xAA"
definition FRAME_TAIL :: byte where "FRAME_TAIL = 0xBB"

definition uds_frame :: "int \<Rightarrow> string \<Rightarrow> bytes" where
  "uds_frame seqid json =
     (let len = length json;
          mid = [0, byte_of_int (seqid div 256), byte_of_int (seqid mod 256),
                 byte_of_nat (len div 256), byte_of_nat len] @ bytes_of json
      in [FRAME_HEADER, FRAME_HEADER] @ mid @ [CheckSum mid, FRAME_TAIL, FRAME_TAIL])"

definition cJSON_Object_isNull :: "json \<Rightarrow> bool" where
  "cJSON_Object_isNull ob \<longleftrightarrow> (let json = cJSON_PrintUnformatted ob in length json = 2 \<and> json = ''{}'')"

definition send_event_uds :: "json \<Rightarrow> string option \<Rightarrow> 'db world \<Rightarrow> 'db world" where
  "send_event_uds send type w =
     (if cJSON_Object_isNull send then w
      else
        let root = cJSON_AddStringToObject cJSON_CreateObject ''Type'' (case type of None \<Rightarrow> ''EVENT'' | Some t \<Rightarrow> t);
            root = cJSON_AddItemToObject root ''Data'' send;
            json = cJSON_PrintUnformatted root
        in app_select_client_tcp_server_send (uds_frame (g_seqid (uds w)) json) w)"

section \<open>Lemmas\<close>

lemma Object_isNull_iff: "cJSON_Object_isNull j \<longleftrightarrow> j = JObj []"
  by (auto simp: cJSON_Object_isNull_def Let_def print_eq_empty_object)

lemma server_send_eq:
  "app_select_client_tcp_server_send data w =
    emit (Sock_Send (client_fd (uds_clients (uds w) ! 1)) data) (emit (Sock_Send (client_fd (uds_clients (uds w) ! 0)) data) w)"
  by (simp add: app_select_client_tcp_server_send_def SELECT_TCP_MAX_CLIENT_def upt_rec)

lemma send_event_uds_frame [simp]:
  "ecb (send_event_uds j t w) = ecb w" "gesture (send_event_uds j t w) = gesture w"
  "uds (send_event_uds j t w) = uds w" "linkkit (send_event_uds j t w) = linkkit w"
  "history (send_event_uds j t w) = history w" "g_cloud_dev (send_event_uds j t w) = g_cloud_dev w"
  "uart_buf (send_event_uds j t w) = uart_buf w"
  "gesture_registered (send_event_uds j t w) = gesture_registered w" "database (send_event_uds j t w) = database w"
  by (simp_all add: send_event_uds_def server_send_eq Let_def)

text \<open>The frames of one event, in the order they are sent.\<close>

definition uds_event_frame :: "'db world \<Rightarrow> json \<Rightarrow> string option \<Rightarrow> bytes" where
  "uds_event_frame w j t = uds_frame (g_seqid (uds w))
     (cJSON_PrintUnformatted (JObj [(''Type'', JStr (case t of None \<Rightarrow> ''EVENT'' | Some t \<Rightarrow> t)), (''Data'', j)]))"

lemma send_event_uds_trace:
  "trace (send_event_uds j t w) = trace w @
    (if j = JObj [] then [] else
       [Sock_Send (client_fd (uds_clients (uds w) ! 0)) (uds_event_frame w j t),
        Sock_Send (client_fd (uds_clients (uds w) ! 1)) (uds_event_frame w j t)])"
  by (simp add: send_event_uds_def Object_isNull_iff server_send_eq uds_event_frame_def cJSON_CreateObject_def Let_def)

section \<open>The invariant of the table\<close>

text \<open>The clients with a descriptor are those in the select table.\<close>

definition uds_inv :: "'db world \<Rightarrow> bool" where
  "uds_inv w \<longleftrightarrow> length (uds_clients (uds w)) = SELECT_TCP_MAX_CLIENT \<and>
     select_inv (uds_fd_of w) (uds_select (uds w)) \<and>
     set (clients (uds_select (uds w))) \<subseteq> insert Uds_Server (Uds_Client ` {0..<SELECT_TCP_MAX_CLIENT}) \<and>
     (\<forall>i < SELECT_TCP_MAX_CLIENT. Uds_Client i \<in> set (clients (uds_select (uds w))) \<longleftrightarrow> client_fd (uds_clients (uds w) ! i) \<noteq> 0)"

lemma select_inv_cong:
  assumes "\<And>p. p \<in> set (clients sv) \<Longrightarrow> f p = g p"
  shows "select_inv f sv = select_inv g sv"
proof -
  have m: "map f (clients sv) = map g (clients sv)" "f ` set (clients sv) = g ` set (clients sv)"
    using assms by auto
  show ?thesis unfolding select_inv_def m using assms by auto
qed

lemma set_client_simps [simp]:
  "uds_select (uds (set_client i c w)) = uds_select (uds w)"
  "uds_clients (uds (set_client i c w)) = (uds_clients (uds w))[i := c]"
  "uds_server_fd (uds (set_client i c w)) = uds_server_fd (uds w)"
  "trace (set_client i c w) = trace w"
  by (simp_all add: set_client_def)

lemma set_uds_select_simps [simp]:
  "uds_select (uds (set_uds_select sv w)) = sv"
  "uds_clients (uds (set_uds_select sv w)) = uds_clients (uds w)"
  "uds_server_fd (uds (set_uds_select sv w)) = uds_server_fd (uds w)"
  "trace (set_uds_select sv w) = trace w"
  "uds_fd_of (set_uds_select sv w) = uds_fd_of w"
  by (auto simp: set_uds_select_def uds_fd_of_def split: uds_client_ref.splits)

lemma uds_inv_count:
  assumes "uds_inv w" and "i < SELECT_TCP_MAX_CLIENT" and "client_fd (uds_clients (uds w) ! i) = 0"
  shows "length (clients (uds_select (uds w))) < SELECT_MAX_CLIENT"
proof -
  let ?cl = "clients (uds_select (uds w))"
  have d: "distinct ?cl" using assms(1) by (auto simp: uds_inv_def select_inv_def distinct_map)
  have "set ?cl \<subseteq> insert Uds_Server (Uds_Client ` ({0..<SELECT_TCP_MAX_CLIENT} - {i}))"
  proof
    fix p assume p: "p \<in> set ?cl"
    with assms(1) have "p \<in> insert Uds_Server (Uds_Client ` {0..<SELECT_TCP_MAX_CLIENT})"
      unfolding uds_inv_def by blast
    moreover have "p \<noteq> Uds_Client i" using p assms unfolding uds_inv_def by blast
    ultimately show "p \<in> insert Uds_Server (Uds_Client ` ({0..<SELECT_TCP_MAX_CLIENT} - {i}))" by auto
  qed
  then have "card (set ?cl) \<le> card (insert Uds_Server (Uds_Client ` ({0..<SELECT_TCP_MAX_CLIENT} - {i})))"
    by (intro card_mono) auto
  also have "\<dots> \<le> Suc (card ({0..<SELECT_TCP_MAX_CLIENT} - {i}))"
    by (simp add: card_insert_if card_image_le le_SucI)
  also have "\<dots> < SELECT_MAX_CLIENT"
    using assms(2) by (simp add: SELECT_TCP_MAX_CLIENT_def SELECT_MAX_CLIENT_def)
  finally show ?thesis using distinct_card [OF d] by simp
qed

text \<open>A connection that is accepted while a slot is free.\<close>

lemma add_client_free:
  assumes inv: "uds_inv w" and i: "i < SELECT_TCP_MAX_CLIENT" "client_fd (uds_clients (uds w) ! i) = 0"
    and first: "\<forall>j < i. client_fd (uds_clients (uds w) ! j) \<noteq> 0"
    and fd: "0 < cfd" "cfd < 1024" "cfd \<notin> r_copy_fds (uds_select (uds w))"
  shows "\<exists>w'. app_add_tcp_select_client_event cfd w = Some (0, w') \<and> uds_inv w' \<and>
    uds_clients (uds w') = (uds_clients (uds w))[i := \<lparr>client_fd = cfd, client_cb_set = True\<rparr>] \<and>
    trace w' = trace w"
proof -
  let ?sv = "uds_select (uds w)" and ?c = "\<lparr>client_fd = cfd, client_cb_set = True\<rparr>"
  let ?w = "set_client i ?c w"
  have len: "length (uds_clients (uds w)) = SELECT_TCP_MAX_CLIENT" using inv by (simp add: uds_inv_def)
  have search: "find_idx (\<lambda>i. do { c \<leftarrow> rd (uds_clients (uds w)) i; Some (client_fd c = 0) }) 0 SELECT_TCP_MAX_CLIENT = Some i"
    by (rule find_idx_first) (use i first len in \<open>auto simp: rd_def\<close>)
  have new: "Uds_Client i \<notin> set (clients ?sv)" using inv i by (auto simp: uds_inv_def)
  have fdeq: "uds_fd_of ?w p = uds_fd_of w p" if "p \<noteq> Uds_Client i" for p
    using that by (cases p) (auto simp: uds_fd_of_def)
  have fdi: "uds_fd_of ?w (Uds_Client i) = cfd" using i len by (simp add: uds_fd_of_def)
  have "uds_fd_of ?w p = uds_fd_of w p" if "p \<in> set (clients ?sv)" for p
    using fdeq new that by metis
  then have "select_inv (uds_fd_of ?w) ?sv"
    using inv select_inv_cong [of ?sv "uds_fd_of ?w" "uds_fd_of w"] unfolding uds_inv_def by blast
  from add_select_spec [OF this, of "Uds_Client i"] fd uds_inv_count [OF inv i] fdi
  obtain sv' where add: "add_select_client_event ?sv (Uds_Client i) cfd = Some (0, sv')"
    "select_inv (uds_fd_of ?w) sv'" "set (clients sv') = insert (Uds_Client i) (set (clients ?sv))"
    by (auto simp: fd_ok_def)
  have "app_add_tcp_select_client_event cfd w = Some (0, set_uds_select sv' ?w)"
    using search add(1) i
    by (simp add: app_add_tcp_select_client_event_def SELECT_TCP_MAX_CLIENT_def SELECT_MAX_CLIENT_def)
  moreover have "uds_inv (set_uds_select sv' ?w)"
    using inv add(2,3) i fd len by (auto simp: uds_inv_def nth_list_update)
  ultimately show ?thesis by auto
qed

text \<open>A connection that is accepted while no slot is free.\<close>

lemma add_client_full:
  assumes "length (uds_clients (uds w)) = SELECT_TCP_MAX_CLIENT"
    and "\<forall>j < SELECT_TCP_MAX_CLIENT. client_fd (uds_clients (uds w) ! j) \<noteq> 0"
  shows "app_add_tcp_select_client_event cfd w = Some (0, w)"
proof -
  have "find_idx (\<lambda>i. do { c \<leftarrow> rd (uds_clients (uds w)) i; Some (client_fd c = 0) }) 0 SELECT_TCP_MAX_CLIENT =
      Some SELECT_TCP_MAX_CLIENT"
    by (rule find_idx_none) (use assms in \<open>auto simp: rd_def\<close>)
  then show ?thesis
    by (simp add: app_add_tcp_select_client_event_def SELECT_TCP_MAX_CLIENT_def SELECT_MAX_CLIENT_def)
qed

text \<open>A client that closes its connection.\<close>

lemma client_gone:
  assumes inv: "uds_inv w" and i: "i < SELECT_TCP_MAX_CLIENT" "client_fd (uds_clients (uds w) ! i) = fd"
    and fd: "0 < fd" "fd < 1024" and n: "n \<le> 0"
  shows "\<exists>w'. app_select_tcp_server_recv_cb cb i n data buf w = Some (-1, w') \<and> uds_inv w' \<and>
    client_fd (uds_clients (uds w') ! i) = 0 \<and> fd \<notin> r_copy_fds (uds_select (uds w')) \<and>
    trace w' = trace w @ [Close fd]"
proof -
  let ?sv = "uds_select (uds w)"
  have len: "length (uds_clients (uds w)) = SELECT_TCP_MAX_CLIENT" using inv by (simp add: uds_inv_def)
  have mem: "Uds_Client i \<in> set (clients ?sv)" using inv i fd by (auto simp: uds_inv_def)
  have fdi: "uds_fd_of w (Uds_Client i) = fd" using i by (simp add: uds_fd_of_def)
  have sinv: "select_inv (uds_fd_of w) ?sv" using inv by (simp add: uds_inv_def)
  from delete_select_spec [OF sinv mem] fd fdi
  obtain sv' where del: "delete_select_client_event ?sv (Uds_Client i) fd = Some sv'"
    "select_inv (uds_fd_of w) sv'" "set (clients sv') = set (clients ?sv) - {Uds_Client i}" "fd \<notin> r_copy_fds sv'"
    by (auto simp: fd_ok_def)
  let ?w = "set_client i ((uds_clients (uds w) ! i)\<lparr>client_fd := 0\<rparr>) (emit (Close fd) (set_uds_select sv' w))"
  have "app_select_tcp_server_recv_cb cb i n data buf w = Some (-1, ?w)"
    using del(1) i n by (simp add: app_select_tcp_server_recv_cb_def Let_def)
  moreover have "uds_fd_of ?w p = uds_fd_of w p" if "p \<noteq> Uds_Client i" for p
    using that by (cases p) (auto simp: uds_fd_of_def)
  then have "uds_fd_of ?w p = uds_fd_of w p" if "p \<in> set (clients sv')" for p
    using that del(3) by (metis DiffD2 insertI1)
  then have "select_inv (uds_fd_of ?w) sv'"
    using select_inv_cong [of sv' "uds_fd_of ?w" "uds_fd_of w"] del(2) by blast
  then have "uds_inv ?w"
    using inv del(3) i fd len by (auto simp: uds_inv_def nth_list_update)
  ultimately show ?thesis using del(4) len i by (intro exI [of _ ?w]) simp
qed

text \<open>A connection that is accepted, in both cases.\<close>

lemma accept_step:
  assumes "uds_inv w" and "0 < cfd" and "cfd < 1024" and "cfd \<notin> r_copy_fds (uds_select (uds w))"
  shows "\<exists>w'. app_select_tcp_server_accetp_cb cfd again w = Some (0, w') \<and> uds_inv w' \<and> trace w' = trace w \<and>
    (if \<exists>i < SELECT_TCP_MAX_CLIENT. client_fd (uds_clients (uds w) ! i) = 0
     then cfd \<in> r_copy_fds (uds_select (uds w')) else w' = w)"
proof (cases "\<exists>i < SELECT_TCP_MAX_CLIENT. client_fd (uds_clients (uds w) ! i) = 0")
  case True
  define i where "i = (LEAST i. i < SELECT_TCP_MAX_CLIENT \<and> client_fd (uds_clients (uds w) ! i) = 0)"
  have i: "i < SELECT_TCP_MAX_CLIENT" "client_fd (uds_clients (uds w) ! i) = 0"
    using True LeastI_ex [of "\<lambda>i. i < SELECT_TCP_MAX_CLIENT \<and> client_fd (uds_clients (uds w) ! i) = 0"]
    by (auto simp: i_def)
  have "client_fd (uds_clients (uds w) ! j) \<noteq> 0" if "j < i" for j
    using not_less_Least [of j "\<lambda>i. i < SELECT_TCP_MAX_CLIENT \<and> client_fd (uds_clients (uds w) ! i) = 0"]
      that i(1) unfolding i_def [symmetric] by simp
  then have "\<forall>j < i. client_fd (uds_clients (uds w) ! j) \<noteq> 0" by blast
  from add_client_free [OF assms(1) i this assms(2-4)]
  obtain w' where w': "app_add_tcp_select_client_event cfd w = Some (0, w')" "uds_inv w'" "trace w' = trace w"
    "uds_clients (uds w') = (uds_clients (uds w))[i := \<lparr>client_fd = cfd, client_cb_set = True\<rparr>]" by blast
  then have c: "client_fd (uds_clients (uds w') ! i) = cfd" using assms(1) i by (simp add: uds_inv_def)
  have "Uds_Client i \<in> set (clients (uds_select (uds w')))"
    using w'(2) i(1) c assms(2) by (simp add: uds_inv_def)
  moreover have "r_copy_fds (uds_select (uds w')) = uds_fd_of w' ` set (clients (uds_select (uds w')))"
    using w'(2) by (simp add: uds_inv_def select_inv_def)
  moreover have "uds_fd_of w' (Uds_Client i) = cfd" using c by (simp add: uds_fd_of_def)
  ultimately have "cfd \<in> r_copy_fds (uds_select (uds w'))" by (metis imageI)
  moreover have "app_select_tcp_server_accetp_cb cfd again w = Some (0, w')"
    using w'(1) assms(2) by (simp add: app_select_tcp_server_accetp_cb_def)
  ultimately show ?thesis using w'(2,3) True by metis
next
  case False
  then have "app_add_tcp_select_client_event cfd w = Some (0, w)"
    using add_client_full [of w cfd] assms(1) unfolding uds_inv_def by blast
  then have "app_select_tcp_server_accetp_cb cfd again w = Some (0, w)"
    using assms(2) by (simp add: app_select_tcp_server_accetp_cb_def)
  with False assms(1) show ?thesis by (intro exI [of _ w]) auto
qed

section \<open>Properties\<close>

text \<open>C26: A user interface that connects while a client slot is free is entered in both tables and the
  invariant between them is kept; when both slots are taken the new descriptor is neither entered
  nor closed, but reported as accepted: it leaks.\<close>

theorem uds_accept:
  assumes "uds_inv w" and "0 < cfd" and "cfd < 1024" and "cfd \<notin> r_copy_fds (uds_select (uds w))"
  shows "\<exists>w'. app_select_tcp_server_accetp_cb cfd again w = Some (0, w') \<and> uds_inv w' \<and> trace w' = trace w \<and>
    (if \<exists>i < SELECT_TCP_MAX_CLIENT. client_fd (uds_clients (uds w) ! i) = 0
     then cfd \<in> r_copy_fds (uds_select (uds w')) else w' = w)"
  by (rule accept_step [OF assms])

text \<open>The state after the server has started, used by the witnesses.\<close>

definition uds_started :: "unit world" where
  "uds_started = the (uds_tcp_server_start 5 (world_zero cloud_dev_zero ()))"

lemma uds_started_eq:
  "uds_started = (world_zero cloud_dev_zero ())\<lparr>uds := \<lparr>
     uds_select = \<lparr>rfds = {}, wfds = {}, efds = {}, r_copy_fds = {5}, select_client_event = [Some Uds_Server, None, None],
       select_client_num = 1, maxfd = 5, runing = 1\<rparr>,
     uds_server_fd = 5, uds_clients = replicate 2 \<lparr>client_fd = 0, client_cb_set = False\<rparr>, g_seqid = 0\<rparr>\<rparr>"
  by (simp add: uds_started_def uds_tcp_server_start_def world_zero_def select_server_zero_def select_server_init_def
      set_uds_select_def add_select_client_event_def SELECT_MAX_CLIENT_def find_idx.simps rd_def FD_SET_def fd_ok_def
      numeral_eq_Suc)

lemma uds_inv_started: "uds_inv uds_started"
  by (simp add: uds_inv_def uds_started_eq select_inv_def clients_def map_filter_def uds_fd_of_def
      SELECT_MAX_CLIENT_def SELECT_TCP_MAX_CLIENT_def less_Suc_eq numeral_2_eq_2)

lemma uds_accept_witness:
  "\<exists>w'. app_select_tcp_server_accetp_cb 7 True uds_started = Some (0, w') \<and> uds_inv w' \<and> trace w' = trace uds_started \<and>
    (if \<exists>i < SELECT_TCP_MAX_CLIENT. client_fd (uds_clients (uds uds_started) ! i) = 0
     then 7 \<in> r_copy_fds (uds_select (uds w')) else w' = uds_started)"
  by (rule uds_accept [OF uds_inv_started]) (simp_all add: uds_started_eq)

text \<open>C27: When a client's connection ends, its descriptor is closed, no longer watched and removed
  from both tables; its slot is free again and the invariant is kept.\<close>

theorem uds_client_disconnects:
  assumes "uds_inv w" and "i < SELECT_TCP_MAX_CLIENT" and "client_fd (uds_clients (uds w) ! i) = fd"
    and "0 < fd" and "fd < 1024" and "n \<le> 0"
  shows "\<exists>w'. app_select_tcp_server_recv_cb cb i n data buf w = Some (-1, w') \<and> uds_inv w' \<and>
    client_fd (uds_clients (uds w') ! i) = 0 \<and> fd \<notin> r_copy_fds (uds_select (uds w')) \<and>
    trace w' = trace w @ [Close fd]"
  by (rule client_gone [OF assms])

lemma uds_client_disconnects_witness:
  "\<exists>w. \<exists>w'. app_select_tcp_server_accetp_cb 7 True uds_started = Some (0, w) \<and>
    app_select_tcp_server_recv_cb (\<lambda>_ _. Some) 0 0 [] [] w = Some (-1, w') \<and> uds_inv w' \<and>
    client_fd (uds_clients (uds w') ! 0) = 0 \<and> 7 \<notin> r_copy_fds (uds_select (uds w')) \<and>
    trace w' = trace w @ [Close 7]"
proof -
  have "\<exists>w. app_add_tcp_select_client_event 7 uds_started = Some (0, w) \<and> uds_inv w \<and>
      uds_clients (uds w) = (uds_clients (uds uds_started))[0 := \<lparr>client_fd = 7, client_cb_set = True\<rparr>] \<and>
      trace w = trace uds_started"
    by (rule add_client_free [OF uds_inv_started]) (simp_all add: uds_started_eq SELECT_TCP_MAX_CLIENT_def)
  then obtain w where w: "app_add_tcp_select_client_event 7 uds_started = Some (0, w)" "uds_inv w"
    "client_fd (uds_clients (uds w) ! 0) = 7"
    by (auto simp: uds_started_eq)
  have "\<exists>w'. app_select_tcp_server_recv_cb (\<lambda>_ _. Some) 0 0 [] [] w = Some (-1, w') \<and> uds_inv w' \<and>
    client_fd (uds_clients (uds w') ! 0) = 0 \<and> 7 \<notin> r_copy_fds (uds_select (uds w')) \<and>
    trace w' = trace w @ [Close 7]"
    by (rule uds_client_disconnects [OF w(2) _ w(3)]) (simp_all add: SELECT_TCP_MAX_CLIENT_def)
  moreover have "app_select_tcp_server_accetp_cb 7 True uds_started = Some (0, w)"
    using w(1) by (simp add: app_select_tcp_server_accetp_cb_def)
  ultimately show ?thesis by blast
qed

end
