(* ===== verification/X50_Gesture_Link.thy ===== *)
theory X50_Gesture_Link
  imports X50_World X50_Crc X50_Uart_Stream
begin

text \<open>
  The link to the gesture board (\<open>uart/gesture_uart.c\<close>): the display messages sent to it, the time
  and alarm synchronisation, and the part of \<open>gesture_uart_parse_msg\<close> that finds and checks a frame.
  What the frames make the program do is in \<open>X50_Gesture\<close>.

  A received frame has ten bytes: \<open>aa, type, length, command, data1, data2, hour, minute, checksum (2)\<close>.
\<close>

section \<open>Sending\<close>

definition gesture_uart_send :: "'db env \<Rightarrow> bytes \<Rightarrow> 'db world \<Rightarrow> int \<times> 'db world" where
  "gesture_uart_send env data w =
     (if gesture_fd (gesture w) \<le> 0 then (-1, w)
      else if data = [] then (0, w)
      else (env_gesture_write env data, emit (Gesture_Write data) w))"

definition gesture_data1 :: "bool \<Rightarrow> bool \<Rightarrow> bool \<Rightarrow> byte" where
  "gesture_data1 whole_show sync alarm =
     (let data1 = (0 :: byte) OR push_bit 0 1;
          data1 = (if sync then data1 OR push_bit 3 1 else data1);
          data1 = (if alarm then data1 OR push_bit 4 1 else data1)
      in if whole_show then data1 OR push_bit 2 1 else data1)"

definition gesture_frame :: "bool \<Rightarrow> bool \<Rightarrow> byte \<Rightarrow> byte \<Rightarrow> bool \<Rightarrow> bytes" where
  "gesture_frame whole_show sync hour minute alarm =
     (let msg = [0xaa, 0x01, 8, 0x01, gesture_data1 whole_show sync alarm, hour, minute];
          verify = msg_verify msg
      in msg @ [byte_of_nat (unat verify), byte_of_nat (unat verify div 256)])"

definition gesture_send_msg ::
  "'db env \<Rightarrow> bool \<Rightarrow> bool \<Rightarrow> byte \<Rightarrow> byte \<Rightarrow> bool \<Rightarrow> 'db world \<Rightarrow> int \<times> 'db world" where
  "gesture_send_msg env whole_show sync hour minute alarm =
     gesture_uart_send env (gesture_frame whole_show sync hour minute alarm)"

text \<open>Times before 2022-01-01 mean that the clock has not been set.\<close>

definition gesture_sync_time_and_alarm :: "'db env \<Rightarrow> bool \<Rightarrow> bool \<Rightarrow> 'db world \<Rightarrow> 'db world" where
  "gesture_sync_time_and_alarm env state alarm w =
     snd (if state then
            (let systemTime = env_time env in
             if systemTime < 1640966400 then gesture_send_msg env False True 0xff 0xff alarm w
             else case env_localtime env systemTime of (hour, minute) \<Rightarrow>
               gesture_send_msg env False True (byte_of_int hour) (byte_of_int minute) alarm w)
          else gesture_send_msg env False False 0 0 alarm w)"

definition gesture_sync_time_cb :: "'db env \<Rightarrow> bool \<Rightarrow> 'db world \<Rightarrow> 'db world" where
  "gesture_sync_time_cb env state = gesture_sync_time_and_alarm env state False"

definition gesture_auto_sync_time_alarm :: "'db env \<Rightarrow> bool \<Rightarrow> 'db world \<Rightarrow> 'db world" where
  "gesture_auto_sync_time_alarm env alarm w =
     (if env_wifi_state env = RK_WIFI_State_CONNECTED env then gesture_sync_time_and_alarm env True alarm w
      else gesture_sync_time_and_alarm env False alarm w)"

text \<open>The two timers: every hour, and every 25 seconds.\<close>

definition gesture_POSIXTimer_cb :: "'db env \<Rightarrow> int \<Rightarrow> 'db world \<Rightarrow> 'db world" where
  "gesture_POSIXTimer_cb env sival_int w =
     (if sival_int = 1 then gesture_auto_sync_time_alarm env False w
      else if sival_int = 2 then
        (if env_wifi_state env = RK_WIFI_State_CONNECTED env then snd (gesture_send_msg env False True 0xff 0xff False w)
         else snd (gesture_send_msg env False False 0 0 False w))
      else w)"

text \<open>The time from the cloud, in milliseconds; \<open>time_t\<close> has 32 bits on the target.\<close>

definition gesture_link_timestamp_cb :: "'db env \<Rightarrow> string \<Rightarrow> 'db world \<Rightarrow> 'db world" where
  "gesture_link_timestamp_cb env timestamp w =
     (case strtoull10 timestamp of
        None \<Rightarrow> w
      | Some val \<Rightarrow> (case env_localtime env (i32 (val div 1000)) of (hour, minute) \<Rightarrow>
          snd (gesture_send_msg env False True (byte_of_int hour) (byte_of_int minute) False w)))"

section \<open>Finding and checking a frame\<close>

text \<open>The two data bytes of a frame that is acted on.\<close>

definition gesture_check ::
  "bytes \<Rightarrow> nat \<Rightarrow> nat \<Rightarrow> (ecb_uart_read_status_t \<times> int \<times> (byte \<times> byte) option) option" where
  "gesture_check buf in_len index =
     (if in_len - index < 10 then Some (ECB_UART_READ_LEN_SMALL, int index, None)
      else do {
        msg_len \<leftarrow> rd buf (index + 2);
        v1 \<leftarrow> rd buf (index + 8);
        v0 \<leftarrow> rd buf (index + 9);
        msg \<leftarrow> rd_n buf index 8;
        if msg_verify msg \<noteq> word_of_nat (be16 v1 v0) then
          Some (ECB_UART_READ_CHECK_ERR, int (index + 10), None)
        else do {
          data1 \<leftarrow> rd buf (index + 4);
          data2 \<leftarrow> rd buf (index + 5);
          Some (ECB_UART_READ_VALID, int (index + 10), if msg_len > 0 then Some (data1, data2) else None)
        }
      })"

definition gesture_scan ::
  "bytes \<Rightarrow> nat \<Rightarrow> int \<Rightarrow> (ecb_uart_read_status_t \<times> int \<times> (byte \<times> byte) option) option" where
  "gesture_scan buf in_len end' =
     (if in_len < 1 then Some (ECB_UART_READ_LEN_SMALL, 0, None)
      else do {
        index \<leftarrow> find_idx (\<lambda>i. do { b \<leftarrow> rd buf i; Some (b = 0xaa) }) 0 in_len;
        if index \<ge> in_len then Some (ECB_UART_READ_NO_HEADER, end', None)
        else gesture_check buf in_len index
      })"

definition gesture_collect :: "(byte \<times> byte) list frame_func" where
  "gesture_collect buf n e evs = do {
     (st, e, ev) \<leftarrow> gesture_scan buf n e;
     Some (st, e, case ev of None \<Rightarrow> evs | Some d \<Rightarrow> evs @ [d])
   }"

section \<open>The scan meets the contract of the receive loop\<close>

lemma gesture_search:
  assumes "n \<le> length buf"
  shows "\<exists>k. find_idx (\<lambda>i. do { b \<leftarrow> rd buf i; Some (b = 0xaa) }) 0 n = Some k \<and> k \<le> n"
  using find_idx_ex [of 0 n "\<lambda>i. do { b \<leftarrow> rd buf i; Some (b = 0xaa) }"] assms
  by (auto simp: rd_def)

lemma gesture_check_total:
  assumes "n \<le> length buf" and "k < n"
  shows "gesture_check buf n k \<noteq> None"
proof -
  have "i < n \<Longrightarrow> rd buf i = Some (buf ! i)" for i using assms(1) by (simp add: mem_simps)
  moreover have "i + l \<le> n \<Longrightarrow> rd_n buf i l = Some (take l (drop i buf))" for i l
    using assms(1) by (simp add: mem_simps)
  ultimately show ?thesis by (simp add: gesture_check_def)
qed

lemma gesture_check_post:
  assumes "gesture_check buf n k = Some (st, e', ev)" and "k < n"
  shows "st \<noteq> ECB_UART_READ_NO_HEADER \<and> 0 \<le> e' \<and> e' \<le> int n \<and>
    (st \<noteq> ECB_UART_READ_LEN_SMALL \<longrightarrow> 0 < e')"
  using assms by (auto simp: gesture_check_def option_bind_Some_iff split: if_splits)

lemma gesture_scan_total:
  assumes "n \<le> length buf"
  shows "gesture_scan buf n e \<noteq> None"
proof -
  obtain k where k: "find_idx (\<lambda>i. do { b \<leftarrow> rd buf i; Some (b = 0xaa) }) 0 n = Some k" "k \<le> n"
    using gesture_search [OF assms] by blast
  show ?thesis
  proof (cases "n \<le> k")
    case True
    with k show ?thesis by (simp add: gesture_scan_def)
  next
    case False
    with gesture_check_total [OF assms, of k] k show ?thesis by (simp add: gesture_scan_def)
  qed
qed

lemma gesture_scan_cases:
  assumes "gesture_scan buf n e = Some (st, e', ev)"
  obtains "n < 1" "st = ECB_UART_READ_LEN_SMALL" "e' = 0" "ev = None"
    | k where "1 \<le> n" "find_idx (\<lambda>i. do { b \<leftarrow> rd buf i; Some (b = 0xaa) }) 0 n = Some k" "n \<le> k"
      "st = ECB_UART_READ_NO_HEADER" "e' = e" "ev = None"
    | k where "1 \<le> n" "find_idx (\<lambda>i. do { b \<leftarrow> rd buf i; Some (b = 0xaa) }) 0 n = Some k" "k < n"
      "gesture_check buf n k = Some (st, e', ev)"
proof (cases "n < 1")
  case True
  with assms that(1) show ?thesis by (simp add: gesture_scan_def)
next
  case False
  with assms obtain k where k: "find_idx (\<lambda>i. do { b \<leftarrow> rd buf i; Some (b = 0xaa) }) 0 n = Some k"
    "(if k \<ge> n then Some (ECB_UART_READ_NO_HEADER, e, None) else gesture_check buf n k) = Some (st, e', ev)"
    by (auto simp: gesture_scan_def option_bind_Some_iff)
  show ?thesis
  proof (cases "k \<ge> n")
    case True
    with False k that(2) [of k] show ?thesis by simp
  next
    case less: False
    with False k that(3) [of k] show ?thesis by simp
  qed
qed

lemma gesture_scan_post:
  assumes "gesture_scan buf n e = Some (st, e', ev)"
  shows "st = ECB_UART_READ_NO_HEADER \<and> e' = e \<or>
    st = ECB_UART_READ_LEN_SMALL \<and> 0 \<le> e' \<and> e' \<le> int n \<or>
    st \<noteq> ECB_UART_READ_NO_HEADER \<and> st \<noteq> ECB_UART_READ_LEN_SMALL \<and> 0 < e' \<and> e' \<le> int n"
  using assms
proof (cases rule: gesture_scan_cases)
  case (3 k)
  with gesture_check_post [of buf n k st e' ev] show ?thesis by auto
qed auto

lemma gesture_scan_end_free:
  assumes "gesture_scan buf n e = Some (st, e', ev)"
  shows "gesture_scan buf n e2 = Some (st, if st = ECB_UART_READ_NO_HEADER then e2 else e', ev)"
  using assms
proof (cases rule: gesture_scan_cases)
  case (3 k)
  with gesture_check_post [of buf n k st e' ev] show ?thesis by (simp add: gesture_scan_def)
qed (simp_all add: gesture_scan_def)

interpretation gesture_scanner: frame_scanner gesture_scan "\<lambda>_. True"
  by unfold_locales
    (use gesture_scan_post in blast, use gesture_scan_end_free in blast, use gesture_scan_total in blast, simp)

lemma gesture_collect_parse:
  "gesture_collect = parse_with gesture_scan (\<lambda>ev evs. Some (case ev of None \<Rightarrow> evs | Some d \<Rightarrow> evs @ [d]))"
  by (simp add: fun_eq_iff gesture_collect_def parse_with_def)

interpretation gesture_rx: total_frame_stream gesture_collect "\<lambda>_. True"
  unfolding gesture_collect_parse by (rule gesture_scanner.reacting) simp

section \<open>Frames of the gesture board\<close>

definition gesture_rx_frame :: "bytes \<Rightarrow> bytes" where
  "gesture_rx_frame msg = (let v = msg_verify msg in msg @ [byte_of_nat (unat v div 256), byte_of_nat (unat v)])"

lemma gesture_scan_frame:
  assumes "length msg = 8" and "hd msg = 0xaa" and "10 \<le> n"
    and "F = msg @ [v1, v0] @ rest"
  shows "gesture_scan F n e =
    (if msg_verify msg \<noteq> word_of_nat (be16 v1 v0) then Some (ECB_UART_READ_CHECK_ERR, 10, None)
     else Some (ECB_UART_READ_VALID, 10, if msg ! 2 > 0 then Some (msg ! 4, msg ! 5) else None))"
proof -
  have "F ! 0 = 0xaa" using assms(1,2,4) by (cases msg) auto
  then have "find_idx (\<lambda>i. do { b \<leftarrow> rd F i; Some (b = 0xaa) }) 0 n = Some 0"
    using assms(1,3,4) by (intro find_idx_hit) (simp_all add: rd_def)
  moreover have "rd F 2 = Some (msg ! 2)" "rd F 4 = Some (msg ! 4)" "rd F 5 = Some (msg ! 5)"
    "rd F 8 = Some v1" "rd F 9 = Some v0" "rd_n F 0 8 = Some msg"
    using assms(1,4) by (simp_all add: rd_def rd_n_def nth_append)
  ultimately show ?thesis using assms(3)
    by (simp add: gesture_scan_def gesture_check_def del: add_2_eq_Suc')
qed

section \<open>Properties\<close>

text \<open>The display messages are the byte sequences the comment above \<open>gesture_send_msg\<close> lists
  (the first shows everything and sets 3:04, the others set 1:02, show only, and set an unknown
  time).\<close>

theorem gesture_frames_as_documented:
  "gesture_frame True True 3 4 False = [0xaa, 0x01, 0x08, 0x01, 0x0d, 0x03, 0x04, 0x37, 0xff] \<and>
   gesture_frame False True 1 2 False = [0xaa, 0x01, 0x08, 0x01, 0x09, 0x01, 0x02, 0x3f, 0xff] \<and>
   gesture_frame False False 0 0 False = [0xaa, 0x01, 0x08, 0x01, 0x01, 0x00, 0x00, 0x4a, 0xff] \<and>
   gesture_frame False True 0xff 0xff False = [0xaa, 0x01, 0x08, 0x01, 0x09, 0xff, 0xff, 0x44, 0xfd] \<and>
   gesture_frame False False 0xff 0xff False = [0xaa, 0x01, 0x08, 0x01, 0x01, 0xff, 0xff, 0x4c, 0xfd]"
  by (simp add: gesture_frame_def gesture_data1_def msg_verify_def byte_of_nat_def Let_def)



text \<open>Whatever bytes the gesture board sends, the read callback with the frame scan returns and
  stays within its buffer.\<close>

theorem gesture_reception_total:
  assumes "i \<le> length buf"
  shows "\<exists>rest buf' i' evs'. uart_recv_cb gesture_collect e avail (buf, i) evs = Some (rest, (buf', i'), evs') \<and>
    length buf' = length buf \<and> i' \<le> length buf"
  using gesture_rx.recv_total [OF TrueI assms, of e avail evs] by blast

lemma gesture_reception_total_witness:
  "\<exists>rest buf' i' evs'. uart_recv_cb gesture_collect 0 [0xaa, 1, 6] (replicate 256 0, 3) [] = Some (rest, (buf', i'), evs') \<and>
    length buf' = length (replicate 256 (0 :: byte)) \<and> i' \<le> length (replicate 256 (0 :: byte))"
  by (rule gesture_reception_total) simp

end
