(* ===== verification/X50_Database.thy ===== *)
theory X50_Database
  imports X50_World
begin

text \<open>
  The sqlite tables of recipes and of the cooking history (\<open>databse/database.c\<close>): the SQL text each
  function builds in its buffer, the bindings, and the rows read back into \<open>recipes_t\<close>.

  sqlite itself is the parameter \<open>env_sqlite\<close>. A statement is run to its end at once, because the
  row callbacks never touch the database.
\<close>

section \<open>SQL text\<close>

definition HISTORY_TABLE_NAME :: string where "HISTORY_TABLE_NAME = ''history''"
definition RECIPE_TABLE_NAME :: string where "RECIPE_TABLE_NAME = ''recipe''"
definition RECIPES_FILE :: string where "RECIPES_FILE = ''Recipes''"

definition create_table :: "string \<Rightarrow> string" where
  "create_table t = ''CREATE TABLE '' @ t @ ''(    ID INTEGER PRIMARY KEY AUTOINCREMENT,    SEQID INTEGER UNIQUE NOT NULL,    DISHNAME TEXT NOT NULL,    IMGURL TEXT,    DETAILS TEXT,    COOKSTEPS TEXT NOT NULL,    TIMESTAMP INTEGER,    COLLECT INTEGER,    COOKTYPE INTEGER,    RECIPETYPE INTEGER,    COOKPOS INTEGER);''"

definition sql_select_id :: "string \<Rightarrow> string" where
  "sql_select_id t = ''SELECT * FROM '' @ t @ '' WHERE ID = ?;''"

definition sql_select_seqid :: "string \<Rightarrow> string" where
  "sql_select_seqid t = ''SELECT * FROM '' @ t @ '' WHERE SEQID = ?;''"

definition sql_select_dishname :: "string \<Rightarrow> string" where
  "sql_select_dishname t = ''SELECT * FROM '' @ t @ '' WHERE DISHNAME = ?;''"

definition sql_select :: "string \<Rightarrow> string" where
  "sql_select t = ''SELECT * FROM '' @ t @ '';''"

definition sql_insert_replace :: "string \<Rightarrow> string" where
  "sql_insert_replace t = ''INSERT OR REPLACE INTO '' @ t @ '' VALUES (NULL,?,?,?,?,?,?,?,?,?,?);''"

definition sql_insert :: "string \<Rightarrow> string" where
  "sql_insert t = ''INSERT INTO '' @ t @ '' VALUES (NULL,?,?,?,?,?,?,?,?,?,?);''"

definition sql_update :: "string \<Rightarrow> string \<Rightarrow> string" where
  "sql_update t k = ''UPDATE '' @ t @ '' SET '' @ k @ '' = ? WHERE ID = ?;''"

definition sql_delete :: "string \<Rightarrow> string" where
  "sql_delete t = ''DELETE FROM '' @ t @ '' WHERE ID = ?;''"

definition sql_clear_table :: "string \<Rightarrow> string" where
  "sql_clear_table t = ''DELETE FROM '' @ t @ '';''"

definition sql_clear_table_seq :: "string \<Rightarrow> string" where
  "sql_clear_table_seq t = ''DELETE FROM sqlite_sequence WHERE name = '' @ t @ '';''"

definition sql_drop_table :: "string \<Rightarrow> string" where
  "sql_drop_table t = ''DROP TABLE '' @ t @ '';''"

section \<open>Running statements\<close>

definition db_exec :: "'db env \<Rightarrow> string \<Rightarrow> 'db world \<Rightarrow> int \<times> 'db world" where
  "db_exec env sql w = (case sqlite3_exec (env_sqlite env) sql (database w) of
     (ok, db) \<Rightarrow> (if ok then 0 else 1, w\<lparr>database := db\<rparr>))"

definition db_run ::
  "'db env \<Rightarrow> string \<Rightarrow> sql_arg list \<Rightarrow> 'db world \<Rightarrow> ((sql_col list list \<times> int) option \<times> 'db world)" where
  "db_run env sql args w =
     (if \<not> sqlite3_prepare (env_sqlite env) sql (database w) then (None, w)
      else case sqlite3_run (env_sqlite env) sql args (database w) of
        (rows, rc, db) \<Rightarrow> (Some (rows, rc), w\<lparr>database := db\<rparr>))"

definition databse_drop_table :: "'db env \<Rightarrow> string \<Rightarrow> 'db world \<Rightarrow> (int \<times> 'db world) option" where
  "databse_drop_table env t w = do {
     buf \<leftarrow> str_fits 128 (sql_drop_table t);
     let (rc, w) = db_exec env buf w;
     Some (if rc \<noteq> 0 then -1 else 0, w)
   }"

definition databse_clear_table :: "'db env \<Rightarrow> string \<Rightarrow> 'db world \<Rightarrow> (int \<times> 'db world) option" where
  "databse_clear_table env t w = do {
     buf \<leftarrow> str_fits 128 (sql_clear_table t);
     let (rc, w) = db_exec env buf w;
     if rc \<noteq> 0 then Some (-1, w)
     else do {
       buf \<leftarrow> str_fits 128 (sql_clear_table_seq t);
       let (rc, w) = db_exec env buf w;
       Some (if rc \<noteq> 0 then -1 else 0, w)
     }
   }"

definition db_change :: "'db env \<Rightarrow> string \<Rightarrow> sql_arg list \<Rightarrow> 'db world \<Rightarrow> (int \<times> 'db world) option" where
  "db_change env sql args w = do {
     buf \<leftarrow> str_fits 128 sql;
     case db_run env buf args w of (None, w) \<Rightarrow> Some (-1, w) | (Some _, w) \<Rightarrow> Some (0, w)
   }"

definition delete_row_from_table :: "'db env \<Rightarrow> string \<Rightarrow> int \<Rightarrow> 'db world \<Rightarrow> (int \<times> 'db world) option" where
  "delete_row_from_table env t i = db_change env (sql_delete t) [Sql_Int i]"

definition update_key_to_table ::
  "'db env \<Rightarrow> string \<Rightarrow> string \<Rightarrow> int \<Rightarrow> int \<Rightarrow> 'db world \<Rightarrow> (int \<times> 'db world) option" where
  "update_key_to_table env t key val i = db_change env (sql_update t key) [Sql_Int val, Sql_Int i]"

definition update_key_string_table ::
  "'db env \<Rightarrow> string \<Rightarrow> string \<Rightarrow> string \<Rightarrow> int \<Rightarrow> 'db world \<Rightarrow> (int \<times> 'db world) option" where
  "update_key_string_table env t key val i = db_change env (sql_update t key) [Sql_Text val, Sql_Int i]"

definition row_args :: "recipes \<Rightarrow> sql_arg list" where
  "row_args r = [Sql_Int (r_seqid r), Sql_Text (r_dishName r), Sql_Text (r_imgUrl r), Sql_Text (r_details r),
     Sql_Text (r_cookSteps r), Sql_Int (r_timestamp r), Sql_Int (r_collect r), Sql_Int (r_cookType r),
     Sql_Int (r_recipeType r), Sql_Int (r_cookPos r)]"

definition insert_row_to_table :: "'db env \<Rightarrow> string \<Rightarrow> recipes \<Rightarrow> 'db world \<Rightarrow> (int \<times> 'db world) option" where
  "insert_row_to_table env t r = db_change env (sql_insert t) (row_args r)"

definition insert_replace_row_to_table :: "'db env \<Rightarrow> string \<Rightarrow> recipes \<Rightarrow> 'db world \<Rightarrow> (int \<times> 'db world) option" where
  "insert_replace_row_to_table env t r = db_change env (sql_insert_replace t) (row_args r)"

section \<open>Reading rows\<close>

text \<open>\<open>strcpy\<close> of a text column into a field of \<open>n\<close> bytes: a NULL or a longer text is fatal.\<close>

definition text_field :: "nat \<Rightarrow> sql_col \<Rightarrow> string option" where
  "text_field n c = do { s \<leftarrow> col_text c; str_fits n s }"

definition recipes_of_row :: "sql_col list \<Rightarrow> recipes option" where
  "recipes_of_row row = do {
     c0 \<leftarrow> rd row 0; c1 \<leftarrow> rd row 1;
     c2 \<leftarrow> rd row 2; dish \<leftarrow> text_field 48 c2;
     c3 \<leftarrow> rd row 3; img \<leftarrow> text_field 80 c3;
     c4 \<leftarrow> rd row 4; det \<leftarrow> text_field 960 c4;
     c5 \<leftarrow> rd row 5; steps \<leftarrow> text_field 180 c5;
     c6 \<leftarrow> rd row 6; c7 \<leftarrow> rd row 7; c8 \<leftarrow> rd row 8; c9 \<leftarrow> rd row 9; c10 \<leftarrow> rd row 10;
     Some \<lparr>r_id = col_int c0, r_seqid = col_int c1, r_dishName = dish, r_imgUrl = img, r_details = det,
       r_cookSteps = steps, r_timestamp = col_int c6, r_collect = col_int c7, r_cookType = col_int c8,
       r_recipeType = col_int c9, r_cookPos = col_int c10\<rparr>
   }"

text \<open>The loop over \<open>sqlite3_step\<close> with the row callback, which works on its argument and the program.\<close>

definition select_rows ::
  "'db env \<Rightarrow> string \<Rightarrow> sql_arg list \<Rightarrow> (recipes \<Rightarrow> 'a \<times> 'db world \<Rightarrow> ('a \<times> 'db world) option) \<Rightarrow> 'a \<times> 'db world \<Rightarrow>
     (int \<times> 'a \<times> 'db world) option" where
  "select_rows env sql args select_func st = do {
     buf \<leftarrow> str_fits 128 sql;
     case db_run env buf args (snd st) of
       (None, w) \<Rightarrow> Some (-1, fst st, w)
     | (Some (rows, rc), w) \<Rightarrow> do {
         (a, w) \<leftarrow> foldM (\<lambda>row st. do { r \<leftarrow> recipes_of_row row; select_func r st }) rows (fst st, w);
         Some (rc, a, w)
       }
   }"

definition select_from_table ::
  "'db env \<Rightarrow> string \<Rightarrow> (recipes \<Rightarrow> 'a \<times> 'db world \<Rightarrow> ('a \<times> 'db world) option) \<Rightarrow> 'a \<times> 'db world \<Rightarrow>
     (int \<times> 'a \<times> 'db world) option" where
  "select_from_table env t = select_rows env (sql_select t) []"

definition select_seqid_from_table ::
  "'db env \<Rightarrow> string \<Rightarrow> int \<Rightarrow> (recipes \<Rightarrow> 'a \<times> 'db world \<Rightarrow> ('a \<times> 'db world) option) \<Rightarrow> 'a \<times> 'db world \<Rightarrow>
     (int \<times> 'a \<times> 'db world) option" where
  "select_seqid_from_table env t seqid = select_rows env (sql_select_seqid t) [Sql_Int seqid]"

text \<open>One step only: the first row, if any, replaces what \<open>arg\<close> points to.\<close>

definition select_first ::
  "'db env \<Rightarrow> string \<Rightarrow> sql_arg list \<Rightarrow> recipes \<Rightarrow> 'db world \<Rightarrow> (int \<times> recipes \<times> 'db world) option" where
  "select_first env sql args arg w = do {
     buf \<leftarrow> str_fits 128 sql;
     case db_run env buf args w of
       (Some (row # _, _), w) \<Rightarrow> do { r \<leftarrow> recipes_of_row row; Some (0, r, w) }
     | (_, w) \<Rightarrow> Some (-1, arg, w)
   }"

definition select_dishname_from_table ::
  "'db env \<Rightarrow> string \<Rightarrow> string \<Rightarrow> recipes \<Rightarrow> 'db world \<Rightarrow> (int \<times> recipes \<times> 'db world) option" where
  "select_dishname_from_table env t dishname = select_first env (sql_select_dishname t) [Sql_Text dishname]"

definition select_id_from_table ::
  "'db env \<Rightarrow> string \<Rightarrow> int \<Rightarrow> recipes \<Rightarrow> 'db world \<Rightarrow> (int \<times> recipes \<times> 'db world) option" where
  "select_id_from_table env t i = select_first env (sql_select_id t) [Sql_Int i]"

section \<open>Creating the tables\<close>

definition databse_create_table :: "'db env \<Rightarrow> string \<Rightarrow> 'db world \<Rightarrow> (int \<times> 'db world) option" where
  "databse_create_table env t w = do {
     buf \<leftarrow> str_fits 512 (create_table t);
     Some (db_exec env buf w)
   }"

text \<open>The recipe of a profile entry: \<open>recipes\<close> is one variable for the whole loop, so an entry
  without \<open>seqid\<close> keeps the previous one. A missing member is a NULL pointer that is followed.\<close>

definition recipe_entry :: "json \<Rightarrow> recipes \<Rightarrow> recipes option" where
  "recipe_entry sub r = do {
     let it = cJSON_GetObjectItem (Some sub);
     let r = (case it ''seqid'' of None \<Rightarrow> r | Some n \<Rightarrow> r\<lparr>r_seqid := valueint n\<rparr>);
     d \<leftarrow> do { j \<leftarrow> it ''dishName''; s \<leftarrow> valuestring j; str_fits 48 s };
     i \<leftarrow> do { j \<leftarrow> it ''imgUrl''; s \<leftarrow> valuestring j; str_fits 80 s };
     c \<leftarrow> do { j \<leftarrow> it ''cookSteps''; s \<leftarrow> valuestring j; str_fits 180 s };
     e \<leftarrow> do { j \<leftarrow> it ''details''; s \<leftarrow> valuestring j; str_fits 960 s };
     ct \<leftarrow> it ''cookType'';
     rt \<leftarrow> it ''recipeType'';
     cp \<leftarrow> it ''cookPos'';
     Some (r\<lparr>r_dishName := d, r_imgUrl := i, r_cookSteps := c, r_details := e,
       r_cookType := valueint ct, r_recipeType := valueint rt, r_cookPos := valueint cp\<rparr>)
   }"

definition recipes_parse_json :: "'db env \<Rightarrow> string \<Rightarrow> 'db world \<Rightarrow> 'db world option" where
  "recipes_parse_json env str w =
     (case cJSON_Parse str of
        None \<Rightarrow> Some w
      | Some root \<Rightarrow>
          if \<not> cJSON_HasObjectItem (Some root) ''RecipesVersion'' then Some w
          else case cJSON_GetObjectItem (Some root) ''recipes'' of
            None \<Rightarrow> Some w
          | Some attr \<Rightarrow> do {
              (_, w) \<leftarrow> foldM (\<lambda>i (r, w).
                case cJSON_GetArrayItem (Some attr) i of
                  None \<Rightarrow> Some (r, w)
                | Some sub \<Rightarrow> do {
                    r \<leftarrow> recipe_entry sub r;
                    (_, w) \<leftarrow> insert_replace_row_to_table env RECIPE_TABLE_NAME r w;
                    Some (r, w)
                  }) [0..<cJSON_GetArraySize (Some attr)] (recipes_zero, w);
              Some w
            })"

text \<open>\<open>get_dev_profile\<close> of \<open>liblinktool/tool/commonFunc.c\<close> up to the call of the parser: the text
  of the file, when there is one and it is not empty. (The buffer the file is read into has no room
  for a terminating NUL; that the byte behind it is zero is taken for granted here.)\<close>

definition get_dev_profile :: "'db env \<Rightarrow> string \<Rightarrow> string \<Rightarrow> string option" where
  "get_dev_profile env path modelId =
     (case env_file env (take 63 (path @ ''/'' @ modelId @ ''.json'')) of
        None \<Rightarrow> None
      | Some s \<Rightarrow> if s = [] then None else Some s)"

definition database_init :: "'db env \<Rightarrow> 'db world \<Rightarrow> (int \<times> 'db world) option" where
  "database_init env w = do {
     (_, w) \<leftarrow> databse_create_table env HISTORY_TABLE_NAME w;
     (rc, w) \<leftarrow> databse_create_table env RECIPE_TABLE_NAME w;
     w \<leftarrow> (if rc = 0 then
             (case get_dev_profile env ''.'' RECIPES_FILE of None \<Rightarrow> Some w | Some str \<Rightarrow> recipes_parse_json env str w)
           else Some w);
     Some (0, w)
   }"

section \<open>Lemmas\<close>

definition sql_widths :: "recipes \<Rightarrow> bool" where
  "sql_widths r \<longleftrightarrow> length (r_dishName r) < 48 \<and> length (r_imgUrl r) < 80 \<and>
     length (r_details r) < 960 \<and> length (r_cookSteps r) < 180"

text \<open>A row as sqlite gives it back for a row that was inserted.\<close>

definition row_of :: "recipes \<Rightarrow> sql_col list" where
  "row_of r = [Sql_Col (r_id r) None, Sql_Col (r_seqid r) None, Sql_Col 0 (Some (r_dishName r)),
     Sql_Col 0 (Some (r_imgUrl r)), Sql_Col 0 (Some (r_details r)), Sql_Col 0 (Some (r_cookSteps r)),
     Sql_Col (r_timestamp r) None, Sql_Col (r_collect r) None, Sql_Col (r_cookType r) None,
     Sql_Col (r_recipeType r) None, Sql_Col (r_cookPos r) None]"

lemma recipes_of_row_of: "sql_widths r \<Longrightarrow> recipes_of_row (row_of r) = Some r"
  by (simp add: recipes_of_row_def row_of_def rd_def text_field_def str_fits_def sql_widths_def)

lemma recipes_of_row_widths: "recipes_of_row row = Some r \<Longrightarrow> sql_widths r"
  by (auto simp: recipes_of_row_def text_field_def str_fits_def sql_widths_def option_bind_Some_iff split: if_splits)

lemma db_change_frame:
  assumes "db_change env sql args w = Some (rc, w')"
  shows "ecb w' = ecb w" "gesture w' = gesture w" "uds w' = uds w" "linkkit w' = linkkit w"
    "history w' = history w" "g_cloud_dev w' = g_cloud_dev w" "trace w' = trace w"
    "gesture_registered w' = gesture_registered w"
  using assms
  by (auto simp: db_change_def db_run_def option_bind_Some_iff split: if_splits prod.splits option.splits)

text \<open>The statements fit the buffer for the two tables of the program.\<close>

lemma sql_fits:
  assumes "t = HISTORY_TABLE_NAME \<or> t = RECIPE_TABLE_NAME"
  shows "length (sql_select t) < 128" "length (sql_select_id t) < 128" "length (sql_select_seqid t) < 128"
    "length (sql_select_dishname t) < 128" "length (sql_insert t) < 128" "length (sql_insert_replace t) < 128"
    "length (sql_delete t) < 128" "length (sql_clear_table t) < 128" "length (sql_clear_table_seq t) < 128"
    "length (sql_drop_table t) < 128" "length k \<le> 90 \<Longrightarrow> length (sql_update t k) < 128"
    "length (create_table t) < 512"
  using assms
  by (auto simp: HISTORY_TABLE_NAME_def RECIPE_TABLE_NAME_def sql_select_def sql_select_id_def sql_select_seqid_def
      sql_select_dishname_def sql_insert_def sql_insert_replace_def sql_delete_def sql_clear_table_def
      sql_clear_table_seq_def sql_drop_table_def sql_update_def create_table_def)

lemma db_change_total:
  assumes "length sql < 128"
  shows "\<exists>rc w'. db_change env sql args w = Some (rc, w')"
  using assms by (auto simp: db_change_def str_fits_def split: prod.splits option.splits)

end
