(* ===== verification/X50_Linkkit.thy ===== *)
theory X50_Linkkit
  imports X50_Uds_Link X50_Gesture_Link X50_Database
begin

text \<open>
  The link to the Alibaba cloud: what is posted and when (\<open>aliyun/linkkit_solo.c\<close>), the firmware
  update with its state (\<open>aliyun/linkkit_ota.c\<close> with the callbacks of \<open>ota/ota_task.c\<close>), the reset of
  the binding (\<open>aliyun/linkkit_reset.c\<close>), and the connection and token callbacks of
  \<open>wifi/wifi_task.c\<close> and \<open>device/device_task.c\<close>.

  The SDK (\<open>IOT_Linkkit_*\<close>) is the environment: its calls are effects and their results are fields
  of \<open>env\<close>. The callbacks are those the program registers when it starts.
\<close>

section \<open>Posting\<close>

definition linkkit_user_post_property :: "string option \<Rightarrow> 'db world \<Rightarrow> 'db world" where
  "linkkit_user_post_property property_payload w =
     (case property_payload of
        None \<Rightarrow> w
      | Some p \<Rightarrow>
          if cloud_connected (linkkit w) = 0 then w
          else if g_ota_state (linkkit w) = OTA_DOWNLOAD_START then w
          else emit (Post_Property p) w)"

definition linkkit_user_post_event :: "string option \<Rightarrow> string option \<Rightarrow> 'db world \<Rightarrow> 'db world" where
  "linkkit_user_post_event event_id event_payload w =
     (case event_id of
        None \<Rightarrow> w
      | Some i \<Rightarrow>
          if cloud_connected (linkkit w) = 0 then w
          else if g_ota_state (linkkit w) = OTA_DOWNLOAD_START then w
          else emit (Post_Event i (case event_payload of None \<Rightarrow> ''{}'' | Some p \<Rightarrow> p)) w)"

section \<open>Firmware update\<close>

text \<open>\<open>ota_state_event\<close> of \<open>ota/ota_task.c\<close>, the callback of \<open>set_ota_state\<close>; the new version is
  kept in 64 bytes.\<close>

definition ota_state_event :: "ota_type \<Rightarrow> string option \<Rightarrow> 'db world \<Rightarrow> 'db world option" where
  "ota_state_event state arg w = do {
     let root = cJSON_CreateObject;
     (root, w) \<leftarrow>
       (if state = OTA_NEW_FIRMWARE then do {
          a \<leftarrow> arg;
          v \<leftarrow> str_fits 64 a;
          Some (cJSON_AddStringToObject root ''OTANewVersion'' v, w\<lparr>linkkit := (linkkit w)\<lparr>ota_new_version := v\<rparr>\<rparr>)
        }
        else Some (root, w));
     let root = cJSON_AddNumberToObject root ''OTAState'' (ota_number (g_ota_state (linkkit w)));
     Some (send_event_uds root None w)
   }"

definition set_ota_state :: "ota_type \<Rightarrow> string option \<Rightarrow> 'db world \<Rightarrow> 'db world option" where
  "set_ota_state ota_state arg w =
     ota_state_event ota_state arg (w\<lparr>linkkit := (linkkit w)\<lparr>g_ota_state := ota_state\<rparr>\<rparr>)"

definition ota_progress_cb :: "int \<Rightarrow> 'db world \<Rightarrow> 'db world" where
  "ota_progress_cb percent w = send_event_uds (cJSON_AddNumberToObject cJSON_CreateObject ''OTAProgress'' percent) None w"

definition fota_event_handler :: "string \<Rightarrow> 'db world \<Rightarrow> 'db world option" where
  "fota_event_handler version w = set_ota_state OTA_NEW_FIRMWARE (Some version) (emit (Timer_Set ''ota'' 0 0) w)"

definition request_fota_image :: "'db env \<Rightarrow> 'db world \<Rightarrow> (int \<times> 'db world) option" where
  "request_fota_image env w = do {
     w \<leftarrow> set_ota_state OTA_IDLE None w;
     let v = g_ota_version (linkkit w);
     let w = emit (Link_Query ITM_MSG_REQUEST_FOTA_IMAGE v) w;
     let res = env_query env ITM_MSG_REQUEST_FOTA_IMAGE v;
     w \<leftarrow> (if res \<noteq> 0 then set_ota_state OTA_NO_FIRMWARE None w else Some (emit (Timer_Set ''ota'' 0 10) w));
     Some (res, w)
   }"

text \<open>The timer of the request: no answer came.\<close>

definition ota_POSIXTimer_cb :: "'db world \<Rightarrow> 'db world option" where
  "ota_POSIXTimer_cb w = set_ota_state OTA_NO_FIRMWARE None w"

text \<open>\<open>databse_ota_complete_cb_cb\<close> of \<open>databse/database_task.c\<close>, registered as \<open>ota_complete_cb\<close>.\<close>

definition databse_ota_complete_cb_cb :: "'db env \<Rightarrow> 'db world \<Rightarrow> 'db world option" where
  "databse_ota_complete_cb_cb env w = map_option snd (databse_drop_table env RECIPE_TABLE_NAME w)"

text \<open>During the query the SDK reports the progress of the download.\<close>

definition download_fota_image :: "'db env \<Rightarrow> 'db world \<Rightarrow> (int \<times> 'db world) option" where
  "download_fota_image env w = do {
     w \<leftarrow> set_ota_state OTA_DOWNLOAD_START None w;
     let w = emit (Link_Query ITM_MSG_QUERY_FOTA_DATA '''') w;
     let w = fold ota_progress_cb (env_fota_percents env) w;
     let res = env_query env ITM_MSG_QUERY_FOTA_DATA '''';
     if res \<noteq> 0 then do {
       w \<leftarrow> set_ota_state OTA_DOWNLOAD_FAIL None w;
       Some (res, w)
     }
     else do {
       w \<leftarrow> set_ota_state OTA_DOWNLOAD_SUCCESS None w;
       let w = emit (Sleep 1) w;
       w \<leftarrow> set_ota_state OTA_INSTALL_START None w;
       let w = emit (System ''chmod 777 /tmp/upgrade.bin'') w;
       let w = emit (System ''cd /tmp &&/tmp/upgrade.bin'') w;
       w \<leftarrow> databse_ota_complete_cb_cb env w;
       w \<leftarrow> set_ota_state OTA_INSTALL_SUCCESS None w;
       let w = emit Sync w;
       Some (res, emit Reboot w)
     }
   }"

text \<open>The cloud announces firmware.\<close>

definition user_fota_event_handler :: "'db env \<Rightarrow> int \<Rightarrow> 'db world \<Rightarrow> 'db world option" where
  "user_fota_event_handler env type w =
     (if type = 0 then
        (let ota_state = g_ota_state (linkkit w) in
         if ota_state = OTA_IDLE \<or> ota_state = OTA_NO_FIRMWARE \<or> ota_state = OTA_DOWNLOAD_FAIL \<or> ota_state = OTA_INSTALL_FAIL
         then map_option snd (download_fota_image env w) else Some w)
      else Some w)"

definition user_fota_module_event_handler :: "int \<Rightarrow> 'db world \<Rightarrow> 'db world" where
  "user_fota_module_event_handler type w = (if type = 0 then emit (Link_Query ITM_MSG_QUERY_FOTA_DATA '''') w else w)"

definition user_cota_event_handler :: "int \<Rightarrow> 'db world \<Rightarrow> 'db world" where
  "user_cota_event_handler type w = (if type = 0 then emit (Link_Query ITM_MSG_QUERY_COTA_DATA '''') w else w)"

definition linkkit_ota_init :: "string \<Rightarrow> 'db world \<Rightarrow> 'db world option" where
  "linkkit_ota_init version w = do {
     v \<leftarrow> str_fits 64 version;
     Some (w\<lparr>linkkit := (linkkit w)\<lparr>g_ota_version := v\<rparr>\<rparr>)
   }"

section \<open>Unbinding\<close>

definition set_kv_rst :: "byte \<Rightarrow> 'db world \<Rightarrow> 'db world" where
  "set_kv_rst b w = w\<lparr>linkkit := (linkkit w)\<lparr>kv_rst := Some b\<rparr>\<rparr>"

definition linkkit_dev_reset :: "'db env \<Rightarrow> 'db world \<Rightarrow> int \<times> 'db world" where
  "linkkit_dev_reset env w = (case meta_quad (linkkit w) of (pk, _, dn, _) \<Rightarrow>
     if length pk = 0 \<or> length dn = 0 then (-1, w)
     else let res = env_reset_report env; w = emit (DevReset_Report pk dn) w in
       (if res < 0 then -1 else res, w))"

definition linkkit_unbind :: "'db env \<Rightarrow> 'db world \<Rightarrow> int \<times> 'db world" where
  "linkkit_unbind env w = linkkit_dev_reset env (set_kv_rst 1 w)"

text \<open>\<open>HAL_Kv_Get\<close> fails when the flag was never stored.\<close>

definition linkkit_unbind_check :: "'db env \<Rightarrow> 'db world \<Rightarrow> int \<times> 'db world" where
  "linkkit_unbind_check env w =
     (case kv_rst (linkkit w) of
        None \<Rightarrow> (-1, w)
      | Some rst \<Rightarrow> if rst = 0 then (-1, w) else linkkit_dev_reset env w)"

text \<open>The cloud has confirmed the reset.\<close>

definition linkkit_devrst_evt_handle :: "bool \<Rightarrow> 'db world \<Rightarrow> 'db world" where
  "linkkit_devrst_evt_handle received w = (if received then set_kv_rst 0 w else w)"

section \<open>Connection and token\<close>

text \<open>\<open>wiFiReport\<close> of \<open>wifi/wifi_task.c\<close>; \<open>wifi_connected_cb\<close> is set once \<open>gesture_uart_init\<close> has run.\<close>

definition wiFiReport :: "'db env \<Rightarrow> int \<Rightarrow> 'db world \<Rightarrow> 'db world" where
  "wiFiReport env event w =
     (let w = (if gesture_registered w then
                 (if event = RK_WIFI_State_CONNECTED env then gesture_sync_time_cb env True w
                  else if event = RK_WIFI_State_DISCONNECTED env then gesture_sync_time_cb env False w
                  else w)
               else w)
      in send_event_uds (cJSON_AddNumberToObject cJSON_CreateObject ''WifiState'' event) None w)"

definition wiFiCallback :: "'db env \<Rightarrow> int \<Rightarrow> 'db world \<Rightarrow> 'db world" where
  "wiFiCallback env event w =
     (if event = RK_WIFI_State_CONNECTED env \<and> cloud_connected (linkkit w) = 0 then w else wiFiReport env event w)"

definition linkkit_connected_cb :: "'db env \<Rightarrow> bool \<Rightarrow> 'db world \<Rightarrow> 'db world" where
  "linkkit_connected_cb env connect w =
     (if connect then wiFiReport env (RK_WIFI_State_CONNECTED env) w
      else wiFiReport env (RK_WIFI_State_DISCONNECTED env) w)"

definition user_connect_fail_event_handler :: "'db env \<Rightarrow> 'db world \<Rightarrow> 'db world" where
  "user_connect_fail_event_handler env w =
     linkkit_connected_cb env False (w\<lparr>linkkit := (linkkit w)\<lparr>cloud_connected := 0\<rparr>\<rparr>)"

definition user_disconnected_event_handler :: "'db env \<Rightarrow> 'db world \<Rightarrow> 'db world" where
  "user_disconnected_event_handler env w =
     linkkit_connected_cb env False (w\<lparr>linkkit := (linkkit w)\<lparr>cloud_connected := 0\<rparr>\<rparr>)"

definition user_initialized :: "'db world \<Rightarrow> 'db world" where
  "user_initialized w = w\<lparr>linkkit := (linkkit w)\<lparr>master_initialized := 1\<rparr>\<rparr>"

definition user_timestamp_reply_event_handler :: "'db env \<Rightarrow> string \<Rightarrow> 'db world \<Rightarrow> 'db world" where
  "user_timestamp_reply_event_handler env timestamp w =
     (if gesture_registered w then gesture_link_timestamp_cb env timestamp w else w)"

text \<open>\<open>STATE_BIND_*\<close> of the SDK's \<open>infra_state.h\<close>, and the callback of \<open>device/device_task.c\<close>.\<close>

datatype bind_state =
    STATE_BIND_REPORT_TOKEN
  | STATE_BIND_REPORT_TOKEN_SUCCESS
  | STATE_BIND_RECV_TOKEN_QUERY
  | STATE_BIND_ASSEMBLE_APP_TOKEN_FAILED
  | STATE_BIND_TOKEN_EXPIRED
  | STATE_BIND_REPORT_RESET_SUCCESS
  | STATE_BIND_RECV_CLOUD_NOTIFY

definition device_token_state_cb :: "int \<Rightarrow> 'db world \<Rightarrow> 'db world" where
  "device_token_state_cb state w =
     send_event_uds (cJSON_AddNumberToObject cJSON_CreateObject ''BindTokenState'' state) None w"

definition set_token_state :: "int \<Rightarrow> 'db world \<Rightarrow> 'db world" where
  "set_token_state n w = (device_token_state_cb n w)\<lparr>linkkit := (linkkit w)\<lparr>token_state := n\<rparr>\<rparr>"

text \<open>A notification is only parsed and printed, but its \<open>Operation\<close> is compared as a string, which
  is fatal when it is none.\<close>

definition user_state_dev_bind :: "'db env \<Rightarrow> bind_state \<Rightarrow> string \<Rightarrow> 'db world \<Rightarrow> 'db world option" where
  "user_state_dev_bind env ev msg w =
     (case ev of
        STATE_BIND_REPORT_TOKEN \<Rightarrow> Some (set_token_state 0 w)
      | STATE_BIND_REPORT_TOKEN_SUCCESS \<Rightarrow> Some (set_token_state 1 w)
      | STATE_BIND_RECV_TOKEN_QUERY \<Rightarrow> Some w
      | STATE_BIND_ASSEMBLE_APP_TOKEN_FAILED \<Rightarrow> Some w
      | STATE_BIND_TOKEN_EXPIRED \<Rightarrow> Some (set_token_state 2 w)
      | STATE_BIND_REPORT_RESET_SUCCESS \<Rightarrow> Some w
      | STATE_BIND_RECV_CLOUD_NOTIFY \<Rightarrow>
          (case cJSON_GetObjectItem (cJSON_Parse msg) ''value'' of
             None \<Rightarrow> Some w
           | Some value \<Rightarrow> (case cJSON_GetObjectItem (Some value) ''Operation'' of
               None \<Rightarrow> Some w
             | Some operation \<Rightarrow> (case valuestring operation of None \<Rightarrow> None | Some _ \<Rightarrow> Some w))))"

section \<open>Start\<close>

text \<open>\<open>linkkit_init\<close>: the quadruple goes into the SDK's record, whose fields have 21, 65, 33 and 65
  bytes, and the version into the OTA module.\<close>

definition linkkit_init_meta ::
  "string \<Rightarrow> string \<Rightarrow> string \<Rightarrow> string \<Rightarrow> string \<Rightarrow> 'db world \<Rightarrow> 'db world option" where
  "linkkit_init_meta pk ps dn ds version w = do {
     pk \<leftarrow> str_fits 21 pk;
     ps \<leftarrow> str_fits 65 ps;
     dn \<leftarrow> str_fits 33 dn;
     ds \<leftarrow> str_fits 65 ds;
     linkkit_ota_init version (w\<lparr>linkkit := (linkkit w)\<lparr>meta_quad := (pk, ps, dn, ds)\<rparr>\<rparr>)
   }"

text \<open>Repeating a call until its result is not negative, with a pause of \<open>ms\<close> milliseconds in between:
  \<open>results\<close> are the results of successive calls, and \<open>None\<close> says that none of them ended the loop.\<close>

fun retry :: "nat \<Rightarrow> int list \<Rightarrow> 'db world \<Rightarrow> (int \<times> 'db world) option" where
  "retry ms [] w = None"
| "retry ms (r # rs) w = (if r \<ge> 0 then Some (r, w) else retry ms rs (emit (Sleep_Ms ms) w))"

text \<open>\<open>linkkit_main\<close> up to its loop, for successive results of \<open>IOT_Linkkit_Open\<close> and
  \<open>IOT_Linkkit_Connect\<close> (the pauses are 2000 and 5000 ms).\<close>

definition linkkit_main_start :: "int list \<Rightarrow> int list \<Rightarrow> 'db world \<Rightarrow> 'db world option" where
  "linkkit_main_start opens connects w = do {
     let w = w\<lparr>linkkit := (linkkit w)\<lparr>master_devid := 0, cloud_connected := 0, master_initialized := 0,
                linkkit_runing := 0, token_state := 0\<rparr>\<rparr>;
     (devid, w) \<leftarrow> retry 2000 opens w;
     let w = w\<lparr>linkkit := (linkkit w)\<lparr>master_devid := devid\<rparr>\<rparr>;
     (_, w) \<leftarrow> retry 5000 connects w;
     Some (w\<lparr>linkkit := (linkkit w)\<lparr>linkkit_runing := 1\<rparr>\<rparr>)
   }"

definition linkkit_close :: "'db world \<Rightarrow> 'db world" where
  "linkkit_close w = w\<lparr>linkkit := (linkkit w)\<lparr>linkkit_runing := 0\<rparr>\<rparr>"

section \<open>Lemmas\<close>

fun is_post :: "effect \<Rightarrow> bool" where
  "is_post (Post_Property p) = True"
| "is_post (Post_Event i p) = True"
| "is_post _ = False"

definition posts :: "effect list \<Rightarrow> effect list" where
  "posts = filter is_post"

definition ota_event :: "'db world \<Rightarrow> ota_type \<Rightarrow> json" where
  "ota_event w st = JObj [(''OTAState'', JNum (ota_number st))]"

lemma set_ota_state_eq:
  assumes "st \<noteq> OTA_NEW_FIRMWARE"
  shows "set_ota_state st arg w =
    Some (send_event_uds (ota_event w st) None (w\<lparr>linkkit := (linkkit w)\<lparr>g_ota_state := st\<rparr>\<rparr>))"
  using assms by (simp add: set_ota_state_def ota_state_event_def cJSON_CreateObject_def ota_event_def)

text \<open>What a handler of the update adds to the trace: socket frames and the effects listed, never a
  post.\<close>

definition ota_ext :: "effect set \<Rightarrow> 'db world \<Rightarrow> 'db world \<Rightarrow> bool" where
  "ota_ext A w w' \<longleftrightarrow> (\<exists>new. trace w' = trace w @ new \<and> (\<forall>e \<in> set new. e \<in> A \<or> (\<exists>fd d. e = Sock_Send fd d)))"

lemma ota_ext_refl [simp]: "ota_ext A w w"
  by (simp add: ota_ext_def)

lemma ota_ext_emit: "ota_ext A w w' \<Longrightarrow> e \<in> A \<Longrightarrow> ota_ext A w (emit e w')"
  unfolding ota_ext_def by auto

lemma ota_ext_send: "ota_ext A w w' \<Longrightarrow> ota_ext A w (send_event_uds j t w')"
  unfolding ota_ext_def by (auto simp: send_event_uds_trace)

lemma ota_ext_state: "ota_ext A w w' \<Longrightarrow> ota_ext A w (w'\<lparr>linkkit := l\<rparr>)"
  unfolding ota_ext_def by auto

lemma ota_ext_db: "ota_ext A w w' \<Longrightarrow> ota_ext A w (w'\<lparr>database := d\<rparr>)"
  unfolding ota_ext_def by auto

lemma ota_ext_progress: "ota_ext A w w' \<Longrightarrow> ota_ext A w (fold ota_progress_cb ps w')"
  by (induction ps arbitrary: w') (auto simp: ota_progress_cb_def ota_ext_send)

lemmas ota_ext_intros = ota_ext_emit ota_ext_send ota_ext_state ota_ext_db ota_ext_progress ota_ext_refl

lemma progress_frame [simp]:
  "linkkit (fold ota_progress_cb ps w) = linkkit w" "database (fold ota_progress_cb ps w) = database w"
  by (induction ps arbitrary: w) (simp_all add: ota_progress_cb_def)

lemma drop_recipes_eq:
  "databse_ota_complete_cb_cb env w =
    Some (w\<lparr>database := snd (sqlite3_exec (env_sqlite env) (sql_drop_table RECIPE_TABLE_NAME) (database w))\<rparr>)"
  using sql_fits(10) [of RECIPE_TABLE_NAME]
  by (simp add: databse_ota_complete_cb_cb_def databse_drop_table_def str_fits_def db_exec_def split: prod.splits)

lemma set_ota_state_ext:
  assumes "st \<noteq> OTA_NEW_FIRMWARE" and "ota_ext A u w"
  shows "\<exists>w'. set_ota_state st arg w = Some w' \<and> g_ota_state (linkkit w') = st \<and> database w' = database w \<and> ota_ext A u w'"
  using assms by (auto simp: set_ota_state_eq intro!: ota_ext_intros)

section \<open>Properties\<close>

text \<open>C19: A download always comes to an end in one of two ways. If the query fails, the state is
  \<open>OTA_DOWNLOAD_FAIL\<close>, the database is untouched and the board does not restart. If it succeeds, the
  state is \<open>OTA_INSTALL_SUCCESS\<close>, the recipe table has been dropped and the last thing the board does
  is to sync and restart. Nothing is posted to the cloud on either way.\<close>

theorem ota_download_outcome:
  "\<exists>w' new. download_fota_image env w = Some (env_query env ITM_MSG_QUERY_FOTA_DATA [], w') \<and>
    trace w' = trace w @ new \<and> posts new = [] \<and>
    (if env_query env ITM_MSG_QUERY_FOTA_DATA [] \<noteq> 0
     then g_ota_state (linkkit w') = OTA_DOWNLOAD_FAIL \<and> database w' = database w \<and> Reboot \<notin> set new
     else g_ota_state (linkkit w') = OTA_INSTALL_SUCCESS \<and>
       database w' = snd (sqlite3_exec (env_sqlite env) (sql_drop_table RECIPE_TABLE_NAME) (database w)) \<and>
       (\<exists>pre. new = pre @ [Sync, Reboot] \<and> Reboot \<notin> set pre))"
proof (cases "env_query env ITM_MSG_QUERY_FOTA_DATA [] = 0")
  case False
  let ?A = "{Link_Query ITM_MSG_QUERY_FOTA_DATA []}"
  obtain w' where w': "download_fota_image env w = Some (env_query env ITM_MSG_QUERY_FOTA_DATA [], w')"
    and s: "g_ota_state (linkkit w') = OTA_DOWNLOAD_FAIL" "database w' = database w" and e: "ota_ext ?A w w'"
    using False by (auto simp: download_fota_image_def set_ota_state_eq Let_def intro!: ota_ext_intros)
  from e obtain new where "trace w' = trace w @ new" "\<forall>e \<in> set new. e \<in> ?A \<or> (\<exists>fd d. e = Sock_Send fd d)"
    by (auto simp: ota_ext_def)
  moreover from this have "posts new = []" "Reboot \<notin> set new"
    by (auto simp: posts_def filter_empty_conv)
  ultimately show ?thesis using w' s False by auto
next
  case True
  let ?A = "{Link_Query ITM_MSG_QUERY_FOTA_DATA [], Sleep 1, System ''chmod 777 /tmp/upgrade.bin'',
    System ''cd /tmp &&/tmp/upgrade.bin''}"
  obtain w1 where w1: "set_ota_state OTA_DOWNLOAD_START None w = Some w1" "database w1 = database w" "ota_ext ?A w w1"
    using set_ota_state_ext [of OTA_DOWNLOAD_START ?A w w None] by auto
  define w2 where "w2 = fold ota_progress_cb (env_fota_percents env) (emit (Link_Query ITM_MSG_QUERY_FOTA_DATA []) w1)"
  have w2: "database w2 = database w" "ota_ext ?A w w2"
    unfolding w2_def using w1 by (auto intro!: ota_ext_intros)
  obtain w3 where w3: "set_ota_state OTA_DOWNLOAD_SUCCESS None w2 = Some w3" "database w3 = database w" "ota_ext ?A w w3"
    using set_ota_state_ext [of OTA_DOWNLOAD_SUCCESS ?A w w2 None] w2 by auto
  obtain w4 where w4: "set_ota_state OTA_INSTALL_START None (emit (Sleep 1) w3) = Some w4" "database w4 = database w"
      "ota_ext ?A w w4"
    using set_ota_state_ext [of OTA_INSTALL_START ?A w "emit (Sleep 1) w3" None] w3 by (auto intro!: ota_ext_emit)
  define w5 where "w5 = (emit (System ''cd /tmp &&/tmp/upgrade.bin'') (emit (System ''chmod 777 /tmp/upgrade.bin'') w4))
    \<lparr>database := snd (sqlite3_exec (env_sqlite env) (sql_drop_table RECIPE_TABLE_NAME) (database w))\<rparr>"
  have w5: "ota_ext ?A w w5" unfolding w5_def using w4(3) by (intro ota_ext_db ota_ext_emit) auto
  obtain w' where w6: "set_ota_state OTA_INSTALL_SUCCESS None w5 = Some w'" "database w' = database w5" "ota_ext ?A w w'"
      "g_ota_state (linkkit w') = OTA_INSTALL_SUCCESS"
    using set_ota_state_ext [of OTA_INSTALL_SUCCESS ?A w w5 None] w5 by auto
  have w': "download_fota_image env w = Some (0, emit Reboot (emit Sync w'))"
    using True w1(1) w3(1) w4(1,2) w6(1) by (simp add: download_fota_image_def Let_def drop_recipes_eq w2_def w5_def)
  have s: "g_ota_state (linkkit w') = OTA_INSTALL_SUCCESS"
      "database w' = snd (sqlite3_exec (env_sqlite env) (sql_drop_table RECIPE_TABLE_NAME) (database w))"
    using w6(2,4) by (simp_all add: w5_def)
  note e = w6(3)
  from e obtain new where new: "trace w' = trace w @ new" "\<forall>e \<in> set new. e \<in> ?A \<or> (\<exists>fd d. e = Sock_Send fd d)"
    by (auto simp: ota_ext_def)
  have "is_post e = False \<and> e \<noteq> Reboot" if "e \<in> ?A \<or> (\<exists>fd d. e = Sock_Send fd d)" for e
    using that by (elim disjE) (simp_all, auto)
  with new(2) have "posts new = []" "Reboot \<notin> set new"
    by (simp_all add: posts_def filter_empty_conv) blast+
  then show ?thesis using w' s True new(1)
    by (intro exI [of _ "emit Reboot (emit Sync w')"] exI [of _ "new @ [Sync, Reboot]"]) (simp add: posts_def)
qed

section \<open>Reachable update states\<close>

inductive ota_reachable :: "'db world \<Rightarrow> bool" where
  start: "g_ota_state (linkkit w) = OTA_IDLE \<Longrightarrow> ota_reachable w"
| request: "ota_reachable w \<Longrightarrow> request_fota_image env w = Some (r, w') \<Longrightarrow> ota_reachable w'"
| download: "ota_reachable w \<Longrightarrow> download_fota_image env w = Some (r, w') \<Longrightarrow> ota_reachable w'"
| timer: "ota_reachable w \<Longrightarrow> ota_POSIXTimer_cb w = Some w' \<Longrightarrow> ota_reachable w'"
| answer: "ota_reachable w \<Longrightarrow> fota_event_handler version w = Some w' \<Longrightarrow> ota_reachable w'"
| announce: "ota_reachable w \<Longrightarrow> user_fota_event_handler env type w = Some w' \<Longrightarrow> ota_reachable w'"
| other: "ota_reachable w \<Longrightarrow> g_ota_state (linkkit w') = g_ota_state (linkkit w) \<Longrightarrow> ota_reachable w'"

definition ota_resting :: "ota_type \<Rightarrow> bool" where
  "ota_resting st \<longleftrightarrow> st \<in> {OTA_IDLE, OTA_NO_FIRMWARE, OTA_NEW_FIRMWARE, OTA_DOWNLOAD_FAIL, OTA_INSTALL_SUCCESS}"

lemma set_ota_state_post: "set_ota_state st arg w = Some w' \<Longrightarrow> g_ota_state (linkkit w') = st"
  by (cases "st = OTA_NEW_FIRMWARE")
    (auto simp: set_ota_state_eq set_ota_state_def ota_state_event_def option_bind_Some_iff)

lemma request_resting: "request_fota_image env w = Some (r, w') \<Longrightarrow> ota_resting (g_ota_state (linkkit w'))"
  by (auto simp: request_fota_image_def set_ota_state_eq ota_resting_def Let_def split: if_splits)

lemma download_resting: "download_fota_image env w = Some (r, w') \<Longrightarrow> ota_resting (g_ota_state (linkkit w'))"
  by (auto simp: download_fota_image_def set_ota_state_eq drop_recipes_eq ota_resting_def Let_def split: if_splits)

text \<open>C20: Between two handlers the update is always in one of five states: a download, once started,
  is never left half done, and \<open>OTA_INSTALL_FAIL\<close>, which the announcement handler tests for, is never
  entered. In particular posting is never blocked between handlers.\<close>

theorem ota_rests_between_handlers:
  assumes "ota_reachable w"
  shows "ota_resting (g_ota_state (linkkit w)) \<and> g_ota_state (linkkit w) \<noteq> OTA_INSTALL_FAIL \<and>
    (cloud_connected (linkkit w) \<noteq> 0 \<longrightarrow>
      trace (linkkit_user_post_property (Some p) w) = trace w @ [Post_Property p])"
proof -
  from assms have r: "ota_resting (g_ota_state (linkkit w))"
  proof induction
    case (announce w env type w')
    then show ?case
      by (auto simp: user_fota_event_handler_def Let_def intro: download_resting split: if_splits)
  qed (auto simp: ota_resting_def ota_POSIXTimer_cb_def fota_event_handler_def
      dest: set_ota_state_post request_resting download_resting)
  then show ?thesis by (auto simp: ota_resting_def linkkit_user_post_property_def)
qed

lemma ota_rests_between_handlers_witness:
  "let w = (world_zero cloud_dev_zero ())\<lparr>linkkit := (linkkit (world_zero cloud_dev_zero ()))\<lparr>cloud_connected := 1\<rparr>\<rparr> in
   ota_resting (g_ota_state (linkkit w)) \<and> g_ota_state (linkkit w) \<noteq> OTA_INSTALL_FAIL \<and>
    (cloud_connected (linkkit w) \<noteq> 0 \<longrightarrow>
      trace (linkkit_user_post_property (Some ''{}'') w) = trace w @ [Post_Property ''{}''])"
  unfolding Let_def
  by (rule ota_rests_between_handlers [OF ota_reachable.start]) (simp add: world_zero_def)



end
