(* ===== verification/X50_History.thy ===== *)
theory X50_History
  imports X50_World "HOL-Library.Multiset"
begin

text \<open>
  The cooking history kept in memory: the list operations of \<open>CookHistory\<close>
  (\<open>libhistory/src/history.cpp\<close>) that do not call back into the program. \<open>std::list\<close> is a list;
  \<open>std::list::sort\<close> is a stable sort with \<open>operator<\<close>, here a stable insertion sort (for a
  \<open>collect\<close> other than 0 and 1 that operator is no order, and the library leaves the result open).
\<close>

definition MAX_HISTORY :: nat where "MAX_HISTORY = 40"
definition MAX_COLLECT :: nat where "MAX_COLLECT = 40"

section \<open>Operations\<close>

definition recipes_less :: "recipes \<Rightarrow> recipes \<Rightarrow> bool" where
  "recipes_less a b = (if r_collect a = r_collect b then r_seqid a > r_seqid b else r_collect a > 0)"

fun sort_insert :: "recipes \<Rightarrow> recipes list \<Rightarrow> recipes list" where
  "sort_insert x [] = [x]"
| "sort_insert x (y # ys) = (if recipes_less y x then y # sort_insert x ys else x # y # ys)"

definition sortHistory :: "recipes list \<Rightarrow> recipes list" where
  "sortHistory xs = foldr sort_insert xs []"

definition reportDeleteHistory :: "int \<Rightarrow> recipes list \<Rightarrow> recipes list" where
  "reportDeleteHistory i xs = filter (\<lambda>r. r_id r \<noteq> i) xs"

definition same_dish :: "recipes \<Rightarrow> recipes \<Rightarrow> bool" where
  "same_dish a b \<longleftrightarrow> r_dishName a = r_dishName b \<and> r_imgUrl a = r_imgUrl b \<and>
     r_details a = r_details b \<and> r_cookSteps a = r_cookSteps b"

text \<open>The first collected row with the same dish gets the new time stamp; its id is the result.\<close>

fun compareHistoryCollect :: "recipes \<Rightarrow> recipes list \<Rightarrow> int \<times> recipes list" where
  "compareHistoryCollect s [] = (-1, [])"
| "compareHistoryCollect s (r # rs) =
     (if r_collect r = 0 then apsnd ((#) r) (compareHistoryCollect s rs)
      else if same_dish r s then (r_id r, r\<lparr>r_timestamp := r_timestamp s\<rparr> # rs)
      else apsnd ((#) r) (compareHistoryCollect s rs))"

definition getHistoryCount :: "recipes list \<Rightarrow> nat" where
  "getHistoryCount xs = fold (\<lambda>r n. if r_collect r = 0 then n + 1 else n) xs 0"

definition lastHistoryId :: "int \<Rightarrow> recipes list \<Rightarrow> int" where
  "lastHistoryId collect xs = (case List.find (\<lambda>r. r_collect r = collect) (rev xs) of None \<Rightarrow> -1 | Some r \<Rightarrow> r_id r)"

definition reportInsertHistory :: "recipes option \<Rightarrow> bool \<Rightarrow> recipes list \<Rightarrow> recipes list" where
  "reportInsertHistory single resort xs =
     (let xs = (case single of None \<Rightarrow> xs | Some r \<Rightarrow> r # xs) in if resort then sortHistory xs else xs)"

definition updated :: "recipes \<Rightarrow> recipes \<Rightarrow> recipes" where
  "updated single r =
     (let r = r\<lparr>r_seqid := r_seqid single\<rparr>;
          r = (if r_collect single \<ge> 0 then r\<lparr>r_collect := r_collect single\<rparr> else r);
          r = (if r_timestamp single > 0 then r\<lparr>r_timestamp := r_timestamp single\<rparr> else r)
      in if length (r_dishName single) > 0 then r\<lparr>r_dishName := r_dishName single\<rparr> else r)"

fun update_first :: "recipes \<Rightarrow> recipes list \<Rightarrow> recipes list" where
  "update_first single [] = []"
| "update_first single (r # rs) = (if r_id r = r_id single then updated single r # rs else r # update_first single rs)"

definition reportUpdateHistory :: "recipes \<Rightarrow> recipes list \<Rightarrow> recipes list" where
  "reportUpdateHistory single xs = sortHistory (update_first single xs)"

section \<open>Sorting\<close>

text \<open>For rows that are collected (1) or not (0), \<open>operator<\<close> is a strict weak order: collected rows
  first, and newer rows (with a greater sequence number) first.\<close>

definition binary_collect :: "recipes list \<Rightarrow> bool" where
  "binary_collect xs \<longleftrightarrow> (\<forall>r \<in> set xs. r_collect r = 0 \<or> r_collect r = 1)"

definition history_sorted :: "recipes list \<Rightarrow> bool" where
  "history_sorted xs \<longleftrightarrow> sorted_wrt (\<lambda>a b. \<not> recipes_less b a) xs"

lemma mset_sort_insert: "mset (sort_insert x ys) = add_mset x (mset ys)"
  by (induction ys) auto

lemma mset_sortHistory: "mset (sortHistory xs) = mset xs"
  unfolding sortHistory_def by (induction xs) (auto simp: mset_sort_insert)

lemma set_sortHistory [simp]: "set (sortHistory xs) = set xs"
  by (metis mset_sortHistory set_mset_mset)

lemma set_sort_insert: "set (sort_insert x ys) = insert x (set ys)"
  by (induction ys) auto

lemma length_sortHistory [simp]: "length (sortHistory xs) = length xs"
  by (metis mset_sortHistory size_mset)

lemma not_less_trans:
  assumes "\<not> recipes_less b a" "\<not> recipes_less c b" "binary_collect [a, b, c]"
  shows "\<not> recipes_less c a"
  using assms by (auto simp: recipes_less_def binary_collect_def split: if_splits)

lemma less_asym: "recipes_less a b \<Longrightarrow> binary_collect [a, b] \<Longrightarrow> \<not> recipes_less b a"
  by (auto simp: recipes_less_def binary_collect_def split: if_splits)

lemma sorted_sort_insert:
  assumes "history_sorted ys" and "binary_collect (x # ys)"
  shows "history_sorted (sort_insert x ys)"
  using assms
proof (induction ys)
  case (Cons y ys)
  have ys: "history_sorted ys" "\<forall>z \<in> set ys. \<not> recipes_less z y" "binary_collect (x # ys)"
    using Cons.prems by (auto simp: history_sorted_def binary_collect_def)
  show ?case
  proof (cases "recipes_less y x")
    case True
    then have "\<not> recipes_less x y" using less_asym Cons.prems(2) by (auto simp: binary_collect_def)
    then show ?thesis
      using True Cons.IH ys by (auto simp: history_sorted_def set_sort_insert)
  next
    case False
    have "\<not> recipes_less z x" if "z \<in> set ys" for z
      using not_less_trans [of y x z] that ys(2) False Cons.prems(2) by (auto simp: binary_collect_def)
    with False Cons.prems show ?thesis by (auto simp: history_sorted_def)
  qed
qed (simp add: history_sorted_def)

lemma history_sorted_sort: "binary_collect xs \<Longrightarrow> history_sorted (sortHistory xs)"
proof (induction xs)
  case (Cons x xs)
  then have "history_sorted (sortHistory xs)" "binary_collect (x # sortHistory xs)"
    by (auto simp: binary_collect_def)
  then show ?case by (simp add: sortHistory_def sorted_sort_insert)
qed (simp add: sortHistory_def history_sorted_def)

lemma getHistoryCount_eq: "getHistoryCount xs = length (filter (\<lambda>r. r_collect r = 0) xs)"
proof -
  have "fold (\<lambda>r n. if r_collect r = 0 then n + 1 else n) xs k = k + length (filter (\<lambda>r. r_collect r = 0) xs)" for k :: nat
    by (induction xs arbitrary: k) auto
  then show ?thesis by (simp add: getHistoryCount_def)
qed

text \<open>In a sorted list the last row that is not collected is the oldest of these.\<close>

lemma find_last:
  assumes "List.find P (rev xs) = Some r"
  shows "\<exists>us vs. xs = us @ r # vs \<and> P r \<and> (\<forall>v \<in> set vs. \<not> P v)"
proof -
  obtain i where i: "i < length (rev xs)" "r = rev xs ! i" "P r" "\<forall>j < i. \<not> P (rev xs ! j)"
    using assms by (auto simp: find_Some_iff)
  then have "rev xs = take i (rev xs) @ r # drop (Suc i) (rev xs)" by (simp add: id_take_nth_drop)
  then have "xs = rev (drop (Suc i) (rev xs)) @ r # rev (take i (rev xs))"
    by (metis append.assoc append_Cons append_Nil rev.simps(2) rev_append rev_rev_ident)
  moreover have "\<forall>v \<in> set (rev (take i (rev xs))). \<not> P v"
    using i(4) by (auto simp: in_set_conv_nth)
  ultimately show ?thesis using i(3) by blast
qed

lemma lastHistoryId_oldest:
  assumes "history_sorted xs" and "getHistoryCount xs > 0"
  shows "\<exists>r \<in> set xs. lastHistoryId 0 xs = r_id r \<and> r_collect r = 0 \<and>
    (\<forall>r' \<in> set xs. r_collect r' = 0 \<longrightarrow> r_seqid r \<le> r_seqid r')"
proof -
  obtain r where f: "List.find (\<lambda>r. r_collect r = 0) (rev xs) = Some r"
    using assms(2) by (cases "List.find (\<lambda>r. r_collect r = 0) (rev xs)")
      (auto simp: getHistoryCount_eq find_None_iff filter_empty_conv)
  obtain us vs where s: "xs = us @ r # vs" "r_collect r = 0" "\<forall>v \<in> set vs. r_collect v \<noteq> 0"
    using find_last [OF f] by blast
  have "r_seqid r \<le> r_seqid r'" if "r' \<in> set xs" "r_collect r' = 0" for r'
  proof -
    have "r' = r \<or> r' \<in> set us" using that s by auto
    with assms(1) s that(2) show ?thesis
      by (auto simp: history_sorted_def sorted_wrt_append recipes_less_def)
  qed
  with f s show ?thesis by (auto simp: lastHistoryId_def)
qed

section \<open>Properties\<close>

text \<open>C28: Sorting the history loses no row and adds none, puts collected rows before the others and,
  among equals, newer rows before older ones.\<close>

theorem sort_history_correct:
  assumes "binary_collect xs"
  shows "mset (sortHistory xs) = mset xs \<and>
    sorted_wrt (\<lambda>a b. r_collect b \<le> r_collect a \<and> (r_collect a = r_collect b \<longrightarrow> r_seqid b \<le> r_seqid a)) (sortHistory xs)"
proof -
  have b: "binary_collect (sortHistory xs)" using assms by (simp add: binary_collect_def)
  have "sorted_wrt (\<lambda>a b. r_collect b \<le> r_collect a \<and> (r_collect a = r_collect b \<longrightarrow> r_seqid b \<le> r_seqid a)) (sortHistory xs)"
    using history_sorted_sort [OF assms] b unfolding history_sorted_def
    by (elim sorted_wrt_mono_rel [rotated]) (auto simp: recipes_less_def binary_collect_def split: if_splits)
  then show ?thesis by (simp add: mset_sortHistory)
qed

lemma sort_history_correct_witness:
  "let a = recipes_zero\<lparr>r_seqid := 1\<rparr>; b = recipes_zero\<lparr>r_seqid := 2, r_collect := 1\<rparr>; xs = [a, b] in
    mset (sortHistory xs) = mset xs \<and>
    sorted_wrt (\<lambda>a b. r_collect b \<le> r_collect a \<and> (r_collect a = r_collect b \<longrightarrow> r_seqid b \<le> r_seqid a)) (sortHistory xs)"
  unfolding Let_def by (rule sort_history_correct) (simp add: binary_collect_def recipes_zero_def)

end
