(* ===== verification/X50_History_Db.thy ===== *)
theory X50_History_Db
  imports X50_Attr X50_Linkkit X50_History
begin

text \<open>
  The cooking history as the program uses it (\<open>databse/database_task.c\<close>): the callbacks of the
  history library, which keep the database, the list in memory, the cloud and the UI in step, the
  insertion and update rules of \<open>libhistory/src/history.cpp\<close> that call them, the attribute table, and
  the derivation of a history row from a cooking command.
\<close>

section \<open>Reporting\<close>

text \<open>\<open>report_msg_all_platform\<close> of \<open>cloud_platform_task.c\<close>: the cloud and the UI get the same object.\<close>

definition report_msg_all_platform :: "json \<Rightarrow> 'db world \<Rightarrow> int \<times> 'db world" where
  "report_msg_all_platform root w =
     (if cJSON_Object_isNull root then (-1, w)
      else (0, send_event_uds root None (linkkit_user_post_property (Some (cJSON_PrintUnformatted root)) w)))"

section \<open>Rows as JSON\<close>

definition set_history :: "recipes list \<Rightarrow> 'db world \<Rightarrow> 'db world" where
  "set_history l w = w\<lparr>history := (history w)\<lparr>historyList := l\<rparr>\<rparr>"

definition set_history_seqid :: "int \<Rightarrow> 'db world \<Rightarrow> 'db world" where
  "set_history_seqid n w = w\<lparr>history := (history w)\<lparr>g_history_seqid := n\<rparr>\<rparr>"

definition note_seqid :: "recipes \<Rightarrow> 'db world \<Rightarrow> 'db world" where
  "note_seqid r w = (if r_seqid r > g_history_seqid (history w) then set_history_seqid (r_seqid r) w else w)"

text \<open>A row that is read is also entered in the history list, whichever table it came from.\<close>

definition histroy_select_seqid_func :: "recipes \<Rightarrow> json \<times> 'db world \<Rightarrow> (json \<times> 'db world) option" where
  "histroy_select_seqid_func r st = (case st of (item, w) \<Rightarrow>
     let item = cJSON_AddNumberToObject item ''id'' (r_id r);
         item = cJSON_AddNumberToObject item ''seqid'' (r_seqid r);
         item = cJSON_AddStringToObject item ''dishName'' (r_dishName r);
         item = cJSON_AddStringToObject item ''imgUrl'' (r_imgUrl r);
         item = cJSON_AddStringToObject item ''cookSteps'' (r_cookSteps r);
         item = cJSON_AddStringToObject item ''details'' (r_details r);
         item = cJSON_AddNumberToObject item ''collect'' (r_collect r);
         item = cJSON_AddNumberToObject item ''timestamp'' (r_timestamp r);
         item = cJSON_AddNumberToObject item ''cookType'' (r_cookType r);
         item = cJSON_AddNumberToObject item ''recipeType'' (r_recipeType r);
         item = cJSON_AddNumberToObject item ''cookPos'' (r_cookPos r);
         w = set_history (reportInsertHistory (Some r) True (historyList (history w))) w
     in Some (item, note_seqid r w))"

text \<open>\<open>strncpy\<close> into \<open>name_len\<close> bytes.\<close>

definition strncpy_buf :: "nat \<Rightarrow> string \<Rightarrow> bytes" where
  "strncpy_buf n s = take n (bytes_of s @ replicate n 0)"

text \<open>The result is -1, or 0 with the bytes \<open>name\<close> is overwritten with.\<close>

definition select_for_cookbookID :: "'db env \<Rightarrow> int \<Rightarrow> nat \<Rightarrow> 'db world \<Rightarrow> (int \<times> bytes option \<times> 'db world) option" where
  "select_for_cookbookID env cookbookID name_len w = do {
     (_, root, w) \<leftarrow> select_seqid_from_table env RECIPE_TABLE_NAME cookbookID histroy_select_seqid_func (cJSON_CreateObject, w);
     if cJSON_Object_isNull root then Some (-1, None, w)
     else case cJSON_GetObjectItem (Some root) ''dishName'' of
       None \<Rightarrow> Some (-1, None, w)
     | Some dishName \<Rightarrow> do {
         s \<leftarrow> valuestring dishName;
         Some (0, Some (strncpy_buf name_len s), w)
       }
   }"

definition wrapper_histroy_select_cb :: "bool \<Rightarrow> recipes \<Rightarrow> json \<Rightarrow> json" where
  "wrapper_histroy_select_cb simple r root =
     (let item = cJSON_CreateObject;
          item = cJSON_AddNumberToObject item ''id'' (r_id r);
          item = cJSON_AddNumberToObject item ''seqid'' (r_seqid r);
          item = cJSON_AddStringToObject item ''dishName'' (r_dishName r);
          item = cJSON_AddStringToObject item ''cookSteps'' (r_cookSteps r);
          item = cJSON_AddNumberToObject item ''collect'' (r_collect r);
          item = cJSON_AddNumberToObject item ''timestamp'' (r_timestamp r);
          item = cJSON_AddNumberToObject item ''cookType'' (r_cookType r);
          item = cJSON_AddNumberToObject item ''recipeType'' (r_recipeType r);
          item = cJSON_AddNumberToObject item ''cookPos'' (r_cookPos r);
          item = (if \<not> simple then
                    cJSON_AddStringToObject (cJSON_AddStringToObject item ''imgUrl'' (r_imgUrl r)) ''details'' (r_details r)
                  else item)
      in cJSON_AddItemToArray root item)"

definition selectHistory :: "json \<Rightarrow> bool \<Rightarrow> 'db world \<Rightarrow> json" where
  "selectHistory arg simple w = fold (wrapper_histroy_select_cb simple) (historyList (history w)) arg"

section \<open>The callbacks of the library\<close>

text \<open>The row that is passed in is given the new sequence number, and the library's list is updated
  with it.\<close>

definition wrapper_history_update_cb :: "'db env \<Rightarrow> recipes \<Rightarrow> 'db world \<Rightarrow> (int \<times> 'db world) option" where
  "wrapper_history_update_cb env h w = do {
     let u = cJSON_AddNumberToObject cJSON_CreateObject ''id'' (r_id h);
     (u, w) \<leftarrow> (if r_collect h \<ge> 0 then do {
         (_, w) \<leftarrow> update_key_to_table env HISTORY_TABLE_NAME ''collect'' (r_collect h) (r_id h) w;
         Some (cJSON_AddNumberToObject u ''collect'' (r_collect h), w)
       } else Some (u, w));
     (u, w) \<leftarrow> (if r_timestamp h > 0 then do {
         (_, w) \<leftarrow> update_key_to_table env HISTORY_TABLE_NAME ''timestamp'' (r_timestamp h) (r_id h) w;
         Some (cJSON_AddNumberToObject u ''timestamp'' (r_timestamp h), w)
       } else Some (u, w));
     (u, w) \<leftarrow> (if length (r_dishName h) > 0 then do {
         (_, w) \<leftarrow> update_key_string_table env HISTORY_TABLE_NAME ''dishName'' (r_dishName h) (r_id h) w;
         Some (cJSON_AddStringToObject u ''dishName'' (r_dishName h), w)
       } else Some (u, w));
     let seq = g_history_seqid (history w) + 1;
     (_, w) \<leftarrow> update_key_to_table env HISTORY_TABLE_NAME ''seqid'' seq (r_id h) w;
     let u = cJSON_AddNumberToObject u ''seqid'' seq;
     let w = set_history_seqid seq w;
     let h = h\<lparr>r_seqid := seq\<rparr>;
     let w = snd (report_msg_all_platform (cJSON_AddItemToObject cJSON_CreateObject ''UpdateHistory'' u) w);
     Some (0, set_history (reportUpdateHistory h (historyList (history w))) w)
   }"

definition wrapper_history_delete_cb :: "'db env \<Rightarrow> int \<Rightarrow> 'db world \<Rightarrow> (int \<times> 'db world) option" where
  "wrapper_history_delete_cb env i w = do {
     let array = cJSON_AddItemToArray cJSON_CreateArray (JNum i);
     (_, w) \<leftarrow> delete_row_from_table env HISTORY_TABLE_NAME i w;
     let w = set_history (reportDeleteHistory i (historyList (history w))) w;
     Some (0, snd (report_msg_all_platform array w))
   }"

definition wrapper_history_insert_cb :: "'db env \<Rightarrow> recipes \<Rightarrow> 'db world \<Rightarrow> (int \<times> 'db world) option" where
  "wrapper_history_insert_cb env h w = do {
     let h = h\<lparr>r_seqid := g_history_seqid (history w) + 1\<rparr>;
     (_, w) \<leftarrow> insert_replace_row_to_table env HISTORY_TABLE_NAME h w;
     (_, item, w) \<leftarrow> select_seqid_from_table env HISTORY_TABLE_NAME (g_history_seqid (history w) + 1)
       histroy_select_seqid_func (cJSON_CreateObject, w);
     let w = (if \<not> cJSON_Object_isNull item then
                snd (report_msg_all_platform (cJSON_AddItemToObject cJSON_CreateObject ''InsertHistory'' item) w)
              else w);
     Some (0, w)
   }"

section \<open>Insertion and update\<close>

text \<open>\<open>CookHistory::insertHistory\<close>: for a dish that is already collected only the time is to be
  updated, but the row handed to the update callback is a fresh one, whose id is 0.\<close>

definition insertHistory :: "'db env \<Rightarrow> recipes \<Rightarrow> 'db world \<Rightarrow> (int \<times> 'db world) option" where
  "insertHistory env single w = do {
     let single = single\<lparr>r_timestamp := env_time env\<rparr>;
     let (i, l) = compareHistoryCollect single (historyList (history w));
     let w = set_history l w;
     if i \<ge> 0 then wrapper_history_update_cb env (recipes_zero\<lparr>r_timestamp := r_timestamp single\<rparr>) w
     else do {
       w \<leftarrow> (if getHistoryCount (historyList (history w)) \<ge> MAX_HISTORY then
               (let i = lastHistoryId 0 (historyList (history w)) in
                if i \<ge> 0 then map_option snd (wrapper_history_delete_cb env i w) else Some w)
             else Some w);
       wrapper_history_insert_cb env single w
     }
   }"

definition updateHistory :: "'db env \<Rightarrow> recipes \<Rightarrow> 'db world \<Rightarrow> (int \<times> 'db world) option" where
  "updateHistory env single w =
     (let l = historyList (history w) in
      case List.find (\<lambda>r. r_id r = r_id single) l of
        None \<Rightarrow> Some (-1, w)
      | Some it \<Rightarrow> do {
          w \<leftarrow> (if r_collect single \<ge> 0 then
              (let lastId =
                 (if r_collect single \<noteq> r_collect it then
                    (if length l - getHistoryCount l \<ge> MAX_COLLECT then lastHistoryId 1 l else -1)
                  else (if getHistoryCount l \<ge> MAX_HISTORY then lastHistoryId 0 l else -1))
               in if lastId \<ge> 0 \<and> lastId \<noteq> r_id single
                  then map_option snd (wrapper_history_delete_cb env (r_id single) w) else Some w)
            else Some w);
          wrapper_history_update_cb env single w
        })"

section \<open>The attribute table\<close>

definition recipe_select_func :: "recipes \<Rightarrow> json \<times> 'db world \<Rightarrow> (json \<times> 'db world) option" where
  "recipe_select_func r st = (case st of (root, w) \<Rightarrow>
     let item = cJSON_CreateObject;
         item = cJSON_AddNumberToObject item ''id'' (r_id r);
         item = cJSON_AddNumberToObject item ''seqid'' (r_seqid r);
         item = cJSON_AddStringToObject item ''dishName'' (r_dishName r);
         item = cJSON_AddStringToObject item ''imgUrl'' (r_imgUrl r);
         item = cJSON_AddStringToObject item ''cookSteps'' (r_cookSteps r);
         item = cJSON_AddStringToObject item ''details'' (r_details r);
         item = cJSON_AddNumberToObject item ''collect'' (r_collect r);
         item = cJSON_AddNumberToObject item ''timestamp'' (r_timestamp r);
         item = cJSON_AddNumberToObject item ''cookType'' (r_cookType r);
         item = cJSON_AddNumberToObject item ''recipeType'' (r_recipeType r);
         item = cJSON_AddNumberToObject item ''cookPos'' (r_cookPos r)
     in Some (cJSON_AddItemToArray root item, w))"

definition CookRecipe_cb :: "'db env \<Rightarrow> json option \<Rightarrow> 'db world \<Rightarrow> (json option \<times> 'db world) option" where
  "CookRecipe_cb env arg w = do {
     (_, item, w) \<leftarrow> select_from_table env RECIPE_TABLE_NAME recipe_select_func (cJSON_CreateArray, w);
     Some (Some item, w)
   }"

definition CookHistory_cb :: "json option \<Rightarrow> 'db world \<Rightarrow> (json option \<times> 'db world) option" where
  "CookHistory_cb arg w = Some (Some (selectHistory cJSON_CreateArray False w), w)"

definition CookHistorySimple_cb :: "json option \<Rightarrow> 'db world \<Rightarrow> (json option \<times> 'db world) option" where
  "CookHistorySimple_cb arg w =
     Some (Some (JStr (cJSON_PrintUnformatted (selectHistory cJSON_CreateArray True w))), w)"

definition UpdateRecipe_cb :: "json option \<Rightarrow> 'db world \<Rightarrow> (json option \<times> 'db world) option" where
  "UpdateRecipe_cb arg w = Some (None, w)"

definition UpdateHistory_cb :: "'db env \<Rightarrow> json option \<Rightarrow> 'db world \<Rightarrow> (json option \<times> 'db world) option" where
  "UpdateHistory_cb env arg w =
     (case cJSON_GetObjectItem arg ''id'' of
        None \<Rightarrow> Some (None, w)
      | Some i \<Rightarrow> do {
          let r = recipes_zero\<lparr>r_collect := -1\<rparr>;
          r \<leftarrow> (case cJSON_GetObjectItem arg ''dishName'' of
                 None \<Rightarrow> Some r
               | Some d \<Rightarrow> do { s \<leftarrow> valuestring d; s \<leftarrow> str_fits 48 s; Some (r\<lparr>r_dishName := s\<rparr>) });
          let r = (case cJSON_GetObjectItem arg ''collect'' of None \<Rightarrow> r | Some c \<Rightarrow> r\<lparr>r_collect := valueint c\<rparr>);
          (_, w) \<leftarrow> updateHistory env (r\<lparr>r_id := valueint i\<rparr>) w;
          Some (None, w)
        })"

definition DeleteHistory_cb :: "'db env \<Rightarrow> json option \<Rightarrow> 'db world \<Rightarrow> (json option \<times> 'db world) option" where
  "DeleteHistory_cb env arg w =
     (if cJSON_GetArraySize arg = 0 then Some (None, w)
      else do {
        (array, w) \<leftarrow> foldM (\<lambda>i (array, w).
          case cJSON_GetArrayItem arg i of
            None \<Rightarrow> Some (array, w)
          | Some sub \<Rightarrow> do {
              (_, w) \<leftarrow> delete_row_from_table env HISTORY_TABLE_NAME (valueint sub) w;
              let array = cJSON_AddItemToArray array (JNum (valueint sub));
              Some (array, set_history (reportDeleteHistory (valueint sub) (historyList (history w))) w)
            }) [0..<cJSON_GetArraySize arg] (cJSON_CreateArray, w);
        Some (Some array, w)
      })"

definition g_database_set_attr :: "'db env \<Rightarrow> 'db world set_attr list" where
  "g_database_set_attr env = [
     \<lparr>sa_cloud_key = ''CookRecipe'', sa_fun_type = LINK_FUN_TYPE_ATTR_REPORT, sa_cb = CookRecipe_cb env\<rparr>,
     \<lparr>sa_cloud_key = ''CookHistory'', sa_fun_type = LINK_FUN_TYPE_ATTR_REPORT, sa_cb = CookHistory_cb\<rparr>,
     \<lparr>sa_cloud_key = ''CookHistorySimple'', sa_fun_type = LINK_FUN_TYPE_ATTR_REPORT, sa_cb = CookHistorySimple_cb\<rparr>,
     \<lparr>sa_cloud_key = ''UpdateRecipe'', sa_fun_type = LINK_FUN_TYPE_ATTR_CTRL, sa_cb = UpdateRecipe_cb\<rparr>,
     \<lparr>sa_cloud_key = ''UpdateHistory'', sa_fun_type = LINK_FUN_TYPE_ATTR_CTRL, sa_cb = UpdateHistory_cb env\<rparr>,
     \<lparr>sa_cloud_key = ''DeleteHistory'', sa_fun_type = LINK_FUN_TYPE_ATTR_CTRL, sa_cb = DeleteHistory_cb env\<rparr>]"

definition database_resp_get :: "'db env \<Rightarrow> json option \<Rightarrow> json \<times> 'db world \<Rightarrow> (json \<times> 'db world) option" where
  "database_resp_get env = attr_resp_get (g_database_set_attr env)"

definition database_resp_getall :: "'db env \<Rightarrow> json \<times> 'db world \<Rightarrow> (json \<times> 'db world) option" where
  "database_resp_getall env = attr_resp_getall (g_database_set_attr env)"

section \<open>The row of a cooking command\<close>

text \<open>The names of the modes are UTF-8.\<close>

definition leftWorkMode :: "string list" where
  "leftWorkMode = [
     [CHR 0xE6, CHR 0x9C, CHR 0xAA, CHR 0xE8, CHR 0xAE, CHR 0xBE, CHR 0xE5, CHR 0xAE, CHR 0x9A],
     [CHR 0xE7, CHR 0xBB, CHR 0x8F, CHR 0xE5, CHR 0x85, CHR 0xB8, CHR 0xE8, CHR 0x92, CHR 0xB8],
     [CHR 0xE9, CHR 0xAB, CHR 0x98, CHR 0xE6, CHR 0xB8, CHR 0xA9, CHR 0xE8, CHR 0x92, CHR 0xB8],
     [CHR 0xE7, CHR 0x83, CHR 0xAD, CHR 0xE9, CHR 0xA3, CHR 0x8E, CHR 0xE7, CHR 0x83, CHR 0xA7, CHR 0xE7, CHR 0x83, CHR 0xA4],
     [CHR 0xE4, CHR 0xB8, CHR 0x8A, CHR 0xE4, CHR 0xB8, CHR 0x8B, CHR 0xE5, CHR 0x8A, CHR 0xA0, CHR 0xE7, CHR 0x83, CHR 0xAD],
     [CHR 0xE7, CHR 0xAB, CHR 0x8B, CHR 0xE4, CHR 0xBD, CHR 0x93, CHR 0xE7, CHR 0x83, CHR 0xAD, CHR 0xE9, CHR 0xA3, CHR 0x8E],
     [CHR 0xE8, CHR 0x92, CHR 0xB8, CHR 0xE6, CHR 0xB1, CHR 0xBD, CHR 0xE7, CHR 0x83, CHR 0xA4],
     [CHR 0xE7, CHR 0xA9, CHR 0xBA, CHR 0xE6, CHR 0xB0, CHR 0x94, CHR 0xE7, CHR 0x82, CHR 0xB8],
     [CHR 0xE4, CHR 0xBF, CHR 0x9D, CHR 0xE6, CHR 0xB8, CHR 0xA9, CHR 0xE7, CHR 0x83, CHR 0x98, CHR 0xE5, CHR 0xB9, CHR 0xB2]]"

definition leftWorkModeFun :: "int \<Rightarrow> string" where
  "leftWorkModeFun n =
     (if n = 1 then leftWorkMode ! 1
      else if n = 2 then leftWorkMode ! 2
      else if n = 35 then leftWorkMode ! 3
      else if n = 36 then leftWorkMode ! 4
      else if n = 38 then leftWorkMode ! 5
      else if n = 40 then leftWorkMode ! 6
      else if n = 42 then leftWorkMode ! 7
      else if n = 72 then leftWorkMode ! 8
      else leftWorkMode ! 0)"

definition cook_celsius :: string where "cook_celsius = [CHR 0xE2, CHR 0x84, CHR 0x83]"
definition cook_minutes :: string where "cook_minutes = [CHR 0xE5, CHR 0x88, CHR 0x86, CHR 0xE9, CHR 0x92, CHR 0x9F]"
definition cook_easy_steam :: string where "cook_easy_steam = [CHR 0xE4, CHR 0xBE, CHR 0xBF, CHR 0xE6, CHR 0x8D, CHR 0xB7, CHR 0xE8, CHR 0x92, CHR 0xB8]"

definition cook_step :: "int \<Rightarrow> int \<Rightarrow> int \<Rightarrow> int \<Rightarrow> json" where
  "cook_step mode time temp number =
     (let s = cJSON_CreateObject;
          s = cJSON_AddNumberToObject s ''mode'' mode;
          s = cJSON_AddNumberToObject s ''time'' time;
          s = cJSON_AddNumberToObject s ''temp'' temp
      in cJSON_AddNumberToObject s ''number'' number)"

text \<open>The stages of a cook book or a multi-stage program: a step for each, and the name of the dish
  grown by the mode of each in its 48 bytes. A stage without one of its three members is a NULL pointer
  that is followed; without any stage the byte before the name is overwritten.\<close>

definition cook_stages :: "json option \<Rightarrow> (json \<times> string) option" where
  "cook_stages arrayItem = do {
     (cookSteps, name) \<leftarrow> foldM (\<lambda>i (cookSteps, name).
       case cJSON_GetArrayItem arrayItem i of
         None \<Rightarrow> Some (cookSteps, name)
       | Some sub \<Rightarrow> do {
           Mode \<leftarrow> cJSON_GetObjectItem (Some sub) ''Mode'';
           Timer \<leftarrow> cJSON_GetObjectItem (Some sub) ''Timer'';
           Temp \<leftarrow> cJSON_GetObjectItem (Some sub) ''Temp'';
           name \<leftarrow> str_fits 48 (name @ leftWorkModeFun (valueint Mode) @ ''-'');
           Some (cJSON_AddItemToArray cookSteps (cook_step (valueint Mode) (valueint Timer) (valueint Temp) (int i + 1)), name)
         }) [0..<cJSON_GetArraySize arrayItem] (cJSON_CreateArray, []);
     if name = [] then None else Some (cookSteps, butlast name)
   }"

definition cook_single :: "string \<Rightarrow> json \<Rightarrow> json \<Rightarrow> json \<Rightarrow> (json \<times> string) option" where
  "cook_single name mode timer temp = do {
     name \<leftarrow> str_fits 48 (name @ ''-'' @ dec_int (valueint temp) @ cook_celsius @ ''-'' @ dec_int (valueint timer) @ cook_minutes);
     Some (cJSON_AddItemToArray cJSON_CreateArray (cook_step (valueint mode) (valueint timer) (valueint temp) 0), name)
   }"

definition cook_finish :: "'db env \<Rightarrow> recipes \<Rightarrow> json \<times> string \<Rightarrow> 'db world \<Rightarrow> 'db world option" where
  "cook_finish env r sn w = do {
     steps \<leftarrow> str_fits 180 (cJSON_PrintUnformatted (fst sn));
     map_option snd (insertHistory env (r\<lparr>r_dishName := snd sn, r_cookSteps := steps, r_timestamp := env_time env\<rparr>) w)
   }"

definition cook_history :: "'db env \<Rightarrow> json option \<Rightarrow> 'db world \<Rightarrow> 'db world option" where
  "cook_history env root w =
     (let has = cJSON_HasObjectItem root; it = cJSON_GetObjectItem root in
      if has ''CookbookName'' \<and> has ''CookbookParam'' then do {
        CookbookName \<leftarrow> it ''CookbookName'';
        dish \<leftarrow> valuestring CookbookName;
        (rc, recipe, w) \<leftarrow> select_dishname_from_table env RECIPE_TABLE_NAME dish recipes_zero w;
        if rc \<ge> 0 then map_option snd (insertHistory env (recipe\<lparr>r_timestamp := env_time env\<rparr>) w)
        else do { sn \<leftarrow> cook_stages (it ''CookbookParam''); cook_finish env recipe sn w }
      }
      else if has ''MultiStageContent'' then do {
        sn \<leftarrow> cook_stages (it ''MultiStageContent'');
        cook_finish env recipes_zero sn w
      }
      else if has ''LStOvMode'' \<and> has ''LStOvSetTimer'' \<and> has ''LStOvSetTemp'' then do {
        LStOvMode \<leftarrow> it ''LStOvMode''; LStOvSetTimer \<leftarrow> it ''LStOvSetTimer''; LStOvSetTemp \<leftarrow> it ''LStOvSetTemp'';
        sn \<leftarrow> cook_single (leftWorkModeFun (valueint LStOvMode)) LStOvMode LStOvSetTimer LStOvSetTemp;
        cook_finish env recipes_zero sn w
      }
      else if has ''RStOvMode'' \<and> has ''RStOvSetTimer'' \<and> has ''RStOvSetTemp'' then do {
        RStOvMode \<leftarrow> it ''RStOvMode''; RStOvSetTimer \<leftarrow> it ''RStOvSetTimer''; RStOvSetTemp \<leftarrow> it ''RStOvSetTemp'';
        sn \<leftarrow> cook_single cook_easy_steam RStOvMode RStOvSetTimer RStOvSetTemp;
        cook_finish env (recipes_zero\<lparr>r_cookPos := 1\<rparr>) sn w
      }
      else Some w)"

section \<open>The task\<close>

definition database_resp_set :: "'db env \<Rightarrow> json option \<Rightarrow> json \<times> 'db world \<Rightarrow> (json \<times> 'db world) option" where
  "database_resp_set env root st = do {
     w \<leftarrow> cook_history env root (snd st);
     attr_resp_set (g_database_set_attr env) root (fst st, w)
   }"

definition database_histroy_select_cb :: "recipes \<Rightarrow> unit \<times> 'db world \<Rightarrow> (unit \<times> 'db world) option" where
  "database_histroy_select_cb r st =
     (let w = snd st;
          w = set_history (reportInsertHistory (Some r) False (historyList (history w))) w
      in Some ((), note_seqid r w))"

definition database_task_reinit :: "'db env \<Rightarrow> 'db world \<Rightarrow> 'db world option" where
  "database_task_reinit env w = map_option snd (databse_clear_table env HISTORY_TABLE_NAME (set_history [] w))"

text \<open>Without the registrations, which are static here.\<close>

definition database_task_init :: "'db env \<Rightarrow> 'db world \<Rightarrow> (int \<times> 'db world) option" where
  "database_task_init env w = do {
     (_, _, w) \<leftarrow> select_from_table env HISTORY_TABLE_NAME database_histroy_select_cb ((), w);
     Some (0, set_history (reportInsertHistory None True (historyList (history w))) w)
   }"

section \<open>Lemmas\<close>

lemma post_frame [simp]:
  "ecb (linkkit_user_post_property p w) = ecb w" "gesture (linkkit_user_post_property p w) = gesture w"
  "uds (linkkit_user_post_property p w) = uds w" "linkkit (linkkit_user_post_property p w) = linkkit w"
  "history (linkkit_user_post_property p w) = history w" "g_cloud_dev (linkkit_user_post_property p w) = g_cloud_dev w"
  "database (linkkit_user_post_property p w) = database w" "uart_buf (linkkit_user_post_property p w) = uart_buf w"
  "gesture_registered (linkkit_user_post_property p w) = gesture_registered w"
  by (simp_all add: linkkit_user_post_property_def split: option.splits)

lemma report_frame [simp]:
  "ecb (snd (report_msg_all_platform j w)) = ecb w" "gesture (snd (report_msg_all_platform j w)) = gesture w"
  "uds (snd (report_msg_all_platform j w)) = uds w" "linkkit (snd (report_msg_all_platform j w)) = linkkit w"
  "history (snd (report_msg_all_platform j w)) = history w" "g_cloud_dev (snd (report_msg_all_platform j w)) = g_cloud_dev w"
  "database (snd (report_msg_all_platform j w)) = database w" "uart_buf (snd (report_msg_all_platform j w)) = uart_buf w"
  "gesture_registered (snd (report_msg_all_platform j w)) = gesture_registered w"
  by (simp_all add: report_msg_all_platform_def)

lemma set_history_simps [simp]:
  "historyList (history (set_history l w)) = l" "g_history_seqid (history (set_history l w)) = g_history_seqid (history w)"
  "historyList (history (set_history_seqid n w)) = historyList (history w)"
  "g_history_seqid (history (set_history_seqid n w)) = n"
  "database (set_history l w) = database w" "database (set_history_seqid n w) = database w"
  "uds (set_history l w) = uds w" "uds (set_history_seqid n w) = uds w"
  "ecb (set_history l w) = ecb w" "ecb (set_history_seqid n w) = ecb w"
  "trace (set_history l w) = trace w" "trace (set_history_seqid n w) = trace w"
  "linkkit (set_history l w) = linkkit w" "linkkit (set_history_seqid n w) = linkkit w"
  by (simp_all add: set_history_def set_history_seqid_def)

text \<open>What the history relies on of sqlite: statements are accepted, and a row inserted under a
  sequence number is what a selection by that number gives, with an id of the engine's choice.\<close>

definition history_engine :: "'db env \<Rightarrow> bool" where
  "history_engine env \<longleftrightarrow>
     (\<forall>sql db. sqlite3_prepare (env_sqlite env) sql db) \<and>
     (\<forall>r db. \<exists>i > 0. \<exists>rc. \<forall>rows rc1 db'.
        sqlite3_run (env_sqlite env) (sql_insert_replace HISTORY_TABLE_NAME) (row_args r) db = (rows, rc1, db') \<longrightarrow>
        sqlite3_run (env_sqlite env) (sql_select_seqid HISTORY_TABLE_NAME) [Sql_Int (r_seqid r)] db' =
          ([row_of (r\<lparr>r_id := i\<rparr>)], rc, db'))"

definition history_ok :: "'db world \<Rightarrow> bool" where
  "history_ok w \<longleftrightarrow> (let l = historyList (history w) in
     history_sorted l \<and> binary_collect l \<and> getHistoryCount l \<le> MAX_HISTORY \<and>
     (\<forall>r \<in> set l. 0 < r_id r \<and> r_seqid r \<le> g_history_seqid (history w)))"

lemma db_change_run:
  assumes "history_engine env" and "length sql < 128"
  shows "\<exists>rows rc db'. sqlite3_run (env_sqlite env) sql args (database w) = (rows, rc, db') \<and>
    db_change env sql args w = Some (0, w\<lparr>database := db'\<rparr>)"
  using assms
  by (cases "sqlite3_run (env_sqlite env) sql args (database w)")
    (auto simp: db_change_def db_run_def history_engine_def str_fits_def)

lemma insert_cb_effect:
  assumes "history_engine env" and "sql_widths h"
  shows "\<exists>i w'. 0 < i \<and> wrapper_history_insert_cb env h w = Some (0, w') \<and>
    g_history_seqid (history w') = g_history_seqid (history w) + 1 \<and>
    historyList (history w') =
      sortHistory (h\<lparr>r_seqid := g_history_seqid (history w) + 1, r_id := i\<rparr> # historyList (history w))"
proof -
  let ?h = "h\<lparr>r_seqid := g_history_seqid (history w) + 1\<rparr>"
  obtain rows rc db' where run: "sqlite3_run (env_sqlite env) (sql_insert_replace HISTORY_TABLE_NAME) (row_args ?h) (database w) = (rows, rc, db')"
    and ins: "insert_replace_row_to_table env HISTORY_TABLE_NAME ?h w = Some (0, w\<lparr>database := db'\<rparr>)"
    using db_change_run [OF assms(1) sql_fits(6) [OF disjI1 [OF refl]]] by (metis insert_replace_row_to_table_def)
  obtain i rc2 where i: "0 < i" and sel: "sqlite3_run (env_sqlite env) (sql_select_seqid HISTORY_TABLE_NAME)
      [Sql_Int (g_history_seqid (history w) + 1)] db' = ([row_of (?h\<lparr>r_id := i\<rparr>)], rc2, db')"
    using assms(1) run unfolding history_engine_def by (metis recipes.select_convs(2) recipes.surjective recipes.update_convs(2))
  have row: "recipes_of_row (row_of (?h\<lparr>r_id := i\<rparr>)) = Some (?h\<lparr>r_id := i\<rparr>)"
    using assms(2) by (intro recipes_of_row_of) (simp add: sql_widths_def)
  have fits: "str_fits 128 (sql_select_seqid HISTORY_TABLE_NAME) = Some (sql_select_seqid HISTORY_TABLE_NAME)"
    using sql_fits(3) [of HISTORY_TABLE_NAME] by (simp add: str_fits_def)
  have prep: "sqlite3_prepare (env_sqlite env) sql db" for sql db using assms(1) by (simp add: history_engine_def)
  show ?thesis
    using i by (intro exI [of _ i])
      (simp add: wrapper_history_insert_cb_def ins select_seqid_from_table_def select_rows_def fits db_run_def prep sel row
        histroy_select_seqid_func_def Let_def note_seqid_def reportInsertHistory_def)
qed

lemma delete_cb_effect:
  assumes "history_engine env"
  shows "\<exists>w'. wrapper_history_delete_cb env i w = Some (0, w') \<and>
    g_history_seqid (history w') = g_history_seqid (history w) \<and>
    historyList (history w') = reportDeleteHistory i (historyList (history w))"
proof -
  obtain db' where "delete_row_from_table env HISTORY_TABLE_NAME i w = Some (0, w\<lparr>database := db'\<rparr>)"
    using db_change_run [OF assms sql_fits(7) [OF disjI1 [OF refl]]] by (metis delete_row_from_table_def)
  then show ?thesis by (simp add: wrapper_history_delete_cb_def)
qed

lemma update_key_effect:
  assumes "history_engine env" and "length k \<le> 90"
  shows "\<exists>db'. db_change env (sql_update HISTORY_TABLE_NAME k) args w = Some (0, w\<lparr>database := db'\<rparr>)"
  using db_change_run [OF assms(1) sql_fits(11) [OF disjI1 [OF refl] assms(2)]] by metis

lemma update_cb_effect:
  assumes "history_engine env"
  shows "\<exists>w'. wrapper_history_update_cb env h w = Some (0, w') \<and>
    g_history_seqid (history w') = g_history_seqid (history w) + 1 \<and>
    historyList (history w') =
      reportUpdateHistory (h\<lparr>r_seqid := g_history_seqid (history w) + 1\<rparr>) (historyList (history w))"
proof -
  have k: "\<exists>db'. update_key_to_table env HISTORY_TABLE_NAME k v i u = Some (0, u\<lparr>database := db'\<rparr>)"
    if "length k \<le> 90" for k v i u
    using update_key_effect [OF assms that] by (simp add: update_key_to_table_def)
  obtain d1 where 1: "update_key_to_table env HISTORY_TABLE_NAME ''collect'' (r_collect h) (r_id h) w = Some (0, w\<lparr>database := d1\<rparr>)"
    using k [of "''collect''" "r_collect h" "r_id h" w] by auto
  define w1 where "w1 = (if r_collect h \<ge> 0 then w\<lparr>database := d1\<rparr> else w)"
  obtain d2 where 2: "update_key_to_table env HISTORY_TABLE_NAME ''timestamp'' (r_timestamp h) (r_id h) w1 = Some (0, w1\<lparr>database := d2\<rparr>)"
    using k [of "''timestamp''" "r_timestamp h" "r_id h" w1] by auto
  define w2 where "w2 = (if r_timestamp h > 0 then w1\<lparr>database := d2\<rparr> else w1)"
  obtain d3 where 3: "update_key_string_table env HISTORY_TABLE_NAME ''dishName'' (r_dishName h) (r_id h) w2 = Some (0, w2\<lparr>database := d3\<rparr>)"
    using update_key_effect [OF assms, of "''dishName''" _ w2] by (auto simp: update_key_string_table_def)
  define w3 where "w3 = (if length (r_dishName h) > 0 then w2\<lparr>database := d3\<rparr> else w2)"
  obtain d4 where 4: "update_key_to_table env HISTORY_TABLE_NAME ''seqid'' (g_history_seqid (history w) + 1) (r_id h) w3 = Some (0, w3\<lparr>database := d4\<rparr>)"
    using k [of "''seqid''" "g_history_seqid (history w) + 1" "r_id h" w3] by auto
  have hist: "history w1 = history w" "history w2 = history w" "history w3 = history w"
    by (simp_all add: w1_def w2_def w3_def)
  show ?thesis
    using 1 2 3 4 hist
    by (cases "r_collect h \<ge> 0"; cases "r_timestamp h > 0"; cases "r_dishName h = []")
      (simp_all add: wrapper_history_update_cb_def Let_def w1_def w2_def w3_def)
qed

text \<open>\<open>compareHistoryCollect\<close> touches a time stamp only.\<close>

definition row_key :: "recipes \<Rightarrow> int \<times> int \<times> int" where
  "row_key r = (r_id r, r_seqid r, r_collect r)"

lemma compare_keys: "map row_key (snd (compareHistoryCollect s l)) = map row_key l"
  by (induction s l rule: compareHistoryCollect.induct) (simp_all add: row_key_def)

lemma compare_miss: "\<forall>r \<in> set l. 0 < r_id r \<Longrightarrow> fst (compareHistoryCollect s l) < 0 \<Longrightarrow> snd (compareHistoryCollect s l) = l"
  by (induction s l rule: compareHistoryCollect.induct) (auto split: if_splits)

lemma compare_hit_iff:
  "\<forall>r \<in> set l. 0 < r_id r \<Longrightarrow>
    0 \<le> fst (compareHistoryCollect s l) \<longleftrightarrow> (\<exists>r \<in> set l. r_collect r \<noteq> 0 \<and> same_dish r s)"
  by (induction s l rule: compareHistoryCollect.induct) (auto split: if_splits)

lemma history_sorted_keys: "history_sorted l \<longleftrightarrow>
    sorted_wrt (\<lambda>(_, s, c) (_, s', c'). \<not> (if c' = c then s' > s else c' > 0)) (map row_key l)"
  by (simp add: history_sorted_def sorted_wrt_map row_key_def recipes_less_def case_prod_beta)

lemma keys_invariant:
  assumes "map row_key l = map row_key l'"
  shows "history_sorted l \<longleftrightarrow> history_sorted l'" "binary_collect l \<longleftrightarrow> binary_collect l'"
    "getHistoryCount l = getHistoryCount l'"
    "(\<forall>r \<in> set l. P (r_id r) (r_seqid r)) \<longleftrightarrow> (\<forall>r \<in> set l'. P (r_id r) (r_seqid r))"
proof -
  show "history_sorted l \<longleftrightarrow> history_sorted l'" using assms by (simp add: history_sorted_keys)
  have s: "row_key ` set l = row_key ` set l'" by (metis assms image_set)
  have all: "(\<forall>r \<in> set l. Q (row_key r)) \<longleftrightarrow> (\<forall>r \<in> set l'. Q (row_key r))" for Q
    using s by (metis (no_types, opaque_lifting) image_iff)
  show "binary_collect l \<longleftrightarrow> binary_collect l'"
    using all [of "\<lambda>(_, _, c). c = 0 \<or> c = 1"] by (simp add: binary_collect_def row_key_def)
  show "(\<forall>r \<in> set l. P (r_id r) (r_seqid r)) \<longleftrightarrow> (\<forall>r \<in> set l'. P (r_id r) (r_seqid r))"
    using all [of "\<lambda>(i, s, _). P i s"] by (simp add: row_key_def)
  have "filter (\<lambda>(_, _, c). c = 0) (map row_key xs) = map row_key (filter (\<lambda>r. r_collect r = 0) xs)" for xs
    by (induction xs) (auto simp: row_key_def)
  then show "getHistoryCount l = getHistoryCount l'"
    using assms unfolding getHistoryCount_eq by (metis length_map)
qed

lemma update_first_absent: "\<forall>r \<in> set l. r_id r \<noteq> r_id s \<Longrightarrow> update_first s l = l"
  by (induction l) auto

lemma count_mset: "mset l = mset l' \<Longrightarrow> getHistoryCount l = getHistoryCount l'"
  by (metis getHistoryCount_eq mset_filter size_mset)

lemma count_Cons: "getHistoryCount (r # l) = (if r_collect r = 0 then 1 else 0) + getHistoryCount l"
  by (simp add: getHistoryCount_eq)

lemma count_delete:
  assumes "r \<in> set l" and "r_collect r = 0"
  shows "getHistoryCount (reportDeleteHistory (r_id r) l) < getHistoryCount l"
proof -
  let ?l = "filter (\<lambda>x. r_collect x = 0) l"
  have "length (filter (\<lambda>x. r_id x \<noteq> r_id r) ?l) < length ?l"
    using assms by (intro length_filter_less [of r]) auto
  then show ?thesis by (simp add: getHistoryCount_eq reportDeleteHistory_def conj_commute)
qed

lemma sorted_delete: "history_sorted l \<Longrightarrow> history_sorted (reportDeleteHistory i l)"
  by (simp add: history_sorted_def reportDeleteHistory_def sorted_wrt_filter)

lemma binary_subset: "binary_collect l \<Longrightarrow> set l' \<subseteq> set l \<Longrightarrow> binary_collect l'"
  by (auto simp: binary_collect_def)

lemma room_made:
  assumes "history_engine env" and "history_ok w"
  shows "\<exists>w'. (if getHistoryCount (historyList (history w)) \<ge> MAX_HISTORY then
        (let i = lastHistoryId 0 (historyList (history w)) in
         if i \<ge> 0 then map_option snd (wrapper_history_delete_cb env i w) else Some w)
       else Some w) = Some w' \<and> history_ok w' \<and> getHistoryCount (historyList (history w')) < MAX_HISTORY \<and>
     g_history_seqid (history w') = g_history_seqid (history w) \<and>
     historyList (history w') = (if getHistoryCount (historyList (history w)) \<ge> MAX_HISTORY
       then reportDeleteHistory (lastHistoryId 0 (historyList (history w))) (historyList (history w))
       else historyList (history w))"
proof (cases "getHistoryCount (historyList (history w)) \<ge> MAX_HISTORY")
  case True
  let ?l = "historyList (history w)"
  have ok: "history_sorted ?l" "binary_collect ?l" "getHistoryCount ?l \<le> MAX_HISTORY"
    "\<forall>r \<in> set ?l. 0 < r_id r \<and> r_seqid r \<le> g_history_seqid (history w)"
    using assms(2) by (simp_all add: history_ok_def Let_def)
  obtain r where r: "r \<in> set ?l" "lastHistoryId 0 ?l = r_id r" "r_collect r = 0"
    using lastHistoryId_oldest [OF ok(1)] True by (auto simp: MAX_HISTORY_def)
  obtain w' where w': "wrapper_history_delete_cb env (r_id r) w = Some (0, w')"
      "g_history_seqid (history w') = g_history_seqid (history w)"
      "historyList (history w') = reportDeleteHistory (r_id r) ?l"
    using delete_cb_effect [OF assms(1)] by blast
  have "history_ok w'" "getHistoryCount (historyList (history w')) < MAX_HISTORY"
    using ok w' count_delete [OF r(1,3)] sorted_delete [OF ok(1), of "r_id r"]
      binary_subset [OF ok(2), of "reportDeleteHistory (r_id r) ?l"]
    by (auto simp: history_ok_def Let_def reportDeleteHistory_def)
  moreover have "0 \<le> r_id r" using ok(4) r(1) by force
  ultimately show ?thesis using True w' r by (simp add: Let_def)
qed (use assms(2) in simp)

lemma history_ok_sort:
  assumes "binary_collect l" and "getHistoryCount l \<le> MAX_HISTORY"
    and "\<forall>r \<in> set l. 0 < r_id r \<and> r_seqid r \<le> n" and "n \<le> g_history_seqid (history w)"
    and "historyList (history w) = sortHistory l"
  shows "history_ok w"
proof -
  have "\<forall>r \<in> set l. 0 < r_id r \<and> r_seqid r \<le> g_history_seqid (history w)" using assms(3,4) by force
  then show ?thesis
    using assms(1,2,5) history_sorted_sort [OF assms(1)] count_mset [OF mset_sortHistory [of l]]
    by (simp add: history_ok_def Let_def binary_collect_def)
qed

text \<open>A cooked dish that is new: the row is stored and the oldest row makes room for it.\<close>

lemma insert_new:
  assumes "history_engine env" and "history_ok w" and "sql_widths single" and "r_collect single = 0"
    and miss: "fst (compareHistoryCollect (single\<lparr>r_timestamp := env_time env\<rparr>) (historyList (history w))) < 0"
  shows "\<exists>i w'. insertHistory env single w = Some (0, w') \<and> history_ok w' \<and> 0 < i \<and>
    g_history_seqid (history w') = g_history_seqid (history w) + 1 \<and>
    historyList (history w') = sortHistory
      (single\<lparr>r_timestamp := env_time env, r_seqid := g_history_seqid (history w) + 1, r_id := i\<rparr> #
       (if getHistoryCount (historyList (history w)) \<ge> MAX_HISTORY
        then reportDeleteHistory (lastHistoryId 0 (historyList (history w))) (historyList (history w))
        else historyList (history w)))"
proof -
  let ?s = "single\<lparr>r_timestamp := env_time env\<rparr>" and ?l = "historyList (history w)"
  have pos: "\<forall>r \<in> set ?l. 0 < r_id r" using assms(2) by (simp add: history_ok_def Let_def)
  obtain c where cmp: "compareHistoryCollect ?s ?l = (c, ?l)" "c < 0"
    using compare_miss [OF pos miss] miss by (metis prod.collapse)
  have w: "set_history ?l w = w" by (simp add: set_history_def)
  obtain w1 where room: "(if getHistoryCount ?l \<ge> MAX_HISTORY then
        (let i = lastHistoryId 0 ?l in
         if i \<ge> 0 then map_option snd (wrapper_history_delete_cb env i w) else Some w)
       else Some w) = Some w1" and w1: "history_ok w1" "getHistoryCount (historyList (history w1)) < MAX_HISTORY"
     "g_history_seqid (history w1) = g_history_seqid (history w)"
     "historyList (history w1) = (if getHistoryCount ?l \<ge> MAX_HISTORY then reportDeleteHistory (lastHistoryId 0 ?l) ?l else ?l)"
    using room_made [OF assms(1,2)] by blast
  obtain i w' where w': "0 < i" "wrapper_history_insert_cb env ?s w1 = Some (0, w')"
      "g_history_seqid (history w') = g_history_seqid (history w1) + 1"
      "historyList (history w') = sortHistory (?s\<lparr>r_seqid := g_history_seqid (history w1) + 1, r_id := i\<rparr> # historyList (history w1))"
    using insert_cb_effect [OF assms(1), of ?s w1] assms(3) by (auto simp: sql_widths_def)
  let ?r = "?s\<lparr>r_seqid := g_history_seqid (history w1) + 1, r_id := i\<rparr>"
  have b: "binary_collect (?r # historyList (history w1))"
    using w1(1) assms(4) by (simp add: history_ok_def Let_def binary_collect_def)
  have "\<forall>r \<in> set (?r # historyList (history w1)). 0 < r_id r \<and> r_seqid r \<le> g_history_seqid (history w1) + 1"
    using w1(1) w'(1) by (force simp: history_ok_def Let_def)
  moreover have "getHistoryCount (?r # historyList (history w1)) \<le> MAX_HISTORY"
    using w1(2) by (simp add: count_Cons)
  ultimately have "history_ok w'"
    by (intro history_ok_sort [OF b _ _ _ w'(4)]) (assumption, assumption, simp add: w'(3))
  moreover have "insertHistory env single w = Some (0, w')"
    using room w'(2) cmp(2) by (subst insertHistory_def) (auto simp: cmp(1) w Let_def split: if_splits)
  ultimately show ?thesis using w' w1 by auto
qed

text \<open>A dish that is collected already: the row \<open>{0}\<close> that is passed on has id 0, which no row has.\<close>

lemma insert_collected:
  assumes "history_engine env" and "history_ok w"
    and hit: "\<not> fst (compareHistoryCollect (single\<lparr>r_timestamp := env_time env\<rparr>) (historyList (history w))) < 0"
  shows "\<exists>w'. insertHistory env single w = Some (0, w') \<and> history_ok w' \<and>
    g_history_seqid (history w') = g_history_seqid (history w) + 1 \<and>
    map row_key (historyList (history w')) = map row_key (sortHistory (snd (compareHistoryCollect
      (single\<lparr>r_timestamp := env_time env\<rparr>) (historyList (history w)))))"
proof -
  let ?s = "single\<lparr>r_timestamp := env_time env\<rparr>" and ?l = "historyList (history w)"
  obtain c l where cmp: "compareHistoryCollect ?s ?l = (c, l)" "0 \<le> c"
    using hit by (cases "compareHistoryCollect ?s ?l") simp
  define h where "h = recipes_zero\<lparr>r_timestamp := env_time env\<rparr>"
  obtain w' where w': "wrapper_history_update_cb env h (set_history l w) = Some (0, w')"
      "g_history_seqid (history w') = g_history_seqid (history w) + 1"
      "historyList (history w') = reportUpdateHistory (h\<lparr>r_seqid := g_history_seqid (history w) + 1\<rparr>) l"
    using update_cb_effect [OF assms(1), of h "set_history l w"] by auto
  have keys: "map row_key l = map row_key ?l" using compare_keys [of ?s ?l] cmp(1) by simp
  have ok: "history_sorted l" "binary_collect l" "getHistoryCount l \<le> MAX_HISTORY"
    "\<forall>r \<in> set l. 0 < r_id r \<and> r_seqid r \<le> g_history_seqid (history w)"
    using assms(2) keys_invariant(1-3) [OF keys] keys_invariant(4) [OF keys, of "\<lambda>i s. 0 < i \<and> s \<le> g_history_seqid (history w)"]
    by (simp_all add: history_ok_def Let_def)
  have "update_first (h\<lparr>r_seqid := g_history_seqid (history w) + 1\<rparr>) l = l"
    using ok(4) by (intro update_first_absent) (auto simp: h_def recipes_zero_def)
  then have l': "historyList (history w') = sortHistory l" using w'(3) by (simp add: reportUpdateHistory_def)
  have "history_ok w'"
    using history_ok_sort [OF ok(2,3,4) _ l'] w'(2) by simp
  moreover have "insertHistory env single w = Some (0, w')"
    using w'(1) cmp(2) by (subst insertHistory_def) (simp add: cmp(1) Let_def h_def)
  ultimately show ?thesis using w'(2) l' cmp(1) by simp
qed

lemma insert_hit_update:
  assumes "insertHistory env single w = Some (rc, w')"
    and "\<not> fst (compareHistoryCollect (single\<lparr>r_timestamp := env_time env\<rparr>) (historyList (history w))) < 0"
  shows "\<exists>c l. compareHistoryCollect (single\<lparr>r_timestamp := env_time env\<rparr>) (historyList (history w)) = (c, l) \<and> 0 \<le> c \<and>
    wrapper_history_update_cb env (recipes_zero\<lparr>r_timestamp := env_time env\<rparr>) (set_history l w) = Some (rc, w')"
  using assms by (cases "compareHistoryCollect (single\<lparr>r_timestamp := env_time env\<rparr>) (historyList (history w))")
    (simp add: insertHistory_def Let_def)

lemma update_zero_reported:
  assumes "wrapper_history_update_cb env (recipes_zero\<lparr>r_timestamp := t\<rparr>) w = Some (rc, w')" and "t > 0"
    and "cloud_connected (linkkit w) \<noteq> 0" and "g_ota_state (linkkit w) = OTA_IDLE"
  shows "Post_Property (cJSON_PrintUnformatted (JObj [(''UpdateHistory'', JObj [(''id'', JNum 0), (''collect'', JNum 0),
      (''timestamp'', JNum t), (''seqid'', JNum (g_history_seqid (history w) + 1))])])) \<in> set (trace w')"
  using assms
  by (auto simp: wrapper_history_update_cb_def recipes_zero_def Let_def option_bind_Some_iff update_key_to_table_def
      report_msg_all_platform_def Object_isNull_iff send_event_uds_trace linkkit_user_post_property_def
      cJSON_CreateObject_def db_change_frame simp del: cJSON_PrintUnformatted.simps)

text \<open>Rows are found, deleted and changed by their id.\<close>

lemma find_distinct_id: "distinct (map r_id l) \<Longrightarrow> r \<in> set l \<Longrightarrow> List.find (\<lambda>x. r_id x = r_id r) l = Some r"
  by (induction l) force+

lemma delete_distinct_id:
  "distinct (map r_id l) \<Longrightarrow> r \<in> set l \<Longrightarrow> mset (filter (\<lambda>x. r_id x \<noteq> r_id r) l) = mset l - {#r#}"
proof (induction l)
  case (Cons x l)
  show ?case
  proof (cases "x = r")
    case True
    with Cons.prems(1) have "filter (\<lambda>x. r_id x \<noteq> r_id r) l = l" by (intro filter_True ballI notI) (metis distinct.simps(2) image_eqI list.simps(9) set_map)
    with True show ?thesis by simp
  next
    case False
    with Cons show ?thesis by force
  qed
qed simp

lemma update_first_mset:
  "distinct (map r_id l) \<Longrightarrow> r \<in> set l \<Longrightarrow> r_id s = r_id r \<Longrightarrow>
    mset (update_first s l) = add_mset (updated s r) (mset l - {#r#})"
proof (induction l)
  case (Cons x l)
  show ?case
  proof (cases "x = r")
    case False
    with Cons.prems have "r_id x \<noteq> r_id s" "r \<in> set l" by force+
    with False Cons show ?thesis by simp
  qed (use Cons.prems in simp)
qed simp

lemma last_collected_exists:
  assumes "binary_collect l" and "length l - getHistoryCount l > 0"
  shows "\<exists>c \<in> set l. r_collect c = 1 \<and> lastHistoryId 1 l = r_id c"
proof -
  have "\<exists>c \<in> set l. r_collect c \<noteq> 0"
  proof (rule ccontr)
    assume "\<not> (\<exists>c \<in> set l. r_collect c \<noteq> 0)"
    then have "filter (\<lambda>r. r_collect r = 0) l = l" by simp
    with assms(2) show False by (simp add: getHistoryCount_eq)
  qed
  with assms(1) have "\<exists>x \<in> set (rev l). r_collect x = 1" by (auto simp: binary_collect_def)
  then obtain x where f: "List.find (\<lambda>r. r_collect r = 1) (rev l) = Some x"
    by (cases "List.find (\<lambda>r. r_collect r = 1) (rev l)") (auto simp: find_None_iff)
  with find_last [OF f] show ?thesis by (auto simp: lastHistoryId_def)
qed

section \<open>An engine for the witnesses\<close>

text \<open>It remembers the last arguments of an insertion and gives them back under id 1.\<close>

definition arg_col :: "sql_arg \<Rightarrow> sql_col" where
  "arg_col a = (case a of Sql_Int n \<Rightarrow> Sql_Col n None | Sql_Text s \<Rightarrow> Sql_Col 0 (Some s))"

definition last_row_engine :: "sql_arg list sqlite" where
  "last_row_engine = \<lparr>sqlite3_exec = (\<lambda>_ db. (True, db)), sqlite3_prepare = (\<lambda>_ _. True),
     sqlite3_run = (\<lambda>sql args db.
       if sql = sql_insert_replace HISTORY_TABLE_NAME then ([], 101, args)
       else if sql = sql_select_seqid HISTORY_TABLE_NAME then ([Sql_Col 1 None # map arg_col db], 101, db)
       else ([], 101, db))\<rparr>"

lemma last_row_engine_ok: "history_engine (env_of last_row_engine)"
proof -
  have "\<exists>i>0. \<exists>rc. \<forall>rows rc1 db'.
      sqlite3_run last_row_engine (sql_insert_replace HISTORY_TABLE_NAME) (row_args r) db = (rows, rc1, db') \<longrightarrow>
      sqlite3_run last_row_engine (sql_select_seqid HISTORY_TABLE_NAME) [Sql_Int (r_seqid r)] db' =
        ([row_of (r\<lparr>r_id := i\<rparr>)], rc, db')" for r db
    by (intro exI [of _ 1] conjI exI [of _ 101])
      (simp_all add: last_row_engine_def row_args_def row_of_def arg_col_def sql_insert_replace_def sql_select_seqid_def)
  then show ?thesis by (simp add: history_engine_def env_of_def) (simp add: last_row_engine_def)
qed

section \<open>The contract of the table\<close>

text \<open>The recipes can be read: the selection gives rows that fit \<open>recipes_t\<close> and leaves the database as
  it is.\<close>

definition recipes_readable :: "'db env \<Rightarrow> 'db world \<Rightarrow> bool" where
  "recipes_readable env w \<longleftrightarrow>
     (case sqlite3_run (env_sqlite env) (sql_select RECIPE_TABLE_NAME) [] (database w) of
        (rows, rc, db) \<Rightarrow> db = database w \<and> (\<forall>row \<in> set rows. recipes_of_row row \<noteq> None))"

lemma recipe_rows_read:
  "\<forall>row \<in> set rows. recipes_of_row row \<noteq> None \<Longrightarrow>
    \<exists>j. foldM (\<lambda>row st. do { r \<leftarrow> recipes_of_row row; recipe_select_func r st }) rows (j0, w) = Some (j, w)"
  by (induction rows arbitrary: j0) (auto simp: recipe_select_func_def Let_def)

lemma CookRecipe_total:
  assumes "recipes_readable env w"
  shows "\<exists>item. CookRecipe_cb env arg w = Some (item, w)"
proof -
  have fits: "str_fits 128 (sql_select RECIPE_TABLE_NAME) = Some (sql_select RECIPE_TABLE_NAME)"
    using sql_fits(1) [of RECIPE_TABLE_NAME] by (simp add: str_fits_def)
  obtain rows rc where run: "sqlite3_run (env_sqlite env) (sql_select RECIPE_TABLE_NAME) [] (database w) = (rows, rc, database w)"
    and rows: "\<forall>row \<in> set rows. recipes_of_row row \<noteq> None"
    using assms by (cases "sqlite3_run (env_sqlite env) (sql_select RECIPE_TABLE_NAME) [] (database w)")
      (auto simp: recipes_readable_def)
  obtain j where "foldM (\<lambda>row st. do { r \<leftarrow> recipes_of_row row; recipe_select_func r st }) rows (cJSON_CreateArray, w) = Some (j, w)"
    using recipe_rows_read [OF rows] by blast
  then show ?thesis
    by (simp add: CookRecipe_cb_def select_from_table_def select_rows_def fits db_run_def run)
qed

lemma update_cb_uds: "wrapper_history_update_cb env h w = Some (r, w') \<Longrightarrow> uds w' = uds w"
  by (auto simp: wrapper_history_update_cb_def Let_def option_bind_Some_iff update_key_to_table_def
      update_key_string_table_def db_change_frame split: if_splits)

lemma delete_cb_uds: "wrapper_history_delete_cb env i w = Some (r, w') \<Longrightarrow> uds w' = uds w"
  by (auto simp: wrapper_history_delete_cb_def Let_def option_bind_Some_iff delete_row_from_table_def db_change_frame)

lemma updateHistory_uds: "updateHistory env s w = Some (r, w') \<Longrightarrow> uds w' = uds w"
  by (auto simp: updateHistory_def Let_def option_bind_Some_iff dest!: update_cb_uds delete_cb_uds
      split: option.splits if_splits)

lemma UpdateHistory_uds: "UpdateHistory_cb env arg w = Some (item, w') \<Longrightarrow> uds w' = uds w"
  by (auto simp: UpdateHistory_cb_def option_bind_Some_iff Let_def dest!: updateHistory_uds split: option.splits)

lemma DeleteHistory_uds:
  assumes "DeleteHistory_cb env arg w = Some (item, w')"
  shows "uds w' = uds w"
proof (cases "cJSON_GetArraySize arg = 0")
  case False
  let ?f = "\<lambda>i (array, w). case cJSON_GetArrayItem arg i of
            None \<Rightarrow> Some (array, w)
          | Some sub \<Rightarrow> do {
              (_, w) \<leftarrow> delete_row_from_table env HISTORY_TABLE_NAME (valueint sub) w;
              let array = cJSON_AddItemToArray array (JNum (valueint sub));
              Some (array, set_history (reportDeleteHistory (valueint sub) (historyList (history w))) w)
            }"
  obtain array where run: "foldM ?f [0..<cJSON_GetArraySize arg] (cJSON_CreateArray, w) = Some (array, w')"
    using assms False by (auto simp: DeleteHistory_cb_def option_bind_Some_iff)
  have "uds (snd (array, w')) = uds w"
    by (rule foldM_invariant [OF run, where P = "\<lambda>st. uds (snd st) = uds w"])
      (auto simp: option_bind_Some_iff delete_row_from_table_def db_change_frame split: option.splits)
  then show ?thesis by simp
qed (use assms in \<open>simp add: DeleteHistory_cb_def\<close>)

interpretation database_attrs: attr_table "g_database_set_attr env" "\<lambda>w. w = w0 \<and> recipes_readable env w" "\<lambda>w. uds w = u"
  for env :: "'db env" and w0 :: "'db world" and u :: uds_state
proof
  fix a w
  assume "a \<in> set (g_database_set_attr env)" "reports a" "w = w0 \<and> recipes_readable env w"
  then show "\<exists>item w'. sa_cb a None w = Some (item, w') \<and> w' = w0 \<and> recipes_readable env w'"
    using CookRecipe_total [of env w0 None]
    by (auto simp: g_database_set_attr_def reports_def link_types CookHistory_cb_def CookHistorySimple_cb_def)
next
  fix a w j item w'
  assume "a \<in> set (g_database_set_attr env)" "controls a" "uds w = u" "sa_cb a (Some j) w = Some (item, w')"
  then show "uds w' = u"
    by (auto simp: g_database_set_attr_def controls_def link_types UpdateRecipe_cb_def
        dest: DeleteHistory_uds UpdateHistory_uds)
qed

section \<open>Properties\<close>







end
