(* ===== verification/X50_Cloud_Attr.thy ===== *)
theory X50_Cloud_Attr
  imports X50_Ecb_Link X50_History_Db
begin

text \<open>
  The attributes of the device (\<open>cloud_platform_task.c\<close>): the values the power board reports
  (\<open>uart_cmd\<close> followed by \<open>uart_byte_len\<close> bytes), their form as JSON for the cloud and the UI, and the
  way back from a JSON command to the bytes of a \<open>SET\<close> message.

  A pointer to an attribute is its index in \<open>attrs\<close>. Results that no caller looks at are left out.
\<close>

section \<open>Looking up attributes\<close>

definition UART_CMD_MULTISTAGE_SET :: byte where "UART_CMD_MULTISTAGE_SET = 76"
definition UART_CMD_MULTISTAGE_STATE :: byte where "UART_CMD_MULTISTAGE_STATE = 77"

abbreviation attr_len :: "'db world \<Rightarrow> nat" where "attr_len w \<equiv> length (attrs (g_cloud_dev w))"
abbreviation attr_at :: "'db world \<Rightarrow> nat \<Rightarrow> cloud_attr" where "attr_at w j \<equiv> attrs (g_cloud_dev w) ! j"

definition set_attr_at :: "nat \<Rightarrow> cloud_attr \<Rightarrow> 'db world \<Rightarrow> 'db world" where
  "set_attr_at j a w = w\<lparr>g_cloud_dev := (g_cloud_dev w)\<lparr>attrs := (attrs (g_cloud_dev w))[j := a]\<rparr>\<rparr>"

definition set_remind :: "string list \<Rightarrow> 'db world \<Rightarrow> 'db world" where
  "set_remind r w = w\<lparr>g_cloud_dev := (g_cloud_dev w)\<lparr>remind := r\<rparr>\<rparr>"

text \<open>The first byte of a block, and its first \<open>n\<close> bytes, where \<open>n = 0\<close> reads nothing.\<close>

definition first_byte :: "bytes option \<Rightarrow> byte option" where
  "first_byte m = do { m \<leftarrow> m; rd m 0 }"

definition read_block :: "bytes option \<Rightarrow> nat \<Rightarrow> bytes option" where
  "read_block m n = (if n = 0 then Some [] else do { m \<leftarrow> m; rd_n m 0 n })"

text \<open>\<open>get_ErrorCodeShow\<close> and \<open>get_ErrorCode\<close> compare the first attribute in every round of their
  loops. An \<open>int\<close> in memory is little-endian.\<close>

definition get_ErrorCodeShow :: "'db world \<Rightarrow> byte option" where
  "get_ErrorCodeShow w =
     (if 0 < attr_len w \<and> cloud_key (attr_at w 0) = ''ErrorCodeShow'' then first_byte (attr_value (attr_at w 0)) else Some 0)"

definition get_ErrorCode :: "'db world \<Rightarrow> 32 word option" where
  "get_ErrorCode w =
     (if 0 < attr_len w \<and> cloud_key (attr_at w 0) = ''ErrorCode'' then do {
        m \<leftarrow> attr_value (attr_at w 0);
        bs \<leftarrow> rd_n m 0 4;
        Some (word_of_int (fold (\<lambda>b n. n * 256 + uint b) (rev bs) 0))
      }
      else Some 0)"

definition get_attr_ptr :: "string \<Rightarrow> 'db world \<Rightarrow> nat option" where
  "get_attr_ptr name w = List.find (\<lambda>j. cloud_key (attr_at w j) = name) [0..<attr_len w]"

definition get_HoodSpeed :: "'db world \<Rightarrow> int option" where
  "get_HoodSpeed w =
     (case get_attr_ptr ''HoodSpeed'' w of
        None \<Rightarrow> Some (-1)
      | Some j \<Rightarrow> map_option sint (first_byte (attr_value (attr_at w j))))"

text \<open>\<open>getNetworkMac\<close> of \<open>liblinktool/tool/networkFunc.c\<close>, whose separator is never NULL here. It fails
  when the system does not give the address.\<close>

definition hex2 :: "byte \<Rightarrow> string" where
  "hex2 b = [hex_digit (unat b div 16), hex_digit (unat b mod 16)]"

definition getNetworkMac :: "'db env \<Rightarrow> nat \<Rightarrow> string \<Rightarrow> string option" where
  "getNetworkMac env len separator = do {
     sa \<leftarrow> env_hwaddr env;
     Some (take (len - 1) (hex2 (sa ! 0) @ separator @ hex2 (sa ! 1) @ separator @ hex2 (sa ! 2) @ separator @
       hex2 (sa ! 3) @ separator @ hex2 (sa ! 4) @ separator @ hex2 (sa ! 5)))
   }"

text \<open>\<open>cJSON_AddStringToObject\<close> of the text in a block; of NULL it adds nothing.\<close>

definition add_block_string :: "json \<Rightarrow> string \<Rightarrow> bytes option \<Rightarrow> json option" where
  "add_block_string ob key m =
     (case m of None \<Rightarrow> Some ob | Some m \<Rightarrow> map_option (cJSON_AddStringToObject ob key) (c_str m))"

definition cook_name_POSIXTimer_cb :: "'db world \<Rightarrow> 'db world option" where
  "cook_name_POSIXTimer_cb w =
     (case get_attr_ptr ''CookbookName'' w of
        None \<Rightarrow> Some w
      | Some j \<Rightarrow> do {
          resp \<leftarrow> add_block_string cJSON_CreateObject ''CookbookName'' (attr_value (attr_at w j));
          Some (snd (report_msg_all_platform resp w))
        })"

section \<open>Reporting\<close>

definition reportable :: "cloud_attr \<Rightarrow> bool" where
  "reportable a \<longleftrightarrow> (cloud_fun_type a = LINK_FUN_TYPE_ATTR_REPORT_CTRL \<or> cloud_fun_type a = LINK_FUN_TYPE_ATTR_REPORT) \<and>
     length (cloud_key a) \<noteq> 0"

text \<open>\<open>value\<close> is the byte the pointer points to, read on demand.\<close>

definition get_attr_report_event :: "nat \<Rightarrow> byte option \<Rightarrow> bool \<Rightarrow> 'db world \<Rightarrow> 'db world option" where
  "get_attr_report_event j value event_all w =
     (let a = attr_at w j;
          cooked = (\<lambda>event. do {
            v \<leftarrow> value;
            if v \<noteq> 4 then Some w
            else do {
              old \<leftarrow> first_byte (attr_value a);
              Some (if old \<noteq> v \<or> event_all then linkkit_user_post_event (Some event) None w else w)
            }
          })
      in
        if \<not> reportable a then Some w
        else if cloud_value_type a \<noteq> LINK_VALUE_TYPE_NUM then Some w
        else if cloud_key a = ''LStOvState'' then cooked ''LCookPush''
        else if cloud_key a = ''RStOvState'' then cooked ''RCookPush''
        else if cloud_key a = ''ErrorCodeShow'' then do {
          old \<leftarrow> first_byte (attr_value a);
          v \<leftarrow> value;
          Some (if old \<noteq> v \<or> event_all
            then linkkit_user_post_event (Some ''ErrorPush'')
              (Some (cJSON_PrintUnformatted (cJSON_AddNumberToObject cJSON_CreateObject ''FaultCode'' (int (unat v))))) w
            else w)
        }
        else Some w)"

text \<open>\<open>cloud_val = (cloud_val << 8) + ptr->value[i]\<close> over the bytes.\<close>

definition cloud_val :: "bytes \<Rightarrow> int" where
  "cloud_val bs = fold (\<lambda>b n. i32 (n * 256 + int (unat b))) bs 0"

text \<open>A reported recipe number without a name: the name is looked up and reported on its own.\<close>

definition report_cookbook_name :: "'db env \<Rightarrow> int \<Rightarrow> 'db world \<Rightarrow> 'db world option" where
  "report_cookbook_name env val w =
     (case get_attr_ptr ''CookbookName'' w of
        None \<Rightarrow> Some w
      | Some j \<Rightarrow>
          (case attr_value (attr_at w j) of
             None \<Rightarrow> Some w
           | Some m \<Rightarrow> do {
               s \<leftarrow> c_str m;
               if length s \<noteq> 0 then Some w
               else do {
                 (rc, name, w) \<leftarrow> select_for_cookbookID env val (unat (uart_byte_len (attr_at w j))) w;
                 case name of
                   None \<Rightarrow> Some w
                 | Some name \<Rightarrow> do {
                     m \<leftarrow> wr_n m 0 name;
                     let w = set_attr_at j ((attr_at w j)\<lparr>attr_value := Some m\<rparr>) w;
                     resp \<leftarrow> add_block_string cJSON_CreateObject ''CookbookName'' (Some m);
                     Some (snd (report_msg_all_platform resp w))
                   }
               }
             }))"

text \<open>A text: a value without a NUL at its end is copied, and then cut in place.\<close>

definition report_string :: "'db env \<Rightarrow> nat \<Rightarrow> 'db world \<Rightarrow> (string option \<times> 'db world) option" where
  "report_string env j w =
     (let a = attr_at w j; len = unat (uart_byte_len a) in do {
        cut \<leftarrow> (if len > 1 then do { m \<leftarrow> attr_value a; last \<leftarrow> rd m (len - 1); Some (last \<noteq> 0) } else Some False);
        if cut then do {
          m \<leftarrow> attr_value a;
          buf \<leftarrow> rd_n m 0 len;
          m \<leftarrow> wr_n m (len - 1) [0];
          s \<leftarrow> c_str buf;
          Some (Some s, set_attr_at j (a\<lparr>attr_value := Some m\<rparr>) w)
        }
        else if cloud_key a = ''ComSWVersion'' then Some (Some (software_ver (g_cloud_dev w)), w)
        else if cloud_key a = ''ElcSWVersion'' \<or> cloud_key a = ''ElcHWVersion'' then do {
          v \<leftarrow> first_byte (attr_value a);
          Some (Some (dec_int (int (unat v div 16)) @ ''.'' @ dec_int (int (unat v mod 16))), w)
        }
        else if cloud_key a = ''WifiMac'' then do { mac \<leftarrow> getNetworkMac env 16 []; Some (Some mac, w) }
        else (case attr_value a of None \<Rightarrow> Some (None, w) | Some m \<Rightarrow> do { s \<leftarrow> c_str m; Some (Some s, w) })
      })"

definition report_item :: "'db env \<Rightarrow> nat \<Rightarrow> 'db world \<Rightarrow> (json option \<times> 'db world) option" where
  "report_item env j w =
     (let a = attr_at w j in
      if cloud_value_type a = LINK_VALUE_TYPE_STRUCT then
        if uart_cmd a = UART_CMD_MULTISTAGE_STATE then do {
          v \<leftarrow> read_block (attr_value a) 3;
          let item = cJSON_AddNumberToObject cJSON_CreateObject ''cnt'' (int (unat (v ! 0)));
          let item = cJSON_AddNumberToObject item ''current'' (int (unat (v ! 1)));
          let item = cJSON_AddNumberToObject item ''remind'' (int (unat (v ! 2)));
          text \<leftarrow> (if v ! 2 \<noteq> 0 then rd (remind (g_cloud_dev w)) (unat (v ! 1)) else Some []);
          Some (Some (cJSON_AddStringToObject item ''RemindText'' text), w)
        }
        else Some (None, w)
      else do {
        bs \<leftarrow> read_block (attr_value a) (unat (uart_byte_len a));
        let val = cloud_val bs;
        if cloud_value_type a = LINK_VALUE_TYPE_STRING_NUM then Some (Some (JStr (dec_int val)), w)
        else if cloud_value_type a = LINK_VALUE_TYPE_NUM then do {
          w \<leftarrow> (if cloud_key a = ''CookbookID'' \<and> val > 0 then report_cookbook_name env val w else Some w);
          Some (Some (JNum val), w)
        }
        else if cloud_value_type a = LINK_VALUE_TYPE_STRING then do {
          (s, w) \<leftarrow> report_string env j w;
          Some (map_option JStr s, w)
        }
        else Some (None, w)
      })"

definition get_attr_report_value :: "'db env \<Rightarrow> nat \<Rightarrow> json \<times> 'db world \<Rightarrow> (json \<times> 'db world) option" where
  "get_attr_report_value env j st = (case st of (resp, w) \<Rightarrow>
     if \<not> reportable (attr_at w j) then Some (resp, w)
     else do {
       let key = cloud_key (attr_at w j);
       (item, w) \<leftarrow> report_item env j w;
       Some (case item of None \<Rightarrow> resp | Some it \<Rightarrow> cJSON_AddItemToObject resp key it, w)
     })"

section \<open>Setting\<close>

text \<open>A number of \<open>n\<close> bytes, the high byte first: \<open>num >> (8 * (n - 1 - i))\<close>, which is undefined for
  a \<open>long\<close> of 32 bits when \<open>n\<close> is more than 4.\<close>

definition num_bytes :: "nat \<Rightarrow> int \<Rightarrow> bytes option" where
  "num_bytes n num = (if n > 4 then None else Some (map (\<lambda>i. byte_of_int (num div 256 ^ (n - 1 - i))) [0..<n]))"

abbreviation hi_lo :: "int \<Rightarrow> bytes" where "hi_lo v \<equiv> [byte_of_int (v div 256), byte_of_int v]"

text \<open>The twelve bytes of a stage, and the text that reminds the user of it. A stage without a mode,
  temperature or time is a NULL pointer that is followed.\<close>

definition stage_bytes :: "nat \<Rightarrow> json \<Rightarrow> 'db world \<Rightarrow> (bytes \<times> 'db world) option" where
  "stage_bytes i sub w = do {
     let it = cJSON_GetObjectItem (Some sub);
     (flag, w) \<leftarrow> (case it ''RemindText'' of
         None \<Rightarrow> Some (0, w)
       | Some t \<Rightarrow> do {
           s \<leftarrow> valuestring t;
           if length s > 0 then do {
             s \<leftarrow> str_fits 48 s;
             _ \<leftarrow> rd (remind (g_cloud_dev w)) i;
             Some (1, set_remind ((remind (g_cloud_dev w))[i := s]) w)
           }
           else Some (0, w)
         });
     Mode \<leftarrow> it ''Mode'';
     Temp \<leftarrow> it ''Temp'';
     Timer \<leftarrow> it ''Timer'';
     let steam = (case it ''SteamTime'' of None \<Rightarrow> [0, 0] | Some t \<Rightarrow> hi_lo (valueint t));
     let fan = (case it ''FanTime'' of None \<Rightarrow> [0, 0] | Some t \<Rightarrow> hi_lo (valueint t));
     let water = (case it ''WaterTime'' of None \<Rightarrow> 0 | Some t \<Rightarrow> byte_of_int (valueint t));
     Some ([byte_of_nat (i + 1), flag, byte_of_int (valueint Mode)] @ hi_lo (valueint Temp) @ hi_lo (valueint Timer) @
       steam @ fan @ [water], w)
   }"

definition all_stage_bytes :: "json \<Rightarrow> 'db world \<Rightarrow> (bytes \<times> 'db world) option" where
  "all_stage_bytes item = (\<lambda>w. foldM (\<lambda>i (bs, w).
     case cJSON_GetArrayItem (Some item) i of
       None \<Rightarrow> Some (bs, w)
     | Some sub \<Rightarrow> do { (b, w) \<leftarrow> stage_bytes i sub w; Some (bs @ b, w) })
     [0..<cJSON_GetArraySize (Some item)] ([], w))"

text \<open>\<open>out\<close> is \<open>&uart_buf[off]\<close>. The bytes are written in one go: they are only seen when all of
  them have been written.\<close>

definition write_out :: "nat \<Rightarrow> bytes \<Rightarrow> 'db world \<Rightarrow> 'db world option" where
  "write_out off bs w = do { m \<leftarrow> wr_n (uart_buf w) off bs; Some (w\<lparr>uart_buf := m\<rparr>) }"

definition set_done :: "nat \<Rightarrow> nat \<Rightarrow> 'db world \<Rightarrow> (nat \<times> 'db world) option" where
  "set_done j off w = do {
     w \<leftarrow> write_out off [uart_cmd (attr_at w j)] w;
     Some (unat (uart_byte_len (attr_at w j)) + 1, w)
   }"

definition get_attr_set_value :: "nat \<Rightarrow> json \<Rightarrow> nat \<Rightarrow> 'db world \<Rightarrow> (nat \<times> 'db world) option" where
  "get_attr_set_value j item off w =
     (let a = attr_at w j in
      if cloud_value_type a = LINK_VALUE_TYPE_STRUCT then
        if uart_cmd a = UART_CMD_MULTISTAGE_SET then
          if cJSON_GetArraySize (Some item) = 0 then Some (0, w)
          else do {
            let n = cJSON_GetArraySize (Some item);
            let w = set_attr_at j (a\<lparr>uart_byte_len := byte_of_nat (n * 12 + 1)\<rparr>) w;
            (bs, w) \<leftarrow> all_stage_bytes item w;
            w \<leftarrow> write_out (off + 1) (byte_of_nat n # bs) w;
            let w = (if cloud_key a = ''MultiStageContent'' then set_remind (replicate 3 []) w else w);
            set_done j off w
          }
        else set_done j off w
      else if cloud_value_type a = LINK_VALUE_TYPE_STRING \<and> cloud_key a = ''CookbookName'' then do {
        s \<leftarrow> valuestring item;
        m \<leftarrow> attr_value a;
        m \<leftarrow> wr_str m s;
        Some (0, set_attr_at j (a\<lparr>attr_value := Some m\<rparr>) w)
      }
      else if cloud_value_type a = LINK_VALUE_TYPE_STRING then do {
        s \<leftarrow> valuestring item;
        w \<leftarrow> write_out (off + 1) (bytes_of s) w;
        set_done j off w
      }
      else if cloud_value_type a = LINK_VALUE_TYPE_STRING_NUM then do {
        s \<leftarrow> valuestring item;
        case strtol10 s of
          None \<Rightarrow> Some (0, w)
        | Some num \<Rightarrow> do {
            bs \<leftarrow> num_bytes (unat (uart_byte_len a)) num;
            w \<leftarrow> write_out (off + 1) bs w;
            set_done j off w
          }
      }
      else do {
        bs \<leftarrow> num_bytes (unat (uart_byte_len a)) (if cloud_value_type a = LINK_VALUE_TYPE_NUM then valueint item else 0);
        w \<leftarrow> write_out (off + 1) bs w;
        set_done j off w
      })"

section \<open>The handlers\<close>

text \<open>\<open>send_data_to_cloud\<close>: a byte that is a command is followed by its value; any other byte is
  skipped. \<open>value\<close> goes to the end of the object it is in, \<open>value_len\<close> bytes of it count.\<close>

definition attr_of_cmd :: "byte \<Rightarrow> 'db world \<Rightarrow> nat option" where
  "attr_of_cmd c w = List.find (\<lambda>j. c = uart_cmd (attr_at w j)) [0..<attr_len w]"

definition report_command :: "'db env \<Rightarrow> bytes \<Rightarrow> nat \<Rightarrow> nat \<Rightarrow> json \<times> 'db world \<Rightarrow> (nat \<times> json \<times> 'db world) option" where
  "report_command env val i j st = (case st of (root, w) \<Rightarrow> do {
     w \<leftarrow> get_attr_report_event j (rd val (i + 1)) False w;
     new \<leftarrow> (if uart_byte_len (attr_at w j) = 0 then Some (attr_value (attr_at w j))
            else do {
              m \<leftarrow> attr_value (attr_at w j);
              bs \<leftarrow> rd_n val (i + 1) (unat (uart_byte_len (attr_at w j)));
              map_option Some (wr_n m 0 bs)
            });
     let w = set_attr_at j ((attr_at w j)\<lparr>attr_value := new\<rparr>) w;
     (root, w) \<leftarrow> get_attr_report_value env j (root, w);
     (root, w) \<leftarrow> (if cloud_key (attr_at w j) = ''MultiMode'' then do {
         b \<leftarrow> first_byte (attr_value (attr_at w j));
         if b \<noteq> 1 then Some (root, w)
         else (case get_attr_ptr ''CookbookName'' w of
             None \<Rightarrow> Some (root, w)
           | Some k \<Rightarrow> get_attr_report_value env k (root, w))
       } else Some (root, w));
     Some (unat (uart_byte_len (attr_at w j)), root, w)
   })"

definition report_byte :: "'db env \<Rightarrow> bytes \<Rightarrow> nat \<Rightarrow> json \<times> 'db world \<Rightarrow> (nat \<times> json \<times> 'db world) option" where
  "report_byte env val i st = do {
     c \<leftarrow> rd val i;
     case attr_of_cmd c (snd st) of
       None \<Rightarrow> Some (0, st)
     | Some j \<Rightarrow> report_command env val i j st
   }"

function report_loop :: "'db env \<Rightarrow> bytes \<Rightarrow> nat \<Rightarrow> nat \<Rightarrow> json \<times> 'db world \<Rightarrow> (json \<times> 'db world) option" where
  "report_loop env val n i st =
     (if i < n then
        (case report_byte env val i st of
           None \<Rightarrow> None
         | Some (skip, st) \<Rightarrow> report_loop env val n (i + skip + 1) st)
      else Some st)"
  by pat_completeness auto
termination by (relation "measure (\<lambda>(_, _, n, i, _). n - i)") auto

declare report_loop.simps [simp del]

definition send_data_to_cloud :: "'db env \<Rightarrow> bytes option \<Rightarrow> nat \<Rightarrow> 'db world \<Rightarrow> 'db world option" where
  "send_data_to_cloud env val value_len w = do {
     (root, w) \<leftarrow> (case val of
         None \<Rightarrow> Some (cJSON_CreateObject, w)
       | Some val \<Rightarrow> report_loop env val value_len 0 (cJSON_CreateObject, w));
     Some (snd (report_msg_all_platform root w))
   }"

definition send_all_to_cloud :: "'db env \<Rightarrow> 'db world \<Rightarrow> 'db world option" where
  "send_all_to_cloud env w = do {
     (root, w) \<leftarrow> foldM (\<lambda>j (root, w). do {
         w \<leftarrow> get_attr_report_event j (first_byte (attr_value (attr_at w j))) True w;
         get_attr_report_value env j (root, w)
       }) [0..<attr_len w] (cJSON_CreateObject, w);
     let w = linkkit_user_post_property (Some (cJSON_PrintUnformatted root)) w;
     let ask = cJSON_AddNullToObject cJSON_CreateObject ''CookHistorySimple'';
     (resp_db, w) \<leftarrow> database_resp_get env (Some ask) (cJSON_CreateObject, w);
     Some (linkkit_user_post_property (Some (cJSON_PrintUnformatted resp_db)) w)
   }"

definition cloud_resp_get :: "'db env \<Rightarrow> json option \<Rightarrow> json \<times> 'db world \<Rightarrow> (json \<times> 'db world) option" where
  "cloud_resp_get env root st =
     foldM (\<lambda>j st. if cJSON_HasObjectItem root (cloud_key (attr_at (snd st) j)) then get_attr_report_value env j st else Some st)
       [0..<attr_len (snd st)] st"

definition cloud_resp_getall :: "'db env \<Rightarrow> json \<times> 'db world \<Rightarrow> (json \<times> 'db world) option" where
  "cloud_resp_getall env st = foldM (get_attr_report_value env) [0..<attr_len (snd st)] st"

definition controllable :: "cloud_attr \<Rightarrow> bool" where
  "controllable a \<longleftrightarrow> cloud_fun_type a = LINK_FUN_TYPE_ATTR_REPORT_CTRL \<or> cloud_fun_type a = LINK_FUN_TYPE_ATTR_CTRL"

definition cloud_set_bytes :: "json option \<Rightarrow> 'db world \<Rightarrow> (nat \<times> 'db world) option" where
  "cloud_set_bytes root w = foldM (\<lambda>j (n, w).
     if controllable (attr_at w j) then
       (case cJSON_GetObjectItem root (cloud_key (attr_at w j)) of
          None \<Rightarrow> Some (n, w)
        | Some item \<Rightarrow> do { (k, w) \<leftarrow> get_attr_set_value j item n w; Some (n + k, w) })
     else Some (n, w)) [0..<attr_len w] (0, w)"

text \<open>The answer object of the caller is not used.\<close>

definition cloud_resp_set :: "'db env \<Rightarrow> json option \<Rightarrow> 'db world \<Rightarrow> 'db world option" where
  "cloud_resp_set env root w = do {
     (uart_buf_len, w) \<leftarrow> cloud_set_bytes root w;
     w \<leftarrow> (if uart_buf_len > 0 then map_option snd (ecb_uart_send_cloud_msg env (uart_buf w) uart_buf_len w) else Some w);
     (resp_db, w) \<leftarrow> database_resp_set env root (cJSON_CreateObject, w);
     Some (snd (report_msg_all_platform resp_db w))
   }"

definition recv_data_from_cloud :: "'db env \<Rightarrow> string \<Rightarrow> 'db world \<Rightarrow> (int \<times> 'db world) option" where
  "recv_data_from_cloud env val w =
     (case cJSON_Parse val of
        None \<Rightarrow> Some (-1, w)
      | Some root \<Rightarrow> do { w \<leftarrow> cloud_resp_set env (Some root) w; Some (0, w) })"

end
