(* ===== verification/X50_Wifi_Ota_Tasks.thy ===== *)
theory X50_Wifi_Ota_Tasks
  imports X50_Attr X50_Linkkit
begin

text \<open>
  The WiFi and the OTA tasks of the UI protocol (\<open>wifi/wifi_task.c\<close> over \<open>wifi/rkwifi.c\<close>, and
  \<open>ota/ota_task.c\<close>): their attribute tables. The WiFi library is the environment.
\<close>

section \<open>WiFi\<close>

text \<open>\<open>wifiConnect\<close> of \<open>wifi/rkwifi.c\<close> reports the running state when the library refuses, through
  \<open>rk_wifi_cb\<close> to \<open>wiFiCallback\<close>.\<close>

definition wifiEnable :: "'db env \<Rightarrow> int \<Rightarrow> 'db world \<Rightarrow> int \<times> 'db world" where
  "wifiEnable env enable w = (env_wifi_enable env enable, emit (Wifi_Enable enable) w)"

definition wifiConnect :: "'db env \<Rightarrow> string \<Rightarrow> string \<Rightarrow> int \<Rightarrow> 'db world \<Rightarrow> int \<times> 'db world" where
  "wifiConnect env ssid psk encryp w =
     (let result = env_wifi_connect env ssid psk encryp;
          w = emit (Wifi_Connect ssid psk encryp) w;
          w = (if result < 0 then wiFiCallback env (env_wifi_state env) w else w)
      in (result, w))"

definition wifiDisconnect :: "'db env \<Rightarrow> 'db world \<Rightarrow> int \<times> 'db world" where
  "wifiDisconnect env w = (env_wifi_disconnect env, emit Wifi_Disconnect w)"

definition wifiScan :: "'db world \<Rightarrow> 'db world" where
  "wifiScan w = emit Wifi_Scan w"

text \<open>The connection information is only filled in when the WiFi is connected; otherwise the strings
  are empty.\<close>

definition getWifiConnectionInfo :: "'db env \<Rightarrow> string \<times> string \<times> string \<times> string" where
  "getWifiConnectionInfo env =
     (if RK_WIFI_State_CONNECTED env \<noteq> env_wifi_state env then ([], [], [], []) else snd (env_wifi_info env))"

definition WifiState_cb :: "'db env \<Rightarrow> json option \<Rightarrow> 'db world \<Rightarrow> (json option \<times> 'db world) option" where
  "WifiState_cb env arg w = Some (Some (JNum (env_wifi_state env)), w)"

definition WifiEnable_cb :: "'db env \<Rightarrow> json option \<Rightarrow> 'db world \<Rightarrow> (json option \<times> 'db world) option" where
  "WifiEnable_cb env arg w = Some (case arg of
     None \<Rightarrow> (None, w)
   | Some item \<Rightarrow> (case wifiEnable env (valueint item) w of
       (r, w) \<Rightarrow> (if r < 0 then None else Some (JNum (valueint item)), w)))"

definition WifiScan_cb :: "json option \<Rightarrow> 'db world \<Rightarrow> (json option \<times> 'db world) option" where
  "WifiScan_cb arg w = Some (None, wifiScan w)"

definition WifiScanR_cb :: "'db env \<Rightarrow> json option \<Rightarrow> 'db world \<Rightarrow> (json option \<times> 'db world) option" where
  "WifiScanR_cb env arg w = Some (Some (JStr (env_wifi_scan_r env)), w)"

text \<open>The library is given the strings of the request, which are NULL pointers when the members are
  not strings.\<close>

definition WifiConnect_cb :: "'db env \<Rightarrow> json option \<Rightarrow> 'db world \<Rightarrow> (json option \<times> 'db world) option" where
  "WifiConnect_cb env arg w =
     (case cJSON_GetObjectItem arg ''ssid'' of None \<Rightarrow> Some (None, w) | Some ssid \<Rightarrow>
      case cJSON_GetObjectItem arg ''psk'' of None \<Rightarrow> Some (None, w) | Some psk \<Rightarrow>
      case cJSON_GetObjectItem arg ''encryp'' of None \<Rightarrow> Some (None, w) | Some encryp \<Rightarrow> do {
        s \<leftarrow> valuestring ssid;
        p \<leftarrow> valuestring psk;
        Some (None, snd (wifiConnect env s p (valueint encryp) w))
      })"

definition WifiDisconnect_cb :: "'db env \<Rightarrow> json option \<Rightarrow> 'db world \<Rightarrow> (json option \<times> 'db world) option" where
  "WifiDisconnect_cb env arg w = Some (None, snd (wifiDisconnect env w))"

definition WifiCurConnected_cb :: "'db env \<Rightarrow> json option \<Rightarrow> 'db world \<Rightarrow> (json option \<times> 'db world) option" where
  "WifiCurConnected_cb env arg w = (case getWifiConnectionInfo env of (ssid, bssid, ip, mac) \<Rightarrow>
     let item = cJSON_AddStringToObject cJSON_CreateObject ''ssid'' ssid;
         item = cJSON_AddStringToObject item ''bssid'' bssid;
         item = cJSON_AddStringToObject item ''ip_address'' ip;
         item = cJSON_AddStringToObject item ''mac_address'' mac
     in Some (Some item, w))"

definition g_wifi_set_attr :: "'db env \<Rightarrow> 'db world set_attr list" where
  "g_wifi_set_attr env = [
     \<lparr>sa_cloud_key = ''WifiState'', sa_fun_type = LINK_FUN_TYPE_ATTR_REPORT, sa_cb = WifiState_cb env\<rparr>,
     \<lparr>sa_cloud_key = ''WifiEnable'', sa_fun_type = LINK_FUN_TYPE_ATTR_CTRL, sa_cb = WifiEnable_cb env\<rparr>,
     \<lparr>sa_cloud_key = ''WifiScan'', sa_fun_type = LINK_FUN_TYPE_ATTR_CTRL, sa_cb = WifiScan_cb\<rparr>,
     \<lparr>sa_cloud_key = ''WifiScanR'', sa_fun_type = LINK_FUN_TYPE_ATTR_REPORT, sa_cb = WifiScanR_cb env\<rparr>,
     \<lparr>sa_cloud_key = ''WifiConnect'', sa_fun_type = LINK_FUN_TYPE_ATTR_CTRL, sa_cb = WifiConnect_cb env\<rparr>,
     \<lparr>sa_cloud_key = ''WifiDisconnect'', sa_fun_type = LINK_FUN_TYPE_ATTR_CTRL, sa_cb = WifiDisconnect_cb env\<rparr>,
     \<lparr>sa_cloud_key = ''WifiCurConnected'', sa_fun_type = LINK_FUN_TYPE_ATTR_REPORT, sa_cb = WifiCurConnected_cb env\<rparr>]"

definition wifi_resp_get :: "'db env \<Rightarrow> json option \<Rightarrow> json \<times> 'db world \<Rightarrow> (json \<times> 'db world) option" where
  "wifi_resp_get env = attr_resp_get (g_wifi_set_attr env)"

definition wifi_resp_getall :: "'db env \<Rightarrow> json \<times> 'db world \<Rightarrow> (json \<times> 'db world) option" where
  "wifi_resp_getall env = attr_resp_getall (g_wifi_set_attr env)"

definition wifi_resp_set :: "'db env \<Rightarrow> json option \<Rightarrow> json \<times> 'db world \<Rightarrow> (json \<times> 'db world) option" where
  "wifi_resp_set env = attr_resp_set (g_wifi_set_attr env)"

section \<open>OTA\<close>

definition OTAState_cb :: "json option \<Rightarrow> 'db world \<Rightarrow> (json option \<times> 'db world) option" where
  "OTAState_cb arg w = Some (Some (JNum (ota_number (g_ota_state (linkkit w)))), w)"

definition OTARquest_cb :: "'db env \<Rightarrow> json option \<Rightarrow> 'db world \<Rightarrow> (json option \<times> 'db world) option" where
  "OTARquest_cb env arg w =
     (case arg of
        None \<Rightarrow> Some (None, w)
      | Some item \<Rightarrow> do {
          (_, w) \<leftarrow> (if valueint item = 0 then request_fota_image env w else download_fota_image env w);
          Some (None, w)
        })"

definition OTAProgress_cb :: "json option \<Rightarrow> 'db world \<Rightarrow> (json option \<times> 'db world) option" where
  "OTAProgress_cb arg w = Some (None, w)"

definition OTANewVersion_cb :: "json option \<Rightarrow> 'db world \<Rightarrow> (json option \<times> 'db world) option" where
  "OTANewVersion_cb arg w = Some (Some (JStr (ota_new_version (linkkit w))), w)"

definition g_ota_set_attr :: "'db env \<Rightarrow> 'db world set_attr list" where
  "g_ota_set_attr env = [
     \<lparr>sa_cloud_key = ''OTAState'', sa_fun_type = LINK_FUN_TYPE_ATTR_REPORT, sa_cb = OTAState_cb\<rparr>,
     \<lparr>sa_cloud_key = ''OTARquest'', sa_fun_type = LINK_FUN_TYPE_ATTR_CTRL, sa_cb = OTARquest_cb env\<rparr>,
     \<lparr>sa_cloud_key = ''OTAProgress'', sa_fun_type = LINK_FUN_TYPE_ATTR_REPORT, sa_cb = OTAProgress_cb\<rparr>,
     \<lparr>sa_cloud_key = ''OTANewVersion'', sa_fun_type = LINK_FUN_TYPE_ATTR_REPORT, sa_cb = OTANewVersion_cb\<rparr>]"

definition ota_resp_get :: "'db env \<Rightarrow> json option \<Rightarrow> json \<times> 'db world \<Rightarrow> (json \<times> 'db world) option" where
  "ota_resp_get env = attr_resp_get (g_ota_set_attr env)"

definition ota_resp_getall :: "'db env \<Rightarrow> json \<times> 'db world \<Rightarrow> (json \<times> 'db world) option" where
  "ota_resp_getall env = attr_resp_getall (g_ota_set_attr env)"

definition ota_resp_set :: "'db env \<Rightarrow> json option \<Rightarrow> json \<times> 'db world \<Rightarrow> (json \<times> 'db world) option" where
  "ota_resp_set env = attr_resp_set (g_ota_set_attr env)"

section \<open>The tables meet the contract\<close>

lemma gesture_sync_frame [simp]:
  "uds (gesture_sync_time_cb env b w) = uds w" "linkkit (gesture_sync_time_cb env b w) = linkkit w"
  "database (gesture_sync_time_cb env b w) = database w" "history (gesture_sync_time_cb env b w) = history w"
  "g_cloud_dev (gesture_sync_time_cb env b w) = g_cloud_dev w" "ecb (gesture_sync_time_cb env b w) = ecb w"
  by (simp_all add: gesture_sync_time_cb_def gesture_sync_time_and_alarm_def gesture_send_msg_def
      gesture_uart_send_def Let_def split: prod.splits)

lemma wiFiReport_frame [simp]:
  "uds (wiFiReport env e w) = uds w" "linkkit (wiFiReport env e w) = linkkit w"
  "database (wiFiReport env e w) = database w" "history (wiFiReport env e w) = history w"
  "g_cloud_dev (wiFiReport env e w) = g_cloud_dev w" "ecb (wiFiReport env e w) = ecb w"
  by (simp_all add: wiFiReport_def Let_def)

lemma wifiConnect_uds: "uds (snd (wifiConnect env s p e w)) = uds w"
  by (simp add: wifiConnect_def wiFiCallback_def Let_def)

text \<open>Reporting WiFi attributes changes nothing at all.\<close>

interpretation wifi_attrs: attr_table "g_wifi_set_attr env" "\<lambda>w. w = w0" "\<lambda>w. uds w = u"
  for env :: "'db env" and w0 :: "'db world" and u :: uds_state
proof
  fix a w
  assume "a \<in> set (g_wifi_set_attr env)" "reports a" "w = w0"
  then show "\<exists>item w'. sa_cb a None w = Some (item, w') \<and> w' = w0"
    by (auto simp: g_wifi_set_attr_def reports_def link_types WifiState_cb_def WifiScanR_cb_def
        WifiCurConnected_cb_def Let_def split: prod.splits)
next
  fix a w j item w'
  assume "a \<in> set (g_wifi_set_attr env)" "controls a" "uds w = u" "sa_cb a (Some j) w = Some (item, w')"
  then show "uds w' = u"
    by (auto simp: g_wifi_set_attr_def controls_def link_types WifiEnable_cb_def wifiEnable_def WifiScan_cb_def
        wifiScan_def WifiConnect_cb_def wifiConnect_uds WifiDisconnect_cb_def wifiDisconnect_def
        option_bind_Some_iff split: option.splits)
qed

lemma request_uds: "request_fota_image env w = Some (r, w') \<Longrightarrow> uds w' = uds w"
  by (auto simp: request_fota_image_def set_ota_state_eq Let_def split: if_splits)

lemma set_ota_state_uds: "set_ota_state st a w = Some w' \<Longrightarrow> uds w' = uds w"
  by (auto simp: set_ota_state_def ota_state_event_def option_bind_Some_iff split: if_splits)

lemma progress_uds: "uds (fold ota_progress_cb ps w) = uds w"
  by (induction ps arbitrary: w) (simp_all add: ota_progress_cb_def)

lemma download_uds: "download_fota_image env w = Some (r, w') \<Longrightarrow> uds w' = uds w"
  by (auto simp: download_fota_image_def drop_recipes_eq progress_uds option_bind_Some_iff Let_def
      dest!: set_ota_state_uds split: if_splits)

interpretation ota_attrs: attr_table "g_ota_set_attr env" "\<lambda>w. w = w0" "\<lambda>w. uds w = u"
  for env :: "'db env" and w0 :: "'db world" and u :: uds_state
proof
  fix a w
  assume "a \<in> set (g_ota_set_attr env)" "reports a" "w = w0"
  then show "\<exists>item w'. sa_cb a None w = Some (item, w') \<and> w' = w0"
    by (auto simp: g_ota_set_attr_def reports_def link_types OTAState_cb_def OTAProgress_cb_def OTANewVersion_cb_def)
next
  fix a w j item w'
  assume "a \<in> set (g_ota_set_attr env)" "controls a" "uds w = u" "sa_cb a (Some j) w = Some (item, w')"
  then show "uds w' = u"
    by (auto simp: g_ota_set_attr_def controls_def link_types OTARquest_cb_def option_bind_Some_iff
        dest: request_uds download_uds split: if_splits)
qed

section \<open>Properties\<close>

text \<open>A \<open>GET\<close> of WiFi and OTA attributes always gives an answer, leaves the program as it was,
  and adds to the answer only keys that were asked for.\<close>

lemma wifi_ota_get_read_only:
  "\<exists>new. do { st \<leftarrow> wifi_resp_get env root (JObj kvs, w); ota_resp_get env root st } = Some (JObj (kvs @ new), w) \<and>
    fst ` set new \<subseteq> {k. cJSON_HasObjectItem root k}"
proof -
  obtain n1 w1 where 1: "wifi_resp_get env root (JObj kvs, w) = Some (JObj (kvs @ n1), w1)" "w1 = w"
    "set (map fst n1) \<subseteq> {sa_cloud_key a | a. a \<in> set (g_wifi_set_attr env) \<and> cJSON_HasObjectItem root (sa_cloud_key a) \<and> reports a}"
    using wifi_attrs.get_total [OF refl, of env root kvs w] unfolding wifi_resp_get_def by blast
  obtain n2 w2 where 2: "ota_resp_get env root (JObj (kvs @ n1), w) = Some (JObj ((kvs @ n1) @ n2), w2)" "w2 = w"
    "set (map fst n2) \<subseteq> {sa_cloud_key a | a. a \<in> set (g_ota_set_attr env) \<and> cJSON_HasObjectItem root (sa_cloud_key a) \<and> reports a}"
    using ota_attrs.get_total [OF refl, of env root "kvs @ n1" w] unfolding ota_resp_get_def by blast
  have "fst ` set (n1 @ n2) \<subseteq> {k. cJSON_HasObjectItem root k}" using 1(3) 2(3) by auto
  with 1(1,2) 2(1,2) show ?thesis by (intro exI [of _ "n1 @ n2"]) simp
qed

end
