(* ===== verification/X50_Device.thy ===== *)
theory X50_Device
  imports X50_Cloud_Attr X50_Wifi_Ota_Tasks X50_Gesture_Link
begin

text \<open>
  The device task of the UI protocol (\<open>device/device_task.c\<close>): identity of the device, factory reset
  and alarm, and \<open>uds_event_all\<close> of \<open>uds/uds_protocol.c\<close>, which a reset ends with.

  \<open>Reset_cb\<close> calls \<open>uds_event_all\<close>, which walks the table \<open>Reset_cb\<close> is in. The table therefore
  takes \<open>uds_event_all\<close> as an argument. The walk of \<open>uds_event_all\<close> calls reporting entries only, so
  what it passes for its own table does not matter (\<open>device_getall_any\<close>).
\<close>

section \<open>The callbacks\<close>

definition ProductCategory_cb :: "json option \<Rightarrow> 'db world \<Rightarrow> (json option \<times> 'db world) option" where
  "ProductCategory_cb arg w = Some (Some (JStr (device_category (g_cloud_dev w))), w)"

definition ProductModel_cb :: "json option \<Rightarrow> 'db world \<Rightarrow> (json option \<times> 'db world) option" where
  "ProductModel_cb arg w = Some (Some (JStr (device_model (g_cloud_dev w))), w)"

definition ProductKey_cb :: "json option \<Rightarrow> 'db world \<Rightarrow> (json option \<times> 'db world) option" where
  "ProductKey_cb arg w = Some (Some (JStr (product_key (g_cloud_dev w))), w)"

definition DeviceName_cb :: "json option \<Rightarrow> 'db world \<Rightarrow> (json option \<times> 'db world) option" where
  "DeviceName_cb arg w = Some (Some (JStr (device_name (g_cloud_dev w))), w)"

definition ProductSecret_cb :: "json option \<Rightarrow> 'db world \<Rightarrow> (json option \<times> 'db world) option" where
  "ProductSecret_cb arg w = Some (Some (JStr (product_secret (g_cloud_dev w))), w)"

definition DeviceSecret_cb :: "json option \<Rightarrow> 'db world \<Rightarrow> (json option \<times> 'db world) option" where
  "DeviceSecret_cb arg w = Some (Some (JStr (device_secret (g_cloud_dev w))), w)"

definition QrCode_cb :: "json option \<Rightarrow> 'db world \<Rightarrow> (json option \<times> 'db world) option" where
  "QrCode_cb arg w = do {
     buf \<leftarrow> str_fits 256 (''http://club.marssenger.com/hxr/download.html?pk='' @ product_key (g_cloud_dev w) @
       ''&dn='' @ device_name (g_cloud_dev w));
     Some (Some (JStr buf), w)
   }"

definition UpdateLog_cb :: "json option \<Rightarrow> 'db world \<Rightarrow> (json option \<times> 'db world) option" where
  "UpdateLog_cb arg w = Some (Some (JStr (update_log (g_cloud_dev w))), w)"

definition AfterSalesPhone_cb :: "json option \<Rightarrow> 'db world \<Rightarrow> (json option \<times> 'db world) option" where
  "AfterSalesPhone_cb arg w = Some (Some (JStr (after_sales_phone (g_cloud_dev w))), w)"

definition AfterSalesQrCode_cb :: "json option \<Rightarrow> 'db world \<Rightarrow> (json option \<times> 'db world) option" where
  "AfterSalesQrCode_cb arg w = do {
     buf \<leftarrow> str_fits 256 (''http://club.marssenger.com/hxr/download.html?pk='' @ product_key (g_cloud_dev w));
     Some (Some (JStr buf), w)
   }"

definition BindTokenState_cb :: "json option \<Rightarrow> 'db world \<Rightarrow> (json option \<times> 'db world) option" where
  "BindTokenState_cb arg w = Some (Some (JNum (token_state (linkkit w))), w)"

definition Reset_cb ::
  "'db env \<Rightarrow> ('db world \<Rightarrow> 'db world option) \<Rightarrow> json option \<Rightarrow> 'db world \<Rightarrow> (json option \<times> 'db world) option" where
  "Reset_cb env event_all arg w = do {
     w \<leftarrow> database_task_reinit env w;
     let w = snd (linkkit_unbind env w);
     w \<leftarrow> event_all w;
     Some (Some (JNum 1), w)
   }"

definition Alarm_cb :: "'db env \<Rightarrow> json option \<Rightarrow> 'db world \<Rightarrow> (json option \<times> 'db world) option" where
  "Alarm_cb env arg w = Some (None, gesture_auto_sync_time_alarm env True w)"

definition g_device_set_attr :: "'db env \<Rightarrow> ('db world \<Rightarrow> 'db world option) \<Rightarrow> 'db world set_attr list" where
  "g_device_set_attr env event_all = [
     \<lparr>sa_cloud_key = ''ProductCategory'', sa_fun_type = LINK_FUN_TYPE_ATTR_REPORT, sa_cb = ProductCategory_cb\<rparr>,
     \<lparr>sa_cloud_key = ''ProductModel'', sa_fun_type = LINK_FUN_TYPE_ATTR_REPORT, sa_cb = ProductModel_cb\<rparr>,
     \<lparr>sa_cloud_key = ''ProductKey'', sa_fun_type = LINK_FUN_TYPE_ATTR_REPORT, sa_cb = ProductKey_cb\<rparr>,
     \<lparr>sa_cloud_key = ''DeviceName'', sa_fun_type = LINK_FUN_TYPE_ATTR_REPORT, sa_cb = DeviceName_cb\<rparr>,
     \<lparr>sa_cloud_key = ''ProductSecret'', sa_fun_type = LINK_FUN_TYPE_ATTR_REPORT, sa_cb = ProductSecret_cb\<rparr>,
     \<lparr>sa_cloud_key = ''DeviceSecret'', sa_fun_type = LINK_FUN_TYPE_ATTR_REPORT, sa_cb = DeviceSecret_cb\<rparr>,
     \<lparr>sa_cloud_key = ''QrCode'', sa_fun_type = LINK_FUN_TYPE_ATTR_REPORT, sa_cb = QrCode_cb\<rparr>,
     \<lparr>sa_cloud_key = ''UpdateLog'', sa_fun_type = LINK_FUN_TYPE_ATTR_REPORT, sa_cb = UpdateLog_cb\<rparr>,
     \<lparr>sa_cloud_key = ''AfterSalesPhone'', sa_fun_type = LINK_FUN_TYPE_ATTR_REPORT, sa_cb = AfterSalesPhone_cb\<rparr>,
     \<lparr>sa_cloud_key = ''AfterSalesQrCode'', sa_fun_type = LINK_FUN_TYPE_ATTR_REPORT, sa_cb = AfterSalesQrCode_cb\<rparr>,
     \<lparr>sa_cloud_key = ''Reset'', sa_fun_type = LINK_FUN_TYPE_ATTR_CTRL, sa_cb = Reset_cb env event_all\<rparr>,
     \<lparr>sa_cloud_key = ''Alarm'', sa_fun_type = LINK_FUN_TYPE_ATTR_CTRL, sa_cb = Alarm_cb env\<rparr>,
     \<lparr>sa_cloud_key = ''BindTokenState'', sa_fun_type = LINK_FUN_TYPE_ATTR_REPORT, sa_cb = BindTokenState_cb\<rparr>]"

definition device_resp_get :: "'db env \<Rightarrow> json option \<Rightarrow> json \<times> 'db world \<Rightarrow> (json \<times> 'db world) option" where
  "device_resp_get env = attr_resp_get (g_device_set_attr env Some)"

definition device_resp_getall :: "'db env \<Rightarrow> json \<times> 'db world \<Rightarrow> (json \<times> 'db world) option" where
  "device_resp_getall env = attr_resp_getall (g_device_set_attr env Some)"

section \<open>Reporting everything\<close>

definition uds_event_all :: "'db env \<Rightarrow> 'db world \<Rightarrow> 'db world option" where
  "uds_event_all env w = do {
     st \<leftarrow> wifi_resp_getall env (cJSON_CreateObject, w);
     st \<leftarrow> cloud_resp_getall env st;
     st \<leftarrow> ota_resp_getall env st;
     (resp, w) \<leftarrow> device_resp_getall env st;
     let w = send_event_uds resp None w;
     (resp, w) \<leftarrow> database_resp_getall env (cJSON_CreateObject, w);
     Some (send_event_uds resp None w)
   }"

definition device_resp_set :: "'db env \<Rightarrow> json option \<Rightarrow> json \<times> 'db world \<Rightarrow> (json \<times> 'db world) option" where
  "device_resp_set env = attr_resp_set (g_device_set_attr env (uds_event_all env))"

section \<open>The table meets the contract\<close>

lemma device_same_reports: "same_reports (g_device_set_attr env f) (g_device_set_attr env g)"
  by (simp add: same_reports_def g_device_set_attr_def reports_def link_types)

lemmas device_getall_any = same_reports_walk [OF device_same_reports]

text \<open>An alarm touches the gesture board only, and a reset keeps the device record.\<close>

lemma gesture_auto_frame [simp]:
  "g_cloud_dev (gesture_auto_sync_time_alarm env a w) = g_cloud_dev w"
  "ecb (gesture_auto_sync_time_alarm env a w) = ecb w" "uds (gesture_auto_sync_time_alarm env a w) = uds w"
  "linkkit (gesture_auto_sync_time_alarm env a w) = linkkit w"
  "gesture (gesture_auto_sync_time_alarm env a w) = gesture w"
  "history (gesture_auto_sync_time_alarm env a w) = history w"
  "database (gesture_auto_sync_time_alarm env a w) = database w"
  by (simp_all add: gesture_auto_sync_time_alarm_def gesture_sync_time_and_alarm_def gesture_send_msg_def
      gesture_uart_send_def Let_def split: prod.splits)

end
