(* ===== verification/X50_Uds_Protocol.thy ===== *)
theory X50_Uds_Protocol
  imports X50_Device
begin

text \<open>
  The protocol of the UI socket (\<open>uds/uds_protocol.c\<close>): finding frames in what a client sent and
  answering \<open>GET\<close>, \<open>SET\<close>, \<open>GETALL\<close> and the heart beat. The frames the program sends are in
  \<open>X50_Uds_Link\<close>.
\<close>

section \<open>Requests\<close>

definition TYPE_GET :: string where "TYPE_GET = ''GET''"
definition TYPE_SET :: string where "TYPE_SET = ''SET''"
definition TYPE_GETALL :: string where "TYPE_GETALL = ''GETALL''"
definition TYPE_HEART :: string where "TYPE_HEART = ''HEART''"

definition uds_get :: "'db env \<Rightarrow> json \<Rightarrow> 'db world \<Rightarrow> 'db world option" where
  "uds_get env Data w = do {
     st \<leftarrow> wifi_resp_get env (Some Data) (cJSON_CreateObject, w);
     st \<leftarrow> cloud_resp_get env (Some Data) st;
     st \<leftarrow> ota_resp_get env (Some Data) st;
     st \<leftarrow> device_resp_get env (Some Data) st;
     (resp, w) \<leftarrow> database_resp_get env (Some Data) st;
     Some (send_event_uds resp None w)
   }"

definition uds_set :: "'db env \<Rightarrow> json \<Rightarrow> 'db world \<Rightarrow> 'db world option" where
  "uds_set env Data w = do {
     (resp, w) \<leftarrow> wifi_resp_set env (Some Data) (cJSON_CreateObject, w);
     w \<leftarrow> cloud_resp_set env (Some Data) w;
     st \<leftarrow> ota_resp_set env (Some Data) (resp, w);
     (resp, w) \<leftarrow> device_resp_set env (Some Data) st;
     Some (send_event_uds resp None w)
   }"

text \<open>The history goes out on its own, before the rest.\<close>

definition uds_getall :: "'db env \<Rightarrow> 'db world \<Rightarrow> 'db world option" where
  "uds_getall env w = do {
     st \<leftarrow> wifi_resp_getall env (cJSON_CreateObject, w);
     st \<leftarrow> cloud_resp_getall env st;
     st \<leftarrow> ota_resp_getall env st;
     (resp, w) \<leftarrow> device_resp_getall env st;
     (resp_db, w) \<leftarrow> database_resp_getall env (cJSON_CreateObject, w);
     let w = send_event_uds resp_db None w;
     Some (send_event_uds resp None w)
   }"

text \<open>Every other type counts as the heart beat.\<close>

definition uds_dispatch :: "'db env \<Rightarrow> string \<Rightarrow> json \<Rightarrow> 'db world \<Rightarrow> 'db world option" where
  "uds_dispatch env type Data w =
     (if type = TYPE_GET then uds_get env Data w
      else if type = TYPE_SET then uds_set env Data w
      else if type = TYPE_GETALL then uds_getall env w
      else Some (send_event_uds (cJSON_AddNullToObject cJSON_CreateObject ''Response'') (Some TYPE_HEART) w))"

definition uds_json_parse :: "'db env \<Rightarrow> string \<Rightarrow> 'db world \<Rightarrow> (int \<times> 'db world) option" where
  "uds_json_parse env val w =
     (case cJSON_Parse val of
        None \<Rightarrow> Some (-1, w)
      | Some root \<Rightarrow>
          (case cJSON_GetObjectItem (Some root) ''Type'' of None \<Rightarrow> Some (-1, w) | Some Type \<Rightarrow>
           case cJSON_GetObjectItem (Some root) ''Data'' of None \<Rightarrow> Some (-1, w) | Some Data \<Rightarrow> do {
             type \<leftarrow> valuestring Type;
             w \<leftarrow> uds_dispatch env type Data w;
             Some (0, w)
           }))"

section \<open>Frames\<close>

text \<open>What is done at position \<open>i\<close>, for a handler of the text of a frame: the number of bytes to skip
  on top of the one at \<open>i\<close>. The checksum is computed and compared, but a difference is only logged.\<close>

definition uds_frame_at ::
  "(string \<Rightarrow> 'w \<Rightarrow> (int \<times> 'w) option) \<Rightarrow> bytes \<Rightarrow> nat \<Rightarrow> 'w \<Rightarrow> (nat \<times> 'w) option" where
  "uds_frame_at handle data i w = do {
     b0 \<leftarrow> rd data i;
     header \<leftarrow> (if b0 = FRAME_HEADER then map_option (\<lambda>b. b = FRAME_HEADER) (rd data (i + 1)) else Some False);
     if \<not> header then Some (0, w)
     else do {
       encry \<leftarrow> rd data (i + 2);
       seqid \<leftarrow> rd_n data (i + 3) 2;
       len \<leftarrow> rd_n data (i + 5) 2;
       let msg_len = be16 (len ! 0) (len ! 1);
       t0 \<leftarrow> rd data (i + 6 + msg_len + 2);
       tail \<leftarrow> (if t0 = FRAME_TAIL then map_option (\<lambda>b. b = FRAME_TAIL) (rd data (i + 6 + msg_len + 3)) else Some False);
       if \<not> tail then Some (0, w)
       else do {
         verify \<leftarrow> rd data (i + 6 + msg_len + 1);
         msg \<leftarrow> rd_n data (i + 2) (msg_len + 5);
         let bad = (CheckSum msg \<noteq> verify);
         if msg_len > 0 then do {
           text \<leftarrow> c_str (drop (i + 7) data);
           (ret, w) \<leftarrow> handle text w;
           Some (if ret = 0 then 6 + msg_len + 3 else 0, w)
         }
         else Some (0, w)
       }
     }
   }"

function uds_recv_loop ::
  "(string \<Rightarrow> 'w \<Rightarrow> (int \<times> 'w) option) \<Rightarrow> bytes \<Rightarrow> nat \<Rightarrow> nat \<Rightarrow> 'w \<Rightarrow> 'w option" where
  "uds_recv_loop handle data len i w =
     (if i < len then
        (case uds_frame_at handle data i w of
           None \<Rightarrow> None
         | Some (skip, w) \<Rightarrow> uds_recv_loop handle data len (i + skip + 1) w)
      else Some w)"
  by pat_completeness auto
termination by (relation "measure (\<lambda>(_, _, len, i, _). len - i)") auto

declare uds_recv_loop.simps [simp del]

definition uds_recv :: "'db env \<Rightarrow> bytes \<Rightarrow> nat \<Rightarrow> 'db world \<Rightarrow> 'db world option" where
  "uds_recv env data len = uds_recv_loop (uds_json_parse env) data len 0"

section \<open>Start and stop\<close>

text \<open>The registrations are static, and \<open>ota_task_init\<close> and \<open>wifi_task_init\<close> are nothing else.\<close>

definition uds_protocol_init :: "'db env \<Rightarrow> 'db world \<Rightarrow> (int \<times> 'db world) option" where
  "uds_protocol_init env w = do {
     (_, w) \<leftarrow> database_init env w;
     (_, w) \<leftarrow> database_task_init env w;
     Some (0, w)
   }"

definition uds_protocol_deinit :: "'db world \<Rightarrow> 'db world" where
  "uds_protocol_deinit w = uds_tcp_server_task_deinit w"

end
