(* ===== verification/X50_Uds_Service.thy ===== *)
theory X50_Uds_Service
  imports X50_Uds_Protocol
begin

text \<open>
  What the UI protocol does with the frames it receives: the text of every frame of a packet is parsed
  back to the object it was printed from, and each request is dispatched once, in order.

  The receive callback of \<open>X50_Uds_Link\<close>, the frame loop and the dispatch of \<open>X50_Uds_Protocol\<close> and the
  JSON library of \<open>X50_Json_Parse\<close> are composed here.
\<close>

section \<open>Frames with any checksum\<close>

definition uds_frame_chk :: "byte \<Rightarrow> int \<Rightarrow> string \<Rightarrow> bytes" where
  "uds_frame_chk c seqid json =
     [FRAME_HEADER, FRAME_HEADER, 0, byte_of_int (seqid div 256), byte_of_int (seqid mod 256),
      byte_of_nat (length json div 256), byte_of_nat (length json)] @ bytes_of json @ [c, FRAME_TAIL, FRAME_TAIL]"

definition uds_checksum :: "int \<Rightarrow> string \<Rightarrow> byte" where
  "uds_checksum seqid json = CheckSum ([0, byte_of_int (seqid div 256), byte_of_int (seqid mod 256),
      byte_of_nat (length json div 256), byte_of_nat (length json)] @ bytes_of json)"

lemma uds_frame_alt: "uds_frame seqid json = uds_frame_chk (uds_checksum seqid json) seqid json"
  by (simp add: uds_frame_def uds_frame_chk_def uds_checksum_def Let_def)

lemma length_uds_frame_chk [simp]: "length (uds_frame_chk c seqid json) = length json + 10"
  by (simp add: uds_frame_chk_def)

text \<open>The text the handler is given runs on behind the frame, to the first NUL.\<close>

definition uds_text :: "string \<Rightarrow> bytes \<Rightarrow> string" where
  "uds_text json post = json @ map char_of_byte (takeWhile (\<lambda>b. b \<noteq> 0) post)"

lemma c_str_text:
  assumes "CHR 0x00 \<notin> set json" and "0 \<in> set post"
  shows "c_str (bytes_of json @ post) = Some (uds_text json post)"
proof -
  have "takeWhile (\<lambda>b. b \<noteq> 0) (bytes_of json @ post) = bytes_of json @ takeWhile (\<lambda>b. b \<noteq> 0) post"
    using assms(1) by (intro takeWhile_append2) (auto simp: bytes_of_def)
  then show ?thesis using assms(2) by (simp add: c_str_def uds_text_def bytes_of_def comp_def)
qed

lemma uds_frame_at_frame:
  assumes "json \<noteq> []" and "length json < 65536" and "CHR 0x00 \<notin> set json" and "0 \<in> set post"
  shows "uds_frame_at handle (pre @ uds_frame_chk c seqid json @ post) (length pre) w = do {
     (ret, w) \<leftarrow> handle (uds_text json (c # FRAME_TAIL # FRAME_TAIL # post)) w;
     Some (if ret = 0 then length json + 9 else 0, w) }"
proof -
  let ?n = "length json" and ?d = "pre @ uds_frame_chk c seqid json @ post"
  have rds: "rd ?d (length pre) = Some FRAME_HEADER" "rd ?d (length pre + 1) = Some FRAME_HEADER"
    "rd ?d (length pre + 2) = Some 0" "rd_n ?d (length pre + 5) 2 = Some [byte_of_nat (?n div 256), byte_of_nat ?n]"
    "rd_n ?d (length pre + 3) 2 = Some [byte_of_int (seqid div 256), byte_of_int (seqid mod 256)]"
    "rd ?d (length pre + 6 + ?n + 1) = Some c"
    "rd ?d (length pre + 6 + ?n + 2) = Some FRAME_TAIL" "rd ?d (length pre + 6 + ?n + 3) = Some FRAME_TAIL"
    by (simp_all add: uds_frame_chk_def rd_def rd_n_def nth_append nth_Cons')
  moreover have "\<exists>m. rd_n ?d (length pre + 2) (?n + 5) = Some m" by (simp add: rd_n_def)
  moreover have "drop (length pre + 7) ?d = bytes_of json @ c # FRAME_TAIL # FRAME_TAIL # post"
    by (simp add: uds_frame_chk_def)
  moreover have "c_str (bytes_of json @ c # FRAME_TAIL # FRAME_TAIL # post) = Some (uds_text json (c # FRAME_TAIL # FRAME_TAIL # post))"
    using assms(3,4) by (intro c_str_text) simp_all
  ultimately show ?thesis
    using assms(1,2) by (auto simp: uds_frame_at_def be16_split Let_def intro!: Option.bind_cong)
qed

text \<open>The frames of a list of items, by the checksum, number and text of each.\<close>

definition uds_frames :: "('f \<Rightarrow> byte) \<Rightarrow> ('f \<Rightarrow> int) \<Rightarrow> ('f \<Rightarrow> string) \<Rightarrow> 'f list \<Rightarrow> bytes" where
  "uds_frames c seqid json fs = concat (map (\<lambda>f. uds_frame_chk (c f) (seqid f) (json f)) fs)"

lemma uds_loop_frames:
  assumes "\<forall>f \<in> set fs. js f \<noteq> [] \<and> length (js f) < 65536 \<and> CHR 0x00 \<notin> set (js f)" and "0 \<in> set rest"
    and "\<And>f junk w. f \<in> set fs \<Longrightarrow> handle (uds_text (js f) junk) w = map_option (Pair 0) (step f w)"
  shows "uds_recv_loop handle (pre @ uds_frames c sq js fs @ rest) (length pre + length (uds_frames c sq js fs)) (length pre) w = foldM step fs w"
  using assms(1,3)
proof (induction fs arbitrary: pre w)
  case Nil
  show ?case by (simp add: uds_recv_loop.simps uds_frames_def)
next
  case (Cons f fs)
  let ?f = "uds_frame_chk (c f) (sq f) (js f)" and ?fs = "uds_frames c sq js fs"
  have frames: "uds_frames c sq js (f # fs) = ?f @ ?fs" by (simp add: uds_frames_def)
  have "0 \<in> set (?fs @ rest)" using assms(2) by simp
  with Cons.prems(1) have "uds_frame_at handle (pre @ ?f @ ?fs @ rest) (length pre) w =
      map_option (\<lambda>w. (length (js f) + 9, w)) (step f w)"
    by (subst uds_frame_at_frame) (cases "step f w"; auto simp: Cons.prems(2) [of f])+
  moreover have "uds_recv_loop handle ((pre @ ?f) @ ?fs @ rest) (length (pre @ ?f) + length ?fs) (length (pre @ ?f)) w'
      = foldM step fs w'" for w'
    by (rule Cons.IH) (use Cons.prems(1) in simp, rule Cons.prems(2), simp)
  ultimately show ?case
    by (subst uds_recv_loop.simps) (auto simp: frames ac_simps split: option.split)
qed

section \<open>Printed text\<close>

lemma hex_value_NUL: "hex_value (CHR 0x00) = None"
  by (simp add: hex_value_def)

lemma hex_digit_not_NUL: "d < 16 \<Longrightarrow> CHR 0x00 \<noteq> hex_digit d"
  using hex_value_hex_digit [of d] by (metis (full_types) hex_value_NUL option.distinct(1))

lemma print_char_not_NUL: "CHR 0x00 \<notin> set (print_char c)"
  by (rule print_char_cases [of c])
    (auto simp: print_char_def Let_def hex_digit_not_NUL escape_char_def split: if_splits)

lemma dec_int_not_NUL: "CHR 0x00 \<notin> set (dec_int n)"
  by (auto simp: dec_int_def dest: dec_nat_digits)

lemma print_string_not_NUL: "CHR 0x00 \<notin> set (print_string_ptr s)"
  using print_char_not_NUL by (auto simp: print_string_ptr_def)

lemma set_comma_sep: "c \<in> set (comma_sep xs) \<Longrightarrow> c = CHR '','' \<or> (\<exists>x \<in> set xs. c \<in> set x)"
  by (induction xs rule: comma_sep.induct) auto

lemma print_not_NUL: "CHR 0x00 \<notin> set (cJSON_PrintUnformatted j)"
proof (induction j rule: cJSON_PrintUnformatted.induct)
  case (5 xs)
  then show ?case by (auto dest!: set_comma_sep)
next
  case (6 kvs)
  then show ?case by (auto dest!: set_comma_sep simp: print_string_not_NUL)
qed (auto simp: dec_int_not_NUL print_string_not_NUL)

text \<open>A printed object is read back whatever follows it.\<close>

lemma parse_uds_text:
  "json_wf 0 (JObj kvs) \<Longrightarrow> cJSON_Parse (uds_text (cJSON_PrintUnformatted (JObj kvs)) junk) = Some (JObj kvs)"
proof -
  assume "json_wf 0 (JObj kvs)"
  then have "parse_value 0 (cJSON_PrintUnformatted (JObj kvs) @ s) = Some (JObj kvs, s)" for s
    by (intro parse_value_print) auto
  moreover have "skip_utf8_bom (cJSON_PrintUnformatted (JObj kvs) @ s) = cJSON_PrintUnformatted (JObj kvs) @ s" for s
    by (simp add: skip_utf8_bom_def)
  ultimately show ?thesis
    unfolding cJSON_Parse_def uds_text_def by (simp only: skip_print) simp
qed

section \<open>Requests\<close>

text \<open>A request that can be printed, fits into a frame and has the two members.\<close>

definition uds_request :: "(string \<times> json) list \<Rightarrow> bool" where
  "uds_request kvs \<longleftrightarrow> json_wf 0 (JObj kvs) \<and> length (cJSON_PrintUnformatted (JObj kvs)) < 65536 \<and>
     (case cJSON_GetObjectItem (Some (JObj kvs)) ''Type'' of Some (JStr t) \<Rightarrow> True | _ \<Rightarrow> False) \<and>
     cJSON_HasObjectItem (Some (JObj kvs)) ''Data''"

definition uds_answer :: "'db env \<Rightarrow> (string \<times> json) list \<Rightarrow> 'db world \<Rightarrow> 'db world option" where
  "uds_answer env kvs w =
     (case (cJSON_GetObjectItem (Some (JObj kvs)) ''Type'', cJSON_GetObjectItem (Some (JObj kvs)) ''Data'') of
        (Some (JStr t), Some Data) \<Rightarrow> uds_dispatch env t Data w
      | _ \<Rightarrow> None)"

lemma uds_json_parse_request:
  assumes "uds_request kvs"
  shows "uds_json_parse env (uds_text (cJSON_PrintUnformatted (JObj kvs)) junk) w = map_option (Pair 0) (uds_answer env kvs w)"
proof -
  obtain t D where t: "cJSON_GetObjectItem (Some (JObj kvs)) ''Type'' = Some (JStr t)"
    "cJSON_GetObjectItem (Some (JObj kvs)) ''Data'' = Some D"
    using assms by (auto simp: uds_request_def cJSON_HasObjectItem_def split: option.splits json.splits)
  have "cJSON_Parse (uds_text (cJSON_PrintUnformatted (JObj kvs)) junk) = Some (JObj kvs)"
    using assms by (intro parse_uds_text) (simp add: uds_request_def)
  then show ?thesis
    by (cases "uds_dispatch env t D w") (simp_all add: uds_json_parse_def uds_answer_def t)
qed

text \<open>The packet a client sends: frames with the checksums \<open>c\<close>.\<close>

abbreviation kvs_text :: "byte \<times> int \<times> (string \<times> json) list \<Rightarrow> string" where
  "kvs_text f \<equiv> cJSON_PrintUnformatted (JObj (snd (snd f)))"

definition uds_packet :: "(byte \<times> int \<times> (string \<times> json) list) list \<Rightarrow> bytes" where
  "uds_packet fs = uds_frames fst (\<lambda>f. fst (snd f)) kvs_text fs"

lemma uds_recv_packet:
  assumes "\<forall>f \<in> set fs. uds_request (snd (snd f))" and "0 \<in> set rest"
  shows "uds_recv env (uds_packet fs @ rest) (length (uds_packet fs)) w = foldM (\<lambda>f. uds_answer env (snd (snd f))) fs w"
proof -
  have "\<forall>f \<in> set fs. kvs_text f \<noteq> [] \<and> length (kvs_text f) < 65536 \<and> CHR 0x00 \<notin> set (kvs_text f)"
    using assms(1) print_not_NUL by (simp add: uds_request_def del: cJSON_PrintUnformatted.simps)
  from uds_loop_frames [of fs kvs_text rest "uds_json_parse env" "\<lambda>f. uds_answer env (snd (snd f))" "[]" fst "\<lambda>f. fst (snd f)" w,
      OF this assms(2) uds_json_parse_request] assms(1)
  show ?thesis by (simp add: uds_packet_def uds_recv_def)
qed

lemma uds_recv_one:
  assumes "uds_request kvs" and "0 \<in> set rest"
  shows "uds_recv env (uds_frame_chk c seqid (cJSON_PrintUnformatted (JObj kvs)) @ rest)
      (length (cJSON_PrintUnformatted (JObj kvs)) + 10) w = uds_answer env kvs w"
  using uds_recv_packet [of "[(c, seqid, kvs)]" rest env w] assms
  by (cases "uds_answer env kvs w") (simp_all add: uds_packet_def uds_frames_def del: cJSON_PrintUnformatted.simps)

section \<open>Properties\<close>

text \<open>C25: A packet of requests: whatever the client puts into one write, as printed objects in frames of the
  protocol, the receive callback dispatches every request once, in the order of the frames, and nothing
  else; the buffer of 4097 bytes holds the packet and its NUL.\<close>

theorem uds_requests_dispatched:
  assumes "\<forall>f \<in> set fs. uds_request (snd (snd f))" and "fs \<noteq> []"
    and "length (uds_packet fs) \<le> BUFLEN" and "length buf = BUFLEN + 1" and "client_cb_set (uds_clients (uds w) ! i)"
  shows "app_select_tcp_server_recv_cb (uds_recv env) i (int (length (uds_packet fs))) (uds_packet fs) buf w =
    map_option (Pair 0) (foldM (\<lambda>f. uds_answer env (snd (snd f))) fs w)"
proof -
  let ?p = "uds_packet fs"
  have len: "0 < length ?p" using assms(2) by (cases fs) (simp_all add: uds_packet_def uds_frames_def)
  let ?rest = "0 # drop (length ?p + 1) buf"
  have "wr_n buf 0 ?p = Some (?p @ drop (length ?p) buf)" using assms(3,4) by (simp add: wr_n_def)
  moreover have "wr_n (?p @ drop (length ?p) buf) (length ?p) [0] = Some (?p @ ?rest)"
    using assms(3,4) by (simp add: wr_n_def)
  moreover have "uds_recv env (?p @ ?rest) (length ?p) w = foldM (\<lambda>f. uds_answer env (snd (snd f))) fs w"
    using assms(1) by (intro uds_recv_packet) simp_all
  ultimately show ?thesis
    using len assms(5) by (auto simp: app_select_tcp_server_recv_cb_def Let_def map_option_case split: option.split)
qed

lemma uds_requests_dispatched_witness:
  "let fs = [(0, 1, [(''Type'', JStr ''HEART''), (''Data'', JNull)]),
             (7, 2, [(''Type'', JStr ''GET''), (''Data'', JObj [(''WifiState'', JNull)])])];
       w = (world_zero cloud_dev_zero ())\<lparr>uds := (uds (world_zero cloud_dev_zero ()))\<lparr>uds_clients := [\<lparr>client_fd = 7, client_cb_set = True\<rparr>]\<rparr>\<rparr>
   in app_select_tcp_server_recv_cb (uds_recv (env_of null_engine)) 0 (int (length (uds_packet fs))) (uds_packet fs) (replicate (BUFLEN + 1) 0) w =
    map_option (Pair 0) (foldM (\<lambda>f. uds_answer (env_of null_engine) (snd (snd f))) fs w)"
  unfolding Let_def
  by (rule uds_requests_dispatched)
    (simp_all add: uds_request_def cJSON_HasObjectItem_def cJSON_GetObjectItem_def case_insensitive_eq_def tolower_def
      CJSON_NESTING_LIMIT_def print_string_ptr_def print_char_def uds_packet_def uds_frames_def BUFLEN_def)

text \<open>The checksum of a request does not matter: with any byte in its place the frame has the effect of the
  undamaged one.\<close>

theorem uds_checksum_ignored:
  assumes "uds_request kvs" and "0 \<in> set rest"
  shows "uds_recv env (uds_frame_chk c seqid (cJSON_PrintUnformatted (JObj kvs)) @ rest)
      (length (cJSON_PrintUnformatted (JObj kvs)) + 10) w =
    uds_recv env (uds_frame seqid (cJSON_PrintUnformatted (JObj kvs)) @ rest)
      (length (cJSON_PrintUnformatted (JObj kvs)) + 10) w"
  unfolding uds_frame_alt using assms by (simp only: uds_recv_one)

lemma uds_checksum_ignored_witness:
  "let kvs = [(''Type'', JStr ''SET''), (''Data'', JObj [(''HoodSpeed'', JNum 2)])]; w = world_zero cloud_dev_zero () in
   uds_recv (env_of null_engine) (uds_frame_chk 0x55 3 (cJSON_PrintUnformatted (JObj kvs)) @ [0])
      (length (cJSON_PrintUnformatted (JObj kvs)) + 10) w =
    uds_recv (env_of null_engine) (uds_frame 3 (cJSON_PrintUnformatted (JObj kvs)) @ [0])
      (length (cJSON_PrintUnformatted (JObj kvs)) + 10) w"
  unfolding Let_def
  by (rule uds_checksum_ignored)
    (simp_all add: uds_request_def cJSON_HasObjectItem_def cJSON_GetObjectItem_def case_insensitive_eq_def tolower_def
      CJSON_NESTING_LIMIT_def INT_MIN_def INT_MAX_def print_string_ptr_def print_char_def dec_int_def dec_nat.simps)

text \<open>A heart beat is answered with one frame to every client slot, and changes nothing else.\<close>

theorem uds_heart_answered:
  assumes "uds_request kvs" and "0 \<in> set rest"
    and "cJSON_GetObjectItem (Some (JObj kvs)) ''Type'' = Some (JStr t)" and "t \<notin> {''GET'', ''SET'', ''GETALL''}"
  shows "uds_recv env (uds_frame seqid (cJSON_PrintUnformatted (JObj kvs)) @ rest)
      (length (cJSON_PrintUnformatted (JObj kvs)) + 10) w =
    Some (w\<lparr>trace := trace w @ map (\<lambda>i. Sock_Send (client_fd (uds_clients (uds w) ! i))
      (uds_frame (g_seqid (uds w)) (cJSON_PrintUnformatted
        (JObj [(''Type'', JStr ''HEART''), (''Data'', JObj [(''Response'', JNull)])])))) [0..<SELECT_TCP_MAX_CLIENT]\<rparr>)"
proof -
  obtain D where D: "cJSON_GetObjectItem (Some (JObj kvs)) ''Data'' = Some D"
    using assms(1) by (auto simp: uds_request_def cJSON_HasObjectItem_def)
  let ?w = "send_event_uds (JObj [(''Response'', JNull)]) (Some ''HEART'') w"
  have "uds_recv env (uds_frame seqid (cJSON_PrintUnformatted (JObj kvs)) @ rest)
      (length (cJSON_PrintUnformatted (JObj kvs)) + 10) w = uds_answer env kvs w"
    unfolding uds_frame_alt using assms(1,2) by (simp only: uds_recv_one)
  also have "\<dots> = Some ?w"
    using assms(4) by (simp add: uds_answer_def assms(3) D uds_dispatch_def TYPE_GET_def TYPE_SET_def TYPE_GETALL_def
        TYPE_HEART_def cJSON_CreateObject_def)
  also have "?w = w\<lparr>trace := trace w @ map (\<lambda>i. Sock_Send (client_fd (uds_clients (uds w) ! i))
      (uds_frame (g_seqid (uds w)) (cJSON_PrintUnformatted
        (JObj [(''Type'', JStr ''HEART''), (''Data'', JObj [(''Response'', JNull)])])))) [0..<SELECT_TCP_MAX_CLIENT]\<rparr>"
    by (simp add: send_event_uds_def Object_isNull_iff server_send_eq cJSON_CreateObject_def SELECT_TCP_MAX_CLIENT_def
        upt_rec emit_def Let_def del: cJSON_PrintUnformatted.simps)
  finally show ?thesis .
qed

lemma uds_heart_answered_witness:
  "let kvs = [(''Type'', JStr ''HEART''), (''Data'', JNull)]; w = world_zero cloud_dev_zero () in
   uds_recv (env_of null_engine) (uds_frame 3 (cJSON_PrintUnformatted (JObj kvs)) @ [0])
      (length (cJSON_PrintUnformatted (JObj kvs)) + 10) w =
    Some (w\<lparr>trace := trace w @ map (\<lambda>i. Sock_Send (client_fd (uds_clients (uds w) ! i))
      (uds_frame (g_seqid (uds w)) (cJSON_PrintUnformatted
        (JObj [(''Type'', JStr ''HEART''), (''Data'', JObj [(''Response'', JNull)])])))) [0..<SELECT_TCP_MAX_CLIENT]\<rparr>)"
  unfolding Let_def
  by (rule uds_heart_answered [where t = "''HEART''"])
    (simp_all add: uds_request_def cJSON_HasObjectItem_def cJSON_GetObjectItem_def case_insensitive_eq_def tolower_def
      CJSON_NESTING_LIMIT_def print_string_ptr_def print_char_def)

end
