(* ===== verification/X50_Cloud_Task.thy ===== *)
theory X50_Cloud_Task
  imports X50_Device
begin

text \<open>
  Starting and stopping the cloud side (\<open>cloud_platform_task.c\<close>): the profile of the device and its
  quadruple, the device secret, and the handlers of \<open>aliyun/linkkit_solo.c\<close> that call back into it.
\<close>

section \<open>The device record\<close>

abbreviation set_dev :: "cloud_dev \<Rightarrow> 'db world \<Rightarrow> 'db world" where
  "set_dev d w \<equiv> w\<lparr>g_cloud_dev := d\<rparr>"

text \<open>\<open>strcpy\<close> of the text of an item, which may be missing, into a field of \<open>n\<close> bytes.\<close>

definition item_text :: "nat \<Rightarrow> json \<Rightarrow> string option" where
  "item_text n j = do { s \<leftarrow> valuestring j; str_fits n s }"

text \<open>The four names are empty values: the question what the device task says about them.\<close>

definition quad_json :: "cloud_dev \<Rightarrow> json" where
  "quad_json d =
     (let root = cJSON_AddStringToObject cJSON_CreateObject ''ProductKey'' (product_key d);
          root = cJSON_AddStringToObject root ''ProductSecret'' (product_secret d);
          root = cJSON_AddStringToObject root ''DeviceName'' (device_name d)
      in cJSON_AddStringToObject root ''DeviceSecret'' (device_secret d))"

definition quad_ask :: json where
  "quad_ask =
     (let root = cJSON_AddNullToObject cJSON_CreateObject ''ProductKey'';
          root = cJSON_AddNullToObject root ''ProductSecret'';
          root = cJSON_AddNullToObject root ''DeviceName''
      in cJSON_AddNullToObject root ''DeviceSecret'')"

definition save_device_secret :: "'db env \<Rightarrow> string \<Rightarrow> 'db world \<Rightarrow> (int \<times> 'db world) option" where
  "save_device_secret env secret w = do {
     s \<leftarrow> str_fits 33 secret;
     let w = set_dev ((g_cloud_dev w)\<lparr>device_secret := s\<rparr>) w;
     let json = cJSON_PrintUnformatted (quad_json (g_cloud_dev w));
     let res = env_file_write env ''DevQuad.json'' json;
     let w = emit (File_Write ''DevQuad.json'' json) w;
     (resp, w) \<leftarrow> device_resp_get env (Some quad_ask) (cJSON_CreateObject, w);
     Some (res, send_event_uds resp None w)
   }"

text \<open>The inner option is the pointer the parser returns.\<close>

definition cloud_quad_parse_json :: "'db env \<Rightarrow> cloud_dev \<Rightarrow> string \<Rightarrow> cloud_dev option option" where
  "cloud_quad_parse_json env d str =
     (case cJSON_Parse str of None \<Rightarrow> Some None | Some root \<Rightarrow>
      case cJSON_GetObjectItem (Some root) ''ProductKey'' of None \<Rightarrow> Some None | Some ProductKey \<Rightarrow>
      case cJSON_GetObjectItem (Some root) ''ProductSecret'' of None \<Rightarrow> Some None | Some ProductSecret \<Rightarrow>
      case cJSON_GetObjectItem (Some root) ''DeviceName'' of None \<Rightarrow> Some None | Some DeviceName \<Rightarrow>
      case cJSON_GetObjectItem (Some root) ''DeviceSecret'' of None \<Rightarrow> Some None | Some DeviceSecret \<Rightarrow> do {
        pk \<leftarrow> item_text 33 ProductKey;
        ps \<leftarrow> item_text 33 ProductSecret;
        dn \<leftarrow> item_text 33 DeviceName;
        ds \<leftarrow> item_text 33 DeviceSecret;
        Some (Some (d\<lparr>product_key := pk, product_secret := ps, device_name := dn, device_secret := ds\<rparr>))
      })"

text \<open>An entry of the profile's \<open>attr\<close> array. The kind of access, \<open>cloud_fun_type\<close>, is left zero.\<close>

definition attr_entry :: "json \<Rightarrow> cloud_attr option" where
  "attr_entry sub = do {
     let it = cJSON_GetObjectItem (Some sub);
     key \<leftarrow> (case it ''cloudKey'' of None \<Rightarrow> Some [] | Some k \<Rightarrow> item_text 33 k);
     valueType \<leftarrow> it ''valueType'';
     uartCmd \<leftarrow> it ''uartCmd'';
     let len = (case it ''uartByteLen'' of None \<Rightarrow> 0 | Some l \<Rightarrow> byte_of_int (valueint l));
     Some \<lparr>cloud_key = key, cloud_value_type = valueint valueType, cloud_fun_type = 0,
       uart_cmd = byte_of_int (valueint uartCmd), uart_byte_len = len,
       attr_value = (if len > 0 then Some (replicate (unat len) 0) else None)\<rparr>
   }"

definition attr_zero :: cloud_attr where
  "attr_zero = \<lparr>cloud_key = [], cloud_value_type = 0, cloud_fun_type = 0, uart_cmd = 0, uart_byte_len = 0,
     attr_value = None\<rparr>"

definition cloud_parse_json :: "'db env \<Rightarrow> string \<Rightarrow> cloud_dev option option" where
  "cloud_parse_json env str =
     (case cJSON_Parse str of None \<Rightarrow> Some None | Some root \<Rightarrow>
      case cJSON_GetObjectItem (Some root) ''DeviceCategory'' of None \<Rightarrow> Some None | Some DeviceCategory \<Rightarrow>
      case cJSON_GetObjectItem (Some root) ''DeviceModel'' of None \<Rightarrow> Some None | Some DeviceModel \<Rightarrow>
      case cJSON_GetObjectItem (Some root) ''AfterSalesPhone'' of None \<Rightarrow> Some None | Some AfterSalesPhone \<Rightarrow>
      case cJSON_GetObjectItem (Some root) ''HardwareVer'' of None \<Rightarrow> Some None | Some HardwareVer \<Rightarrow>
      case cJSON_GetObjectItem (Some root) ''UpdateLog'' of None \<Rightarrow> Some None | Some UpdateLog \<Rightarrow>
      case cJSON_GetObjectItem (Some root) ''attr'' of None \<Rightarrow> Some None | Some attr \<Rightarrow>
        if cJSON_GetArraySize (Some attr) = 0 then Some None
        else do {
          category \<leftarrow> item_text 33 DeviceCategory;
          model \<leftarrow> item_text 16 DeviceModel;
          phone \<leftarrow> item_text 16 AfterSalesPhone;
          log \<leftarrow> item_text 1024 UpdateLog;
          ver \<leftarrow> item_text 6 HardwareVer;
          as \<leftarrow> foldM (\<lambda>i as. case cJSON_GetArrayItem (Some attr) i of
              None \<Rightarrow> Some (as @ [attr_zero])
            | Some sub \<Rightarrow> do { a \<leftarrow> attr_entry sub; Some (as @ [a]) }) [0..<cJSON_GetArraySize (Some attr)] [];
          Some (Some (cloud_dev_zero\<lparr>device_category := category, device_model := model, after_sales_phone := phone,
            update_log := log, hardware_ver := ver, attrs := as\<rparr>))
        })"

text \<open>\<open>None\<close> in the second place: \<open>g_cloud_dev\<close> is still NULL.\<close>

definition cloud_init :: "'db env \<Rightarrow> 'db world \<Rightarrow> (int \<times> 'db world option) option" where
  "cloud_init env w =
     (case get_dev_profile env ''.'' ''DevProfile'' of
        None \<Rightarrow> Some (-1, None)
      | Some str \<Rightarrow> do {
          dev \<leftarrow> cloud_parse_json env str;
          case dev of
            None \<Rightarrow> Some (-1, None)
          | Some d \<Rightarrow>
              let d = d\<lparr>software_ver := ''1.0.7''\<rparr> in
              (case get_dev_profile env ''.'' ''DevQuad'' of
                 None \<Rightarrow> Some (-1, Some (set_dev d w))
               | Some str \<Rightarrow> do {
                   quad \<leftarrow> cloud_quad_parse_json env d str;
                   case quad of
                     None \<Rightarrow> Some (-1, Some (set_dev d w))
                   | Some d \<Rightarrow> Some (0, Some (set_dev d w))
                 })
        })"

text \<open>\<open>cloud_deinit\<close> also frees the device record.\<close>

definition cloud_deinit :: "'db world \<Rightarrow> 'db world" where
  "cloud_deinit w = linkkit_close w"

definition http_get_quad_cb :: "'db env \<Rightarrow> string \<Rightarrow> nat \<Rightarrow> 'db world \<Rightarrow> (int \<times> 'db world) option" where
  "http_get_quad_cb env ptr n w =
     (case cJSON_Parse ptr of
        None \<Rightarrow> Some (-1, w)
      | Some root \<Rightarrow> do {
          let it = cJSON_GetObjectItem (Some root);
          w \<leftarrow> (case it ''ProductKey'' of None \<Rightarrow> Some w | Some j \<Rightarrow>
                 do { s \<leftarrow> item_text 33 j; Some (set_dev ((g_cloud_dev w)\<lparr>product_key := s\<rparr>) w) });
          w \<leftarrow> (case it ''ProductSecret'' of None \<Rightarrow> Some w | Some j \<Rightarrow>
                 do { s \<leftarrow> item_text 33 j; Some (set_dev ((g_cloud_dev w)\<lparr>product_secret := s\<rparr>) w) });
          w \<leftarrow> (case it ''DeviceName'' of None \<Rightarrow> Some w | Some j \<Rightarrow>
                 do { s \<leftarrow> item_text 33 j; Some (set_dev ((g_cloud_dev w)\<lparr>device_name := s\<rparr>) w) });
          w \<leftarrow> (case it ''DeviceSecret'' of None \<Rightarrow> Some w | Some j \<Rightarrow>
                 do { s \<leftarrow> valuestring j; map_option snd (save_device_secret env s w) });
          Some (int n, w)
        })"

section \<open>The task\<close>

definition DEFAULT_PRODUCT_KEY :: string where "DEFAULT_PRODUCT_KEY = ''a1YTZpQDGwn''"
definition DEFAULT_PRODUCT_SECRET :: string where "DEFAULT_PRODUCT_SECRET = ''oE99dmyBcH5RAWE3''"

text \<open>Defaults for what the quadruple file leaves empty; the name of the device is its hardware address.\<close>

definition quad_defaults :: "'db env \<Rightarrow> cloud_dev \<Rightarrow> cloud_dev" where
  "quad_defaults env d =
     (let d = (if product_key d = [] then d\<lparr>product_key := DEFAULT_PRODUCT_KEY\<rparr> else d);
          d = (if product_secret d = [] then d\<lparr>product_secret := DEFAULT_PRODUCT_SECRET\<rparr> else d)
      in if device_name d = [] then
           (case getNetworkMac env 33 [] of None \<Rightarrow> d | Some mac \<Rightarrow> d\<lparr>device_name := mac\<rparr>)
         else d)"

definition cloud_task :: "'db env \<Rightarrow> int list \<Rightarrow> int list \<Rightarrow> 'db world \<Rightarrow> 'db world option" where
  "cloud_task env opens connects w = do {
     let d = quad_defaults env (g_cloud_dev w);
     let w = set_dev d w;
     w \<leftarrow> linkkit_init_meta (product_key d) (product_secret d) (device_name d) (device_secret d) (software_ver d) w;
     linkkit_main_start opens connects w
   }"

section \<open>The handlers of the cloud library that come back here\<close>

definition user_connected_event_handler :: "'db env \<Rightarrow> 'db world \<Rightarrow> 'db world option" where
  "user_connected_event_handler env w = do {
     let w = w\<lparr>linkkit := (linkkit w)\<lparr>cloud_connected := 1\<rparr>\<rparr>;
     let w = snd (linkkit_unbind_check env w);
     let w = linkkit_connected_cb env True w;
     w \<leftarrow> send_all_to_cloud env w;
     Some (emit (Link_Query ITM_MSG_QUERY_TIMESTAMP []) w)
   }"

definition user_property_set_event_handler :: "'db env \<Rightarrow> string \<Rightarrow> 'db world \<Rightarrow> 'db world option" where
  "user_property_set_event_handler env request w = map_option snd (recv_data_from_cloud env request w)"

definition dynreg_device_secret :: "'db env \<Rightarrow> string \<Rightarrow> 'db world \<Rightarrow> 'db world option" where
  "dynreg_device_secret env secret w = map_option snd (save_device_secret env secret w)"

end
