(* ===== verification/X50_Ecb_Parse.thy ===== *)
theory X50_Ecb_Parse
  imports X50_Cloud_Task
begin

text \<open>
  What the power board makes the program do: the dispatch of \<open>ecb_uart_parse_msg\<close>
  (\<open>uart/ecb_uart_parse_msg.c\<close>) on the frames \<open>ecb_scan\<close> finds, the read callback, and the 200 ms tick
  of the serial task with the supervision of the link (\<open>ecb_timeout_cb\<close> of \<open>uart/ecb_uart.c\<close>).
\<close>

section \<open>Errors of the boards\<close>

definition POWER_BOARD_ERROR_CODE :: int where "POWER_BOARD_ERROR_CODE = 9"
definition COMMUNICATION_BOARD_ERROR_CODE :: int where "COMMUNICATION_BOARD_ERROR_CODE = 11"

text \<open>\<open>payload\<close> of \<open>send_error_to_cloud\<close>, an array of 8 bytes of which 7 are sent. \<open>1 << 31\<close> is the sign
  bit, and the shifts of \<open>code\<close> are arithmetic; \<open>error_code\<close> is at most 32.\<close>

definition error_payload :: "int \<Rightarrow> bytes" where
  "error_payload error_code =
     (let code = (if error_code > 0 then i32 (2 ^ nat (error_code - 1)) else 0) in
      [0x0a, byte_of_int (code div 2 ^ 24), byte_of_int (code div 2 ^ 16), byte_of_int (code div 2 ^ 6), byte_of_int code,
       0x0b, byte_of_int error_code, 0])"

definition send_error_to_cloud :: "'db env \<Rightarrow> int \<Rightarrow> 'db world \<Rightarrow> 'db world option" where
  "send_error_to_cloud env error_code = send_data_to_cloud env (Some (error_payload error_code)) 7"

section \<open>Keys of the power board\<close>

definition KEYPRESS_LOCAL_POWER_ON :: byte where "KEYPRESS_LOCAL_POWER_ON = 0x01"
definition KEYPRESS_LOCAL_RESET :: byte where "KEYPRESS_LOCAL_RESET = 0x02"
definition KEYPRESS_LOCAL_FT_START :: byte where "KEYPRESS_LOCAL_FT_START = 0x03"
definition KEYPRESS_LOCAL_FT_END :: byte where "KEYPRESS_LOCAL_FT_END = 0x04"
definition KEYPRESS_LOCAL_RUN_IN_DO :: byte where "KEYPRESS_LOCAL_RUN_IN_DO = 0x05"
definition KEYPRESS_LOCAL_STEAM_START :: byte where "KEYPRESS_LOCAL_STEAM_START = 0x0a"
definition KEYPRESS_LOCAL_FT_WIFI :: byte where "KEYPRESS_LOCAL_FT_WIFI = 0xa1"
definition KEYPRESS_LOCAL_FT_BT :: byte where "KEYPRESS_LOCAL_FT_BT = 0xa2"
definition KEYPRESS_LOCAL_FT_SPEAKER :: byte where "KEYPRESS_LOCAL_FT_SPEAKER = 0xa3"
definition KEYPRESS_LOCAL_FT_RESET :: byte where "KEYPRESS_LOCAL_FT_RESET = 0xa4"

text \<open>The keys that only log are the last case. After \<open>reboot\<close> the system is gone; the call returns
  only when it is not permitted.\<close>

definition keypress_local_pro :: "'db env \<Rightarrow> byte \<Rightarrow> 'db world \<Rightarrow> 'db world option" where
  "keypress_local_pro env val w =
     (if val = KEYPRESS_LOCAL_FT_START then
        Some (send_event_uds (cJSON_AddNullToObject cJSON_CreateObject ''ProductionTest'') None w)
      else if val = KEYPRESS_LOCAL_STEAM_START then
        Some (send_event_uds (cJSON_AddNullToObject cJSON_CreateObject ''SteamStart'') None w)
      else if val = KEYPRESS_LOCAL_FT_RESET then
        (case linkkit_unbind env w of (res, w) \<Rightarrow>
           if res \<noteq> 0 then map_option snd (ecb_uart_send_factory env FT_RET_ERR_RESET w)
           else map_option snd (ecb_uart_send_factory env FT_RET_OK_RESET (emit (Sleep 1) w)))
      else if val = KEYPRESS_LOCAL_RESET \<or> val = 0xff then Some (emit Reboot (emit Sync w))
      else Some w)"

text \<open>The loop over the payload looks for \<open>f1\<close>; the key is the byte behind it, which for the last byte
  of the payload is not in the payload.\<close>

function keypress_loop :: "'db env \<Rightarrow> bytes \<Rightarrow> nat \<Rightarrow> nat \<Rightarrow> 'db world \<Rightarrow> 'db world option" where
  "keypress_loop env payload data_len i w =
     (if i < data_len then
        (case rd payload i of
           None \<Rightarrow> None
         | Some b \<Rightarrow>
             if b = 0xf1 then
               (case do { key \<leftarrow> rd payload (i + 1); keypress_local_pro env key w } of
                  None \<Rightarrow> None
                | Some w \<Rightarrow> keypress_loop env payload data_len (i + 2) w)
             else keypress_loop env payload data_len (i + 1) w)
      else Some w)"
  by pat_completeness auto
termination by (relation "measure (\<lambda>(_, _, data_len, i, _). data_len - i)") auto

declare keypress_loop.simps [simp del]

section \<open>The dispatch\<close>

definition ecb_command :: "'db env \<Rightarrow> 16 word \<Rightarrow> byte \<Rightarrow> bytes \<Rightarrow> nat \<Rightarrow> 'db world \<Rightarrow> 'db world option" where
  "ecb_command env seq_id command payload data_len w =
     (if command = ECB_UART_COMMAND_EVENT \<or> command = ECB_UART_COMMAND_KEYPRESS then do {
        (_, w) \<leftarrow> ecb_uart_send_ack env (uint seq_id) w;
        if command = ECB_UART_COMMAND_EVENT then send_data_to_cloud env (Some payload) data_len w
        else keypress_loop env payload data_len 0 w
      }
      else if command = ECB_UART_COMMAND_HEART then
        map_option snd (ecb_uart_send_ack env (uint seq_id) (w\<lparr>ecb := (ecb w)\<lparr>ecb_heart_count := 0\<rparr>\<rparr>))
      else if command = ECB_UART_COMMAND_GETACK then
        send_data_to_cloud env (Some payload) data_len (w\<lparr>ecb := (ecb w)\<lparr>msg_get_timeout_count := 0\<rparr>\<rparr>)
      else if command = ECB_UART_COMMAND_ACK \<or> command = ECB_UART_COMMAND_NAK then
        ecb_resend_list_del_by_id (uint seq_id) w
      else map_option snd (ecb_uart_send_nak env ECB_NAK_COMMAND_UNKNOWN (uint seq_id) w))"

definition ecb_react :: "'db env \<Rightarrow> ecb_event \<Rightarrow> 'db world \<Rightarrow> 'db world option" where
  "ecb_react env ev w =
     (case ev of
        Ecb_None \<Rightarrow> Some w
      | Ecb_Bad_Tail seq_id \<Rightarrow> map_option snd (ecb_uart_send_nak env ECB_NAK_TAILER (uint seq_id) w)
      | Ecb_Msg seq_id command payload data_len crc_ok \<Rightarrow> ecb_command env seq_id command payload data_len w)"

definition ecb_uart_parse_msg :: "'db env \<Rightarrow> 'db world frame_func" where
  "ecb_uart_parse_msg env buf in_len end' w = do {
     (status, end', ev) \<leftarrow> ecb_scan buf in_len end';
     w \<leftarrow> ecb_react env ev w;
     Some (status, end', w)
   }"

text \<open>\<open>ecb_recv_cb\<close>: the buffer and its fill level are static variables.\<close>

definition ecb_recv_cb :: "'db env \<Rightarrow> int \<Rightarrow> bytes \<Rightarrow> 'db world \<Rightarrow> (bytes \<times> 'db world) option" where
  "ecb_recv_cb env end0 avail w = do {
     (avail, rx, w) \<leftarrow> uart_recv_cb (ecb_uart_parse_msg env) end0 avail (ecb_read_buf (ecb w)) w;
     Some (avail, w\<lparr>ecb := (ecb w)\<lparr>ecb_read_buf := rx\<rparr>\<rparr>)
   }"

section \<open>The tick\<close>

text \<open>\<open>ecb_uart_resend_cb\<close> writes to the port and touches neither the queue nor anything else of the
  program, so the queue can be put back when the walk is over.\<close>

definition ecb_resend_each :: "'db env \<Rightarrow> 'db world \<Rightarrow> 'db world option" where
  "ecb_resend_each env w = do {
     (l, w) \<leftarrow> resend_list_each (get_systime_ms (env_timeofday env)) (ecb_uart_resend_cb env) (ecb_list_resend (ecb w)) w;
     Some (w\<lparr>ecb := (ecb w)\<lparr>ecb_list_resend := l\<rparr>\<rparr>)
   }"

abbreviation set_get_timeout :: "int \<Rightarrow> 'db world \<Rightarrow> 'db world" where
  "set_get_timeout n w \<equiv> w\<lparr>ecb := (ecb w)\<lparr>ecb_msg_get_timeout := n\<rparr>\<rparr>"

abbreviation set_get_count :: "int \<Rightarrow> 'db world \<Rightarrow> 'db world" where
  "set_get_count n w \<equiv> w\<lparr>ecb := (ecb w)\<lparr>ecb_msg_get_count := n\<rparr>\<rparr>"

text \<open>Asking for the state of the board, at the short or at the long interval.\<close>

definition ecb_poll :: "'db env \<Rightarrow> 'db world \<Rightarrow> 'db world option" where
  "ecb_poll env w = do {
     (msg_get_status, w) \<leftarrow> ecb_uart_msg_get env False w;
     let w =
       (if ecb_msg_get_timeout (ecb w) = MSG_GET_SHORT_TIME \<and> ECB_UART_CONNECTED = msg_get_status
        then set_get_timeout MSG_GET_LONG_TIME w
        else if ecb_msg_get_timeout (ecb w) = MSG_GET_LONG_TIME \<and> ECB_UART_DISCONNECT = msg_get_status
        then set_get_timeout MSG_GET_SHORT_TIME w
        else w);
     let w = set_get_count (ecb_msg_get_count (ecb w) + 1) w;
     if ecb_msg_get_count (ecb w) > ecb_msg_get_timeout (ecb w)
     then map_option snd (ecb_uart_msg_get env True (set_get_count 0 w))
     else Some w
   }"

text \<open>The heart beats that are missed.\<close>

definition ecb_heart :: "'db env \<Rightarrow> 'db world \<Rightarrow> 'db world option" where
  "ecb_heart env w =
     (if fst (ecb_uart_heart_timeout False w) < MSG_HEART_TIME then
        (case ecb_uart_heart_timeout True w of (n, w) \<Rightarrow>
           if n = MSG_HEART_TIME then send_error_to_cloud env POWER_BOARD_ERROR_CODE w else Some w)
      else Some w)"

definition ecb_timeout_cb :: "'db env \<Rightarrow> 'db world \<Rightarrow> 'db world option" where
  "ecb_timeout_cb env w = do {
     w \<leftarrow> ecb_resend_each env w;
     w \<leftarrow> ecb_poll env w;
     ecb_heart env w
   }"

text \<open>\<open>uart_init\<close> returned \<open>fd\<close>; the select table of the serial task is started in \<open>X50_Main\<close>.\<close>

definition ecb_uart_init :: "'db env \<Rightarrow> int \<Rightarrow> 'db world \<Rightarrow> 'db world option" where
  "ecb_uart_init env fd w =
     (let w = w\<lparr>ecb := (ecb w)\<lparr>ecb_fd := fd\<rparr>\<rparr> in
      if fd \<le> 0 then Some w
      else map_option snd (ecb_uart_msg_get env True (w\<lparr>ecb := (ecb w)\<lparr>ecb_list_resend := resend_list_init\<rparr>\<rparr>)))"

definition ecb_uart_deinit :: "'db world \<Rightarrow> 'db world" where
  "ecb_uart_deinit w = emit (Close (ecb_fd (ecb w))) w"

end
