(* ===== verification/X50_Gesture.thy ===== *)
theory X50_Gesture
  imports X50_Ecb_Parse X50_Gesture_Link
begin

text \<open>
  What the gesture board makes the program do (\<open>uart/gesture_uart.c\<close>): waving changes the speed of
  the hood, two gestures start and stop cooking, the alarm and the failure of the sensor are passed
  on.
\<close>

definition GESTURE_ERROR :: int where "GESTURE_ERROR = 20"

text \<open>\<open>clear\<close> takes the bit of the error out of the mask that is reported now, otherwise it is set; the
  code of the error follows when no error is shown. The shifts are logical here.\<close>

definition gesture_error_mask :: "int \<Rightarrow> bool \<Rightarrow> 32 word \<Rightarrow> 32 word" where
  "gesture_error_mask error_code clear code =
     (let bit = push_bit (nat (error_code - 1)) 1 in if clear then code AND NOT bit else code OR bit)"

definition gesture_error_payload :: "int \<Rightarrow> bool \<Rightarrow> 32 word \<Rightarrow> byte \<Rightarrow> bytes" where
  "gesture_error_payload error_code clear code shown =
     (let code = gesture_error_mask error_code clear code in
      [0x0a, ucast (drop_bit 24 code), ucast (drop_bit 16 code), ucast (drop_bit 6 code), ucast code] @
      (if \<not> clear \<and> shown = 0 then [0x0b, byte_of_int error_code] else []))"

definition gesture_send_error_cloud :: "'db env \<Rightarrow> int \<Rightarrow> bool \<Rightarrow> 'db world \<Rightarrow> 'db world option" where
  "gesture_send_error_cloud env error_code clear w = do {
     code \<leftarrow> get_ErrorCode w;
     shown \<leftarrow> (if clear then Some 0 else get_ErrorCodeShow w);
     let payload = gesture_error_payload error_code clear code shown;
     send_data_to_cloud env (Some (payload @ replicate (8 - length payload) 0)) (length payload) w
   }"

abbreviation set_recv_error :: "int \<Rightarrow> 'db world \<Rightarrow> 'db world" where
  "set_recv_error n w \<equiv> w\<lparr>gesture := (gesture w)\<lparr>gesture_recv_error := n\<rparr>\<rparr>"

abbreviation set_alarm_status :: "byte \<Rightarrow> 'db world \<Rightarrow> 'db world" where
  "set_alarm_status n w \<equiv> w\<lparr>gesture := (gesture w)\<lparr>gesture_alarm_status := n\<rparr>\<rparr>"

abbreviation set_error_status :: "byte \<Rightarrow> 'db world \<Rightarrow> 'db world" where
  "set_error_status n w \<equiv> w\<lparr>gesture := (gesture w)\<lparr>gesture_error_status := n\<rparr>\<rparr>"

section \<open>The steps of a frame\<close>

text \<open>Bit 1 of \<open>data1\<close>: the board complains; after the fifth complaint in a row the time is sent.\<close>

definition gesture_complaint :: "'db env \<Rightarrow> byte \<Rightarrow> 'db world \<Rightarrow> 'db world" where
  "gesture_complaint env data1 w =
     (if bit data1 1 then
        (let n = gesture_recv_error (gesture w) + 1; w = set_recv_error n w in
         if n > 4 then gesture_auto_sync_time_alarm env False (set_recv_error 0 w) else w)
      else set_recv_error 0 w)"

text \<open>Bits 5 and 4: a wave to the right or to the left. \<open>char speed\<close> is unsigned on the target, so the
  -1 of an unknown speed is 255.\<close>

definition gesture_wave :: "byte \<Rightarrow> 'db world \<Rightarrow> bytes option" where
  "gesture_wave data1 w =
     (if bit data1 5 then do {
        s \<leftarrow> get_HoodSpeed w;
        let speed = byte_of_int s;
        Some (if speed < 3 then [0x31, speed + 1] else [])
      }
      else if bit data1 4 then do {
        s \<leftarrow> get_HoodSpeed w;
        let speed = byte_of_int s;
        Some (if speed > 0 then [0x31, speed - 1] else [])
      }
      else Some [])"

definition gesture_alarm_event :: "int \<Rightarrow> 'db world \<Rightarrow> 'db world" where
  "gesture_alarm_event n = send_event_uds (cJSON_AddNumberToObject cJSON_CreateObject ''Alarm'' n) None"

text \<open>Bit 6: the alarm rings.\<close>

definition gesture_alarm :: "byte \<Rightarrow> 'db world \<Rightarrow> 'db world" where
  "gesture_alarm data1 w =
     (if bit data1 6 then
        (if gesture_alarm_status (gesture w) = 0 then set_alarm_status 1 (gesture_alarm_event 1 w) else w)
      else (if gesture_alarm_status (gesture w) = 1 then set_alarm_status 0 (gesture_alarm_event 0 w) else w))"

definition gesture_key :: "byte \<Rightarrow> bytes" where
  "gesture_key data2 = (if data2 = 0x13 then [0xf7, 0x01] else if data2 = 0x14 then [0xf7, 0x03] else [])"

definition gesture_failure :: "'db env \<Rightarrow> byte \<Rightarrow> 'db world \<Rightarrow> 'db world option" where
  "gesture_failure env data2 w = do {
     w \<leftarrow> (if data2 = 0x15 then map_option (set_error_status 1) (gesture_send_error_cloud env GESTURE_ERROR False w)
          else Some w);
     if gesture_error_status (gesture w) > 0 \<and> data2 \<noteq> 0x15
     then gesture_send_error_cloud env GESTURE_ERROR True (set_error_status 0 w)
     else Some w
   }"

definition gesture_react :: "'db env \<Rightarrow> (byte \<times> byte) option \<Rightarrow> 'db world \<Rightarrow> 'db world option" where
  "gesture_react env ev w =
     (case ev of
        None \<Rightarrow> Some w
      | Some (data1, data2) \<Rightarrow> do {
          let w = gesture_complaint env data1 w;
          msg \<leftarrow> gesture_wave data1 w;
          let w = gesture_alarm data1 w;
          let msg = msg @ gesture_key data2;
          w \<leftarrow> gesture_failure env data2 w;
          if length msg > 0 then map_option snd (ecb_uart_send_msg env ECB_UART_COMMAND_SET (Some msg) (length msg) True (-1) w)
          else Some w
        })"

definition gesture_uart_parse_msg :: "'db env \<Rightarrow> 'db world frame_func" where
  "gesture_uart_parse_msg env buf in_len end' w = do {
     (status, end', ev) \<leftarrow> gesture_scan buf in_len end';
     w \<leftarrow> gesture_react env ev w;
     Some (status, end', w)
   }"

definition gesture_recv_cb :: "'db env \<Rightarrow> int \<Rightarrow> bytes \<Rightarrow> 'db world \<Rightarrow> (bytes \<times> 'db world) option" where
  "gesture_recv_cb env end0 avail w = do {
     (avail, rx, w) \<leftarrow> uart_recv_cb (gesture_uart_parse_msg env) end0 avail (gesture_read_buf (gesture w)) w;
     Some (avail, w\<lparr>gesture := (gesture w)\<lparr>gesture_read_buf := rx\<rparr>\<rparr>)
   }"

section \<open>Start and stop\<close>

definition gesture_uart_init :: "'db env \<Rightarrow> int \<Rightarrow> 'db world \<Rightarrow> 'db world" where
  "gesture_uart_init env fd w =
     (let w = w\<lparr>gesture := (gesture w)\<lparr>gesture_fd := fd\<rparr>\<rparr> in
      if fd \<le> 0 then w
      else
        let w = w\<lparr>gesture_registered := True\<rparr>;
            w = snd (gesture_send_msg env True False 0 0 False w);
            w = emit (Timer_Set ''gesture'' 3600 60) w
        in emit (Timer_Set ''gesture_heart'' 25 25) w)"

definition gesture_uart_deinit :: "'db world \<Rightarrow> 'db world" where
  "gesture_uart_deinit w = emit (Close (gesture_fd (gesture w))) w"

end
