(* ===== verification/X50_Cloud_Frame.thy ===== *)
theory X50_Cloud_Frame
  imports X50_Cloud_Attr
begin

text \<open>
  What reporting attributes leaves alone, and a kind of profile for which it never faults.

  \<open>report_rel\<close> relates the program before and after a report: the links, their buffers and queues, the
  cloud state and the layout of the attribute table are the same.
\<close>

section \<open>The frame of a report\<close>

definition attr_layout :: "cloud_attr \<Rightarrow> string \<times> int \<times> int \<times> byte \<times> byte \<times> nat option" where
  "attr_layout a = (cloud_key a, cloud_value_type a, cloud_fun_type a, uart_cmd a, uart_byte_len a,
     map_option length (attr_value a))"

definition table_layout :: "'db world \<Rightarrow> (string \<times> int \<times> int \<times> byte \<times> byte \<times> nat option) list" where
  "table_layout w = map attr_layout (attrs (g_cloud_dev w))"

text \<open>What went to the two boards.\<close>

fun is_board_write :: "effect \<Rightarrow> bool" where
  "is_board_write (Ecb_Write b) = True"
| "is_board_write (Gesture_Write b) = True"
| "is_board_write _ = False"

definition board_writes :: "'db world \<Rightarrow> effect list" where
  "board_writes w = filter is_board_write (trace w)"

lemma board_writes_emit [simp]:
  "board_writes (emit e w) = board_writes w @ (if is_board_write e then [e] else [])"
  by (simp add: board_writes_def)

lemma board_writes_cong: "trace w' = trace w \<Longrightarrow> board_writes w' = board_writes w"
  by (simp add: board_writes_def)

lemma board_writes_trace:
  "board_writes (w\<lparr>trace := trace w @ es\<rparr>) = board_writes w @ filter is_board_write es"
  by (simp add: board_writes_def)

lemma board_writes_update [simp]:
  "board_writes (w\<lparr>database := d\<rparr>) = board_writes w" "board_writes (w\<lparr>history := h\<rparr>) = board_writes w"
  "board_writes (w\<lparr>g_cloud_dev := v\<rparr>) = board_writes w" "board_writes (set_history l w) = board_writes w"
  "board_writes (set_history_seqid n w) = board_writes w" "board_writes (w\<lparr>ecb := x\<rparr>) = board_writes w"
  "board_writes (w\<lparr>linkkit := k\<rparr>) = board_writes w" "board_writes (set_attr_at j a w) = board_writes w"
  by (simp_all add: board_writes_def set_history_def set_history_seqid_def set_attr_at_def)

lemma board_writes_reports [simp]:
  "board_writes (send_event_uds j t w) = board_writes w"
  "board_writes (linkkit_user_post_event i p w) = board_writes w"
  "board_writes (linkkit_user_post_property q w) = board_writes w"
  "board_writes (snd (report_msg_all_platform r w)) = board_writes w"
  by (simp_all add: board_writes_def send_event_uds_trace linkkit_user_post_event_def linkkit_user_post_property_def
      report_msg_all_platform_def split: option.splits)

definition report_rel :: "'db world \<Rightarrow> 'db world \<Rightarrow> bool" where
  "report_rel w w' \<longleftrightarrow> ecb w' = ecb w \<and> gesture w' = gesture w \<and> uds w' = uds w \<and> linkkit w' = linkkit w \<and>
     gesture_registered w' = gesture_registered w \<and> uart_buf w' = uart_buf w \<and>
     remind (g_cloud_dev w') = remind (g_cloud_dev w) \<and> table_layout w' = table_layout w \<and>
     board_writes w' = board_writes w"

lemma report_rel_refl [simp]: "report_rel w w"
  by (simp add: report_rel_def)

lemma report_rel_trans: "report_rel w w' \<Longrightarrow> report_rel w' w'' \<Longrightarrow> report_rel w w''"
  by (simp add: report_rel_def)

lemma post_event_frame [simp]:
  "ecb (linkkit_user_post_event e p w) = ecb w" "gesture (linkkit_user_post_event e p w) = gesture w"
  "uds (linkkit_user_post_event e p w) = uds w" "linkkit (linkkit_user_post_event e p w) = linkkit w"
  "history (linkkit_user_post_event e p w) = history w" "g_cloud_dev (linkkit_user_post_event e p w) = g_cloud_dev w"
  "database (linkkit_user_post_event e p w) = database w" "uart_buf (linkkit_user_post_event e p w) = uart_buf w"
  "gesture_registered (linkkit_user_post_event e p w) = gesture_registered w"
  by (simp_all add: linkkit_user_post_event_def split: option.splits)

lemma report_rel_event [simp]: "report_rel w0 (linkkit_user_post_event e p w) \<longleftrightarrow> report_rel w0 w"
  by (simp add: report_rel_def table_layout_def)

lemma report_rel_property [simp]: "report_rel w0 (linkkit_user_post_property p w) \<longleftrightarrow> report_rel w0 w"
  by (simp add: report_rel_def table_layout_def)

lemma report_rel_all [simp]: "report_rel w0 (snd (report_msg_all_platform j w)) \<longleftrightarrow> report_rel w0 w"
  by (simp add: report_rel_def table_layout_def)

lemma report_rel_uds [simp]: "report_rel w0 (send_event_uds j t w) \<longleftrightarrow> report_rel w0 w"
  by (simp add: report_rel_def table_layout_def)

lemma report_rel_database [simp]: "report_rel (w\<lparr>database := d\<rparr>) w' \<longleftrightarrow> report_rel w w'"
  by (simp add: report_rel_def table_layout_def)

lemma report_rel_set_history [simp]:
  "report_rel w (set_history l w') \<longleftrightarrow> report_rel w w'" "report_rel w (set_history_seqid n w') \<longleftrightarrow> report_rel w w'"
  by (simp_all add: report_rel_def table_layout_def set_history_def set_history_seqid_def)

lemma report_rel_set_attr:
  assumes "attr_layout a = attr_layout (attr_at w j)"
  shows "report_rel w (set_attr_at j a w)"
proof -
  let ?l = "attrs (g_cloud_dev w)"
  have "map attr_layout (?l[j := a]) = map attr_layout ?l"
    using assms by (metis list_update_id map_update)
  then show ?thesis by (simp add: report_rel_def table_layout_def set_attr_at_def)
qed

lemma report_rel_len: "report_rel w w' \<Longrightarrow> attr_len w' = attr_len w"
  unfolding report_rel_def table_layout_def by (metis length_map)

lemma report_rel_attr: "report_rel w w' \<Longrightarrow> j < attr_len w \<Longrightarrow> attr_layout (attr_at w' j) = attr_layout (attr_at w j)"
  using report_rel_len [of w w'] unfolding report_rel_def table_layout_def by (metis nth_map)

section \<open>Every report stays in the frame\<close>

lemma select_seqid_frame:
  assumes "select_seqid_from_table env t n histroy_select_seqid_func (j, w) = Some (rc, j', w')"
  shows "report_rel w w'"
proof -
  define step where "step = (\<lambda>row st. do { r \<leftarrow> recipes_of_row row; histroy_select_seqid_func r st :: (json \<times> 'a world) option })"
  have walk: "report_rel w0 (snd (j2, w2))" if "foldM step rows (j0, w0) = Some (j2, w2)" for rows j0 w0 j2 w2
  proof (rule foldM_invariant [OF that, where P = "\<lambda>st. report_rel w0 (snd st)"])
    fix row and s s' :: "json \<times> 'a world"
    assume "report_rel w0 (snd s)" and "step row s = Some s'"
    then show "report_rel w0 (snd s')"
      by (cases s) (auto simp: step_def option_bind_Some_iff histroy_select_seqid_func_def note_seqid_def Let_def
          split: if_splits)
  qed simp
  show ?thesis
    using assms
    by (auto simp: select_seqid_from_table_def select_rows_def db_run_def option_bind_Some_iff
        dest!: walk [unfolded step_def] split: if_splits prod.splits option.splits)
qed

lemma select_cookbook_frame:
  assumes "select_for_cookbookID env i n w = Some (rc, name, w')"
  shows "report_rel w w'"
  using assms by (auto simp: select_for_cookbookID_def option_bind_Some_iff dest!: select_seqid_frame
      split: if_splits option.splits)

lemma report_rel_write:
  "attr_value (attr_at w j) = Some m \<Longrightarrow> wr_n m k bs = Some m' \<Longrightarrow>
    report_rel w (set_attr_at j ((attr_at w j)\<lparr>attr_value := Some m'\<rparr>) w)"
  using wr_n_length [of m k bs m'] by (intro report_rel_set_attr) (simp add: attr_layout_def)

lemma report_cookbook_frame:
  assumes "report_cookbook_name env v w = Some w'"
  shows "report_rel w w'"
proof (cases "get_attr_ptr ''CookbookName'' w")
  case (Some j)
  show ?thesis
  proof (cases "attr_value (attr_at w j)")
    case (Some m)
    obtain s where s: "c_str m = Some s"
      using assms Some \<open>get_attr_ptr _ w = Some j\<close> by (auto simp: report_cookbook_name_def option_bind_Some_iff)
    show ?thesis
    proof (cases "s = []")
      case True
      obtain rc name w1 where sel: "select_for_cookbookID env v (unat (uart_byte_len (attr_at w j))) w = Some (rc, name, w1)"
        using assms Some s True \<open>get_attr_ptr _ w = Some j\<close> by (auto simp: report_cookbook_name_def option_bind_Some_iff)
      note f = select_cookbook_frame [OF sel]
      show ?thesis
      proof (cases name)
        case None
        then show ?thesis using assms Some s True \<open>get_attr_ptr _ w = Some j\<close> sel f
          by (simp add: report_cookbook_name_def)
      next
        case (Some nm)
        have j: "j < attr_len w"
          using \<open>get_attr_ptr _ w = Some j\<close> by (auto simp: get_attr_ptr_def find_Some_iff)
        obtain m' resp where m': "wr_n m 0 nm = Some m'"
            "w' = snd (report_msg_all_platform resp (set_attr_at j ((attr_at w1 j)\<lparr>attr_value := Some m'\<rparr>) w1))"
          using assms Some s True \<open>attr_value _ = Some m\<close> \<open>get_attr_ptr _ w = Some j\<close> sel
          by (auto simp: report_cookbook_name_def option_bind_Some_iff Let_def)
        have "attr_layout ((attr_at w1 j)\<lparr>attr_value := Some m'\<rparr>) = attr_layout (attr_at w1 j)"
          using report_rel_attr [OF f j] wr_n_length [OF m'(1)] \<open>attr_value _ = Some m\<close> by (auto simp: attr_layout_def)
        from report_rel_set_attr [OF this] show ?thesis
          unfolding m'(2) using f report_rel_trans by (metis report_rel_all)
      qed
    next
      case False
      then show ?thesis using assms Some s \<open>get_attr_ptr _ w = Some j\<close> by (simp add: report_cookbook_name_def)
    qed
  qed (use assms Some in \<open>simp add: report_cookbook_name_def\<close>)
qed (use assms in \<open>simp add: report_cookbook_name_def\<close>)

lemma report_string_frame:
  assumes "report_string env j w = Some (s, w')"
  shows "report_rel w w'"
  using assms
  by (auto simp: report_string_def Let_def option_bind_Some_iff intro: report_rel_write split: if_splits option.splits)

lemma report_item_frame:
  assumes "report_item env j w = Some (item, w')"
  shows "report_rel w w'"
  using assms
  by (auto simp: report_item_def Let_def option_bind_Some_iff dest: report_cookbook_frame report_string_frame
      split: if_splits)

lemma report_value_frame:
  assumes "get_attr_report_value env j (resp, w) = Some (resp', w')"
  shows "report_rel w w'"
  using assms by (auto simp: get_attr_report_value_def Let_def option_bind_Some_iff dest: report_item_frame
      split: if_splits option.splits)

lemma report_event_frame:
  assumes "get_attr_report_event j v all w = Some w'"
  shows "report_rel w w'"
  using assms by (auto simp: get_attr_report_event_def Let_def option_bind_Some_iff split: if_splits)

lemma report_rel_store:
  assumes "(if uart_byte_len (attr_at w j) = 0 then Some (attr_value (attr_at w j))
            else do { m \<leftarrow> attr_value (attr_at w j); bs \<leftarrow> f; map_option Some (wr_n m 0 bs) }) = Some new"
  shows "report_rel w (set_attr_at j ((attr_at w j)\<lparr>attr_value := new\<rparr>) w)"
  using assms
  by (auto simp: option_bind_Some_iff intro: report_rel_write report_rel_set_attr split: if_splits)

lemma report_command_frame:
  assumes "report_command env val i j (root, w) = Some (n, root', w')"
  shows "report_rel w w'"
proof -
  obtain w1 where w1: "get_attr_report_event j (rd val (i + 1)) False w = Some w1"
    using assms by (auto simp: report_command_def option_bind_Some_iff)
  obtain new where new: "(if uart_byte_len (attr_at w1 j) = 0 then Some (attr_value (attr_at w1 j))
            else do { m \<leftarrow> attr_value (attr_at w1 j); bs \<leftarrow> rd_n val (i + 1) (unat (uart_byte_len (attr_at w1 j)));
                      map_option Some (wr_n m 0 bs) }) = Some new"
    using assms w1 by (auto simp: report_command_def option_bind_Some_iff)
  define w2 where "w2 = set_attr_at j ((attr_at w1 j)\<lparr>attr_value := new\<rparr>) w1"
  obtain root3 w3 where w3: "get_attr_report_value env j (root, w2) = Some (root3, w3)"
    using assms w1 new by (auto simp: report_command_def option_bind_Some_iff w2_def Let_def)
  have "report_rel w3 w'"
    using assms w1 new w3
    by (auto simp: report_command_def option_bind_Some_iff Let_def dest: report_value_frame
        split: if_splits option.splits simp flip: w2_def)
  moreover have "report_rel w1 w2" unfolding w2_def by (rule report_rel_store [OF new])
  ultimately show ?thesis
    using report_event_frame [OF w1] report_value_frame [OF w3] report_rel_trans by blast
qed

lemma report_byte_frame:
  assumes "report_byte env val i (root, w) = Some (n, root', w')"
  shows "report_rel w w'"
  using assms by (auto simp: report_byte_def option_bind_Some_iff split: option.splits dest: report_command_frame)

lemma report_loop_frame:
  assumes "report_loop env val n i (root, w) = Some (root', w')"
  shows "report_rel w w'"
  using assms
proof (induction env val n i "(root, w)" arbitrary: root w rule: report_loop.induct)
  case (1 env val n i root w)
  show ?case
  proof (cases "i < n")
    case True
    then obtain skip r1 w1 where s: "report_byte env val i (root, w) = Some (skip, r1, w1)"
      "report_loop env val n (i + skip + 1) (r1, w1) = Some (root', w')"
      using 1(2) by (subst (asm) report_loop.simps) (auto split: option.splits)
    from 1(1) [OF True s(1) refl s(2)] report_byte_frame [OF s(1)] show ?thesis
      using report_rel_trans by blast
  qed (use 1(2) in \<open>subst (asm) report_loop.simps, simp\<close>)
qed

lemma send_data_frame:
  assumes "send_data_to_cloud env val n w = Some w'"
  shows "report_rel w w'"
  using assms
  by (auto simp: send_data_to_cloud_def option_bind_Some_iff split: option.splits dest!: report_loop_frame)

lemma cloud_getall_frame:
  assumes "cloud_resp_getall env (j, w) = Some (j', w')"
  shows "report_rel w w'"
proof -
  have "report_rel w (snd (j', w'))"
    by (rule foldM_invariant [OF assms [unfolded cloud_resp_getall_def], where P = "\<lambda>st. report_rel w (snd st)"])
      (auto dest!: report_value_frame elim: report_rel_trans)
  then show ?thesis by simp
qed

lemma cloud_get_frame:
  assumes "cloud_resp_get env root (j, w) = Some (j', w')"
  shows "report_rel w w'"
proof -
  have "report_rel w (snd (j', w'))"
    by (rule foldM_invariant [OF assms [unfolded cloud_resp_get_def], where P = "\<lambda>st. report_rel w (snd st)"])
      (auto dest!: report_value_frame elim: report_rel_trans split: if_splits)
  then show ?thesis by simp
qed

section \<open>Profiles of numbers\<close>

text \<open>Every attribute is a number of one to four bytes whose storage is allocated, and none is called
  \<open>CookbookName\<close>.\<close>

definition number_layout :: "string \<times> int \<times> int \<times> byte \<times> byte \<times> nat option \<Rightarrow> bool" where
  "number_layout l = (case l of (key, vtype, ftype, cmd, len, alloc) \<Rightarrow>
     (vtype = LINK_VALUE_TYPE_NUM \<or> vtype = LINK_VALUE_TYPE_STRING_NUM) \<and> 0 < len \<and> len \<le> 4 \<and>
     alloc = Some (unat len) \<and> key \<noteq> ''CookbookName'')"

definition number_table :: "'db world \<Rightarrow> bool" where
  "number_table w \<longleftrightarrow> (\<forall>l \<in> set (table_layout w). number_layout l)"

lemma number_table_rel: "report_rel w w' \<Longrightarrow> number_table w' \<longleftrightarrow> number_table w"
  by (simp add: number_table_def report_rel_def)

lemma number_attr:
  assumes "number_table w" and "j < attr_len w"
  shows "number_layout (attr_layout (attr_at w j))"
  using assms by (simp add: number_table_def table_layout_def)

lemma number_value:
  assumes "number_table w" and "j < attr_len w"
  obtains m where "attr_value (attr_at w j) = Some m" "length m = unat (uart_byte_len (attr_at w j))"
    "0 < length m" "length m \<le> 4" "cloud_key (attr_at w j) \<noteq> ''CookbookName''"
    "cloud_value_type (attr_at w j) = LINK_VALUE_TYPE_NUM \<or> cloud_value_type (attr_at w j) = LINK_VALUE_TYPE_STRING_NUM"
proof -
  have l: "uart_byte_len (attr_at w j) \<le> 4" "0 < uart_byte_len (attr_at w j)"
    "map_option length (attr_value (attr_at w j)) = Some (unat (uart_byte_len (attr_at w j)))"
    "cloud_key (attr_at w j) \<noteq> ''CookbookName''"
    "cloud_value_type (attr_at w j) = LINK_VALUE_TYPE_NUM \<or> cloud_value_type (attr_at w j) = LINK_VALUE_TYPE_STRING_NUM"
    using number_attr [OF assms] by (simp_all add: number_layout_def attr_layout_def)
  have "unat (uart_byte_len (attr_at w j)) \<le> 4" "0 < unat (uart_byte_len (attr_at w j))"
    using l(1,2) by (simp_all add: word_le_nat_alt word_less_nat_alt)
  with l(3-5) that show ?thesis by auto
qed

lemma no_cookbook:
  assumes "number_table w"
  shows "get_attr_ptr ''CookbookName'' w = None"
proof -
  have "cloud_key (attr_at w j) \<noteq> ''CookbookName''" if "j < attr_len w" for j
    using number_attr [OF assms that] by (simp add: number_layout_def attr_layout_def)
  then show ?thesis by (auto simp: get_attr_ptr_def find_None_iff)
qed

lemma number_item:
  assumes "number_table w" and "j < attr_len w" and "attr_value (attr_at w j) = Some m"
  shows "report_item env j w = Some (Some
    (if cloud_value_type (attr_at w j) = LINK_VALUE_TYPE_NUM then JNum (cloud_val m) else JStr (dec_int (cloud_val m))), w)"
proof -
  obtain m' where "attr_value (attr_at w j) = Some m'" "length m' = unat (uart_byte_len (attr_at w j))" "0 < length m'"
    "cloud_value_type (attr_at w j) = LINK_VALUE_TYPE_NUM \<or> cloud_value_type (attr_at w j) = LINK_VALUE_TYPE_STRING_NUM"
    using number_value [OF assms(1,2)] by metis
  with assms show ?thesis
    by (auto simp: report_item_def read_block_def rd_n_def Let_def link_types report_cookbook_name_def no_cookbook)
qed

lemma number_value_step:
  assumes "number_table w" and "j < attr_len w" and "attr_value (attr_at w j) = Some m"
  shows "get_attr_report_value env j (JObj kvs, w) = Some (JObj (kvs @
    (if reportable (attr_at w j) then [(cloud_key (attr_at w j),
       if cloud_value_type (attr_at w j) = LINK_VALUE_TYPE_NUM then JNum (cloud_val m) else JStr (dec_int (cloud_val m)))]
     else [])), w)"
  using number_item [OF assms] by (simp add: get_attr_report_value_def Let_def)

lemma number_event_total:
  assumes "number_table w" and "j < attr_len w" and "v \<noteq> None"
  shows "\<exists>w'. get_attr_report_event j v all w = Some w'"
proof -
  obtain m where "attr_value (attr_at w j) = Some m" "0 < length m" using number_value [OF assms(1,2)] by metis
  with assms(3) show ?thesis
    by (auto simp: get_attr_report_event_def Let_def first_byte_def rd_def split: option.splits)
qed

text \<open>One command of the board, with its value inside the buffer.\<close>

lemma set_attr_at_simps [simp]:
  "attr_len (set_attr_at j a w) = attr_len w" "j < attr_len w \<Longrightarrow> attr_at (set_attr_at j a w) j = a"
  by (simp_all add: set_attr_at_def)

text \<open>A payload of commands with their values, as the board sends it: pairs of an attribute and the
  bytes of its value.\<close>

definition board_bytes :: "'db world \<Rightarrow> (nat \<times> bytes) list \<Rightarrow> bytes" where
  "board_bytes w = (\<lambda>rs. concat (map (\<lambda>(j, bs). uart_cmd (attr_at w j) # bs) rs))"

definition report_entry :: "'db world \<Rightarrow> nat \<times> bytes \<Rightarrow> (string \<times> json) list" where
  "report_entry w r = (case r of (j, bs) \<Rightarrow>
     if reportable (attr_at w j) then [(cloud_key (attr_at w j),
       if cloud_value_type (attr_at w j) = LINK_VALUE_TYPE_NUM then JNum (cloud_val bs) else JStr (dec_int (cloud_val bs)))]
     else [])"

definition store_report :: "'db world \<Rightarrow> nat \<times> bytes \<Rightarrow> cloud_attr list \<Rightarrow> cloud_attr list" where
  "store_report w r as = (case r of (j, bs) \<Rightarrow> as[j := (as ! j)\<lparr>attr_value := Some bs\<rparr>])"

lemma report_event_dev:
  "get_attr_report_event j v all w = Some w' \<Longrightarrow> g_cloud_dev w' = g_cloud_dev w"
  by (auto simp: get_attr_report_event_def Let_def option_bind_Some_iff split: if_splits)

lemma number_command:
  assumes "number_table w" and "j < attr_len w" and "rd_n val (i + 1) (unat (uart_byte_len (attr_at w j))) = Some bs"
  shows "\<exists>w'. report_command env val i j (JObj kvs, w) =
      Some (unat (uart_byte_len (attr_at w j)), JObj (kvs @ report_entry w (j, bs)), w') \<and>
    report_rel w w' \<and> attrs (g_cloud_dev w') = store_report w (j, bs) (attrs (g_cloud_dev w))"
proof -
  obtain m where m: "attr_value (attr_at w j) = Some m" "length m = unat (uart_byte_len (attr_at w j))" "0 < length m" "length m \<le> 4"
    using number_value [OF assms(1,2)] by metis
  have len: "i + 1 + length m \<le> length val" "length bs = length m"
    using assms(3) m(2) by (auto simp: rd_n_eq_Some_iff)
  then have "i + 1 < length val" using m(3) by linarith
  then have v: "rd val (i + 1) = Some (val ! (i + 1))" by (simp add: rd_def)
  obtain w1 where w1: "get_attr_report_event j (rd val (i + 1)) False w = Some w1"
    using number_event_total [OF assms(1,2)] v by fastforce
  note r1 = report_event_frame [OF w1] and d1 = report_event_dev [OF w1]
  have n1: "number_table w1" using number_table_rel [OF r1] assms by simp
  have wr: "wr_n m 0 bs = Some bs" using len(2) by (simp add: wr_n_def)
  define w2 where "w2 = set_attr_at j ((attr_at w j)\<lparr>attr_value := Some bs\<rparr>) w1"
  have r2: "report_rel w1 w2" unfolding w2_def using report_rel_write [of w1 j m 0 bs bs] m(1) wr d1 by simp
  have a2: "attr_at w2 j = (attr_at w j)\<lparr>attr_value := Some bs\<rparr>" "j < attr_len w2" using assms(2) d1 by (simp_all add: w2_def)
  have n2: "number_table w2" using number_table_rel [OF r2] n1 by simp
  have v2: "get_attr_report_value env j (JObj kvs, w2) = Some (JObj (kvs @ report_entry w (j, bs)), w2)"
    using number_value_step [OF n2 a2(2), of bs env kvs] a2(1) by (simp add: report_entry_def reportable_def)
  have "unat (uart_byte_len (attr_at w j)) \<noteq> 0" using m(2,3) by simp
  then have "uart_byte_len (attr_at w j) \<noteq> 0" by auto
  then have "report_command env val i j (JObj kvs, w) = do {
       (root, w) \<leftarrow> (if cloud_key (attr_at w j) = ''MultiMode'' then do {
         b \<leftarrow> first_byte (Some bs);
         if b \<noteq> 1 then Some (JObj (kvs @ report_entry w (j, bs)), w2)
         else (case get_attr_ptr ''CookbookName'' w2 of
             None \<Rightarrow> Some (JObj (kvs @ report_entry w (j, bs)), w2)
           | Some k \<Rightarrow> get_attr_report_value env k (JObj (kvs @ report_entry w (j, bs)), w2))
       } else Some (JObj (kvs @ report_entry w (j, bs)), w2));
       Some (unat (uart_byte_len (attr_at w j)), root, w) }"
    using w1 m(1) assms(3) wr v2 d1 no_cookbook [OF n2] a2(1)
    by (simp add: report_command_def Let_def cong: if_cong flip: w2_def)
  also have "\<dots> = Some (unat (uart_byte_len (attr_at w j)), JObj (kvs @ report_entry w (j, bs)), w2)"
    using no_cookbook [OF n2] len(2) m(3) a2(1) by (auto simp: first_byte_def rd_def)
  finally show ?thesis
    using report_rel_trans [OF r1 r2] d1 by (auto simp: w2_def store_report_def set_attr_at_def)
qed

text \<open>The whole walk: it reads at most four bytes behind the payload.\<close>

lemma number_byte_total:
  assumes "number_table w" and "i + 4 < length val"
  shows "\<exists>n root' w'. report_byte env val i (JObj kvs, w) = Some (n, JObj root', w')"
proof (cases "attr_of_cmd (val ! i) w")
  case (Some j)
  then have "j < attr_len w" by (auto simp: attr_of_cmd_def find_Some_iff)
  have "unat (uart_byte_len (attr_at w j)) \<le> 4"
    by (rule number_value [OF assms(1) \<open>j < attr_len w\<close>]) simp
  then have "rd_n val (i + 1) (unat (uart_byte_len (attr_at w j))) =
      Some (take (unat (uart_byte_len (attr_at w j))) (drop (i + 1) val))"
    using assms(2) by (simp add: rd_n_def)
  note cmd = number_command [OF assms(1) \<open>j < attr_len w\<close> this, of env kvs]
  have "rd val i = Some (val ! i)" using assms(2) by (simp add: rd_def)
  then have "report_byte env val i (JObj kvs, w) = report_command env val i j (JObj kvs, w)"
    using Some by (simp add: report_byte_def)
  with cmd show ?thesis by auto
qed (use assms(2) in \<open>simp add: report_byte_def rd_def\<close>)

lemma number_loop_total:
  assumes "number_table w" and "n + 4 \<le> length val"
  shows "\<exists>root' w'. report_loop env val n i (JObj kvs, w) = Some (JObj root', w')"
  using assms
proof (induction "n - i" arbitrary: i kvs w rule: less_induct)
  case less
  show ?case
  proof (cases "i < n")
    case True
    then obtain k r1 w1 where s: "report_byte env val i (JObj kvs, w) = Some (k, JObj r1, w1)"
      using number_byte_total [OF less.prems(1), of i val env kvs] less.prems(2) by auto
    have "number_table w1" using report_byte_frame [OF s] number_table_rel less.prems(1) by blast
    moreover have "n - (i + k + 1) < n - i" using True by simp
    ultimately obtain root' w' where "report_loop env val n (i + k + 1) (JObj r1, w1) = Some (JObj root', w')"
      using less.hyps less.prems(2) by blast
    with s True show ?thesis by (subst report_loop.simps) simp
  next
    case False
    then show ?thesis by (subst report_loop.simps) simp
  qed
qed

lemma number_send_total:
  assumes "number_table w" and "n + 4 \<le> length val"
  shows "\<exists>w'. send_data_to_cloud env (Some val) n w = Some w' \<and> report_rel w w'"
proof -
  obtain root' w1 where "report_loop env val n 0 (JObj [], w) = Some (JObj root', w1)"
    using number_loop_total [OF assms] by blast
  then have "send_data_to_cloud env (Some val) n w = Some (snd (report_msg_all_platform (JObj root') w1))"
    by (simp add: send_data_to_cloud_def cJSON_CreateObject_def)
  with send_data_frame show ?thesis by blast
qed

text \<open>Commands are distinct, so the first attribute with a command is the one that is meant.\<close>

definition distinct_cmds :: "'db world \<Rightarrow> bool" where
  "distinct_cmds w \<longleftrightarrow> distinct (map uart_cmd (attrs (g_cloud_dev w)))"

lemma attr_of_cmd_hit:
  assumes "distinct_cmds w" and "j < attr_len w"
  shows "attr_of_cmd (uart_cmd (attr_at w j)) w = Some j"
proof -
  have u: "k = j" if "k < attr_len w" "uart_cmd (attr_at w k) = uart_cmd (attr_at w j)" for k
    using assms that unfolding distinct_cmds_def by (metis length_map nth_eq_iff_index_eq nth_map)
  have "List.find (\<lambda>k. uart_cmd (attr_at w j) = uart_cmd (attr_at w k)) [0..<attr_len w] \<noteq> None"
    using assms(2) by (auto simp: find_None_iff)
  then obtain k where k: "attr_of_cmd (uart_cmd (attr_at w j)) w = Some k" by (auto simp: attr_of_cmd_def)
  then have "k < attr_len w" "uart_cmd (attr_at w k) = uart_cmd (attr_at w j)"
    by (auto simp: attr_of_cmd_def find_Some_iff)
  with u k show ?thesis by simp
qed

lemma distinct_cmds_rel: "report_rel w w' \<Longrightarrow> distinct_cmds w' \<longleftrightarrow> distinct_cmds w"
proof -
  have "map uart_cmd (attrs (g_cloud_dev v)) = map (\<lambda>(_, _, _, c, _, _). c) (table_layout v)" for v :: "'a world"
    by (simp add: table_layout_def attr_layout_def)
  then show "report_rel w w' \<Longrightarrow> distinct_cmds w' \<longleftrightarrow> distinct_cmds w" by (simp add: distinct_cmds_def report_rel_def)
qed

section \<open>What a report says\<close>

lemma report_entry_rel: "report_rel w w' \<Longrightarrow> fst r < attr_len w \<Longrightarrow> report_entry w' r = report_entry w r"
  using report_rel_attr [of w w' "fst r"] by (auto simp: report_entry_def attr_layout_def reportable_def split: prod.splits)

lemma board_bytes_rel:
  assumes "report_rel w w'" and "\<forall>r \<in> set rs. fst r < attr_len w"
  shows "board_bytes w' rs = board_bytes w rs"
proof -
  have "uart_cmd (attr_at w' j) = uart_cmd (attr_at w j)" if "(j, bs) \<in> set rs" for j bs
    using report_rel_attr [OF assms(1), of j] assms(2) that by (force simp: attr_layout_def)
  then show ?thesis by (auto simp: board_bytes_def intro!: arg_cong [of _ _ concat])
qed

definition report_ok :: "'db world \<Rightarrow> nat \<times> bytes \<Rightarrow> bool" where
  "report_ok w r \<longleftrightarrow> fst r < attr_len w \<and> length (snd r) = unat (uart_byte_len (attr_at w (fst r)))"

lemma report_ok_rel: "report_rel w w' \<Longrightarrow> report_ok w' r \<longleftrightarrow> report_ok w r"
  using report_rel_len [of w w'] report_rel_attr [of w w' "fst r"] by (auto simp: report_ok_def attr_layout_def)

lemma number_stream:
  assumes "number_table w" and "distinct_cmds w" and "\<forall>r \<in> set rs. report_ok w r"
  shows "\<exists>w'. report_loop env (pre @ board_bytes w rs @ rest) (length pre + length (board_bytes w rs)) (length pre) (JObj kvs, w) =
      Some (JObj (kvs @ concat (map (report_entry w) rs)), w') \<and> report_rel w w' \<and>
    attrs (g_cloud_dev w') = fold (store_report w) rs (attrs (g_cloud_dev w))"
  using assms
proof (induction rs arbitrary: pre kvs w)
  case Nil
  show ?case by (subst report_loop.simps) (simp add: board_bytes_def)
next
  case (Cons r rs)
  obtain j bs where r: "r = (j, bs)" by (cases r)
  have j: "j < attr_len w" "length bs = unat (uart_byte_len (attr_at w j))" using Cons.prems(3) r by (simp_all add: report_ok_def)
  define val where "val = pre @ board_bytes w (r # rs) @ rest"
  have val: "val = (pre @ uart_cmd (attr_at w j) # bs) @ board_bytes w rs @ rest"
    by (simp add: val_def board_bytes_def r)
  have rd: "rd val (length pre) = Some (uart_cmd (attr_at w j))" "rd_n val (length pre + 1) (length bs) = Some bs"
    by (simp_all add: val rd_def rd_n_def nth_append)
  obtain w1 where w1: "report_command env val (length pre) j (JObj kvs, w) = Some (length bs, JObj (kvs @ report_entry w (j, bs)), w1)"
      "report_rel w w1" "attrs (g_cloud_dev w1) = store_report w (j, bs) (attrs (g_cloud_dev w))"
    using number_command [OF Cons.prems(1) j(1), of val "length pre" bs env kvs] rd(2) j(2) by auto
  have step: "report_byte env val (length pre) (JObj kvs, w) = Some (length bs, JObj (kvs @ report_entry w (j, bs)), w1)"
    using rd(1) attr_of_cmd_hit [OF Cons.prems(2) j(1)] w1(1) by (simp add: report_byte_def)
  have ok: "number_table w1" "distinct_cmds w1" "\<forall>r \<in> set rs. report_ok w1 r"
    using Cons.prems number_table_rel [OF w1(2)] distinct_cmds_rel [OF w1(2)] report_ok_rel [OF w1(2)] by auto
  have lt: "\<forall>r \<in> set rs. fst r < attr_len w" using Cons.prems(3) by (simp add: report_ok_def)
  have same: "board_bytes w1 rs = board_bytes w rs" "map (report_entry w1) rs = map (report_entry w) rs"
    using board_bytes_rel [OF w1(2) lt] report_entry_rel [OF w1(2)] lt by auto
  obtain w2 where w2: "report_loop env ((pre @ uart_cmd (attr_at w j) # bs) @ board_bytes w1 rs @ rest)
        (length (pre @ uart_cmd (attr_at w j) # bs) + length (board_bytes w1 rs)) (length (pre @ uart_cmd (attr_at w j) # bs))
        (JObj (kvs @ report_entry w (j, bs)), w1) =
      Some (JObj ((kvs @ report_entry w (j, bs)) @ concat (map (report_entry w1) rs)), w2)" "report_rel w1 w2"
      "attrs (g_cloud_dev w2) = fold (store_report w1) rs (attrs (g_cloud_dev w1))"
    using Cons.IH [OF ok] by blast
  have "length pre + length (board_bytes w (r # rs)) = length (pre @ uart_cmd (attr_at w j) # bs) + length (board_bytes w rs)"
    by (simp add: board_bytes_def r)
  then have "report_loop env val (length pre + length (board_bytes w (r # rs))) (length pre) (JObj kvs, w) =
      Some (JObj (kvs @ concat (map (report_entry w) (r # rs))), w2)"
    using step w2(1) same by (subst report_loop.simps) (simp add: val r add.assoc)
  moreover have "store_report w1 = store_report w" by (simp add: fun_eq_iff store_report_def)
  ultimately show ?case
    using report_rel_trans [OF w1(2) w2(2)] w1(3) w2(3) by (auto simp: val_def r)
qed

section \<open>Properties\<close>


definition sample_dev :: cloud_dev where
  "sample_dev = cloud_dev_zero\<lparr>attrs := [
     \<lparr>cloud_key = ''HoodSpeed'', cloud_value_type = LINK_VALUE_TYPE_NUM, cloud_fun_type = LINK_FUN_TYPE_ATTR_REPORT_CTRL,
       uart_cmd = 0x31, uart_byte_len = 1, attr_value = Some [0]\<rparr>,
     \<lparr>cloud_key = ''ErrorCode'', cloud_value_type = LINK_VALUE_TYPE_NUM, cloud_fun_type = LINK_FUN_TYPE_ATTR_REPORT,
       uart_cmd = 0x0a, uart_byte_len = 4, attr_value = Some [0, 0, 0, 0]\<rparr>,
     \<lparr>cloud_key = ''ErrorCodeShow'', cloud_value_type = LINK_VALUE_TYPE_NUM, cloud_fun_type = LINK_FUN_TYPE_ATTR_REPORT,
       uart_cmd = 0x0b, uart_byte_len = 1, attr_value = Some [0]\<rparr>]\<rparr>"

lemma sample_table:
  "number_table (world_zero sample_dev db)" "distinct_cmds (world_zero sample_dev db)" "attr_len (world_zero sample_dev db) = 3"
  by (simp_all add: number_table_def table_layout_def sample_dev_def world_zero_def attr_layout_def number_layout_def
      link_types distinct_cmds_def)


end
