(* ===== verification/X50_Ecb_Safe.thy ===== *)
theory X50_Ecb_Safe
  imports X50_Ecb_Parse X50_Cloud_Frame
begin

text \<open>
  The power-board link as a whole: with a profile of numbers, whatever bytes arrive and however often the
  timer runs, no handler faults, and what goes back to the board are the acknowledgements the protocol
  asks for.
\<close>

section \<open>The invariant of the link\<close>

definition queue_ok :: "uart_resend list \<Rightarrow> bool" where
  "queue_ok l \<longleftrightarrow> (\<forall>p \<in> set l. resend_seq_id p \<noteq> None \<and> resend_cb p \<and> send_len p = length (send_data p))"

text \<open>The two attributes the program reports its own errors with; the mask of errors has four bytes.\<close>

definition error_table :: "'db world \<Rightarrow> bool" where
  "error_table w \<longleftrightarrow> distinct_cmds w \<and>
     (\<exists>a \<in> set (table_layout w). case a of (_, _, _, c, n, _) \<Rightarrow> c = 0x0a \<and> n = 4) \<and>
     (\<exists>a \<in> set (table_layout w). case a of (_, _, _, c, n, _) \<Rightarrow> c = 0x0b \<and> n = 1) \<and>
     (\<forall>a \<in> set (table_layout w). case a of (k, _, _, _, n, _) \<Rightarrow> k = ''ErrorCode'' \<longrightarrow> n = 4)"

lemma error_table_rel: "report_rel w w' \<Longrightarrow> error_table w' \<longleftrightarrow> error_table w"
  using distinct_cmds_rel [of w w'] by (simp add: error_table_def report_rel_def)

lemma error_table_cong: "attrs (g_cloud_dev w') = attrs (g_cloud_dev w) \<Longrightarrow> error_table w' \<longleftrightarrow> error_table w"
  by (simp add: error_table_def distinct_cmds_def table_layout_def)

text \<open>A receive buffer has its size, and the fill level is inside.\<close>

definition rx_ok :: "nat \<Rightarrow> bytes \<times> nat \<Rightarrow> bool" where
  "rx_ok n rx \<longleftrightarrow> length (fst rx) = n \<and> snd rx \<le> n"

definition link_ok :: "'db world \<Rightarrow> bool" where
  "link_ok w \<longleftrightarrow> number_table w \<and> error_table w \<and> queue_ok (ecb_list_resend (ecb w)) \<and>
     rx_ok 512 (ecb_read_buf (ecb w)) \<and> rx_ok 256 (gesture_read_buf (gesture w))"

lemma queue_ok_simps [simp]:
  "queue_ok []" "queue_ok (p # l) \<longleftrightarrow> resend_seq_id p \<noteq> None \<and> resend_cb p \<and> send_len p = length (send_data p) \<and> queue_ok l"
  "queue_ok (l @ l') \<longleftrightarrow> queue_ok l \<and> queue_ok l'"
  by (auto simp: queue_ok_def)

lemma queue_ok_filter: "queue_ok l \<Longrightarrow> queue_ok (filter P l)"
  by (simp add: queue_ok_def)

lemma rearm_fields [simp]:
  "resend_seq_id (rearm t p) = resend_seq_id p" "send_data (rearm t p) = send_data p" "send_len (rearm t p) = send_len p"
  by (simp_all add: rearm_def)

lemma queue_ok_rearm: "queue_ok (map (rearm t) l) \<longleftrightarrow> queue_ok l"
  by (simp add: queue_ok_def resend_cb_rearm)

lemma number_table_updates [simp]:
  "number_table (emit e w) \<longleftrightarrow> number_table w" "number_table (w\<lparr>ecb := x\<rparr>) \<longleftrightarrow> number_table w"
  "error_table (emit e w) \<longleftrightarrow> error_table w" "error_table (w\<lparr>ecb := x\<rparr>) \<longleftrightarrow> error_table w"
  by (simp_all add: number_table_def error_table_def distinct_cmds_def table_layout_def)

lemma link_ok_cong:
  "attrs (g_cloud_dev w') = attrs (g_cloud_dev w) \<Longrightarrow> ecb_list_resend (ecb w') = ecb_list_resend (ecb w) \<Longrightarrow>
    ecb_read_buf (ecb w') = ecb_read_buf (ecb w) \<Longrightarrow> gesture_read_buf (gesture w') = gesture_read_buf (gesture w) \<Longrightarrow>
    link_ok w' \<longleftrightarrow> link_ok w"
  by (simp add: link_ok_def number_table_def error_table_def distinct_cmds_def table_layout_def)

lemma link_ok_report: "report_rel w w' \<Longrightarrow> link_ok w' \<longleftrightarrow> link_ok w"
  using number_table_rel [of w w'] error_table_rel [of w w'] by (simp add: link_ok_def report_rel_def)

lemma link_ok_updates [simp]:
  "link_ok (emit e w) \<longleftrightarrow> link_ok w" "link_ok (send_event_uds j t w) \<longleftrightarrow> link_ok w"
  "link_ok (w\<lparr>linkkit := l\<rparr>) \<longleftrightarrow> link_ok w"
  "link_ok (w\<lparr>uds := u\<rparr>) \<longleftrightarrow> link_ok w" "link_ok (w\<lparr>gesture_registered := b\<rparr>) \<longleftrightarrow> link_ok w"
  by (rule link_ok_cong; simp)+

lemma link_ok_ecb [simp]:
  "ecb_list_resend x = ecb_list_resend (ecb w) \<Longrightarrow> ecb_read_buf x = ecb_read_buf (ecb w) \<Longrightarrow>
    link_ok (w\<lparr>ecb := x\<rparr>) \<longleftrightarrow> link_ok w"
  by (rule link_ok_cong) simp_all

lemma link_ok_gesture [simp]:
  "gesture_read_buf g = gesture_read_buf (gesture w) \<Longrightarrow> link_ok (w\<lparr>gesture := g\<rparr>) \<longleftrightarrow> link_ok w"
  by (rule link_ok_cong) simp_all

section \<open>Sending\<close>

lemma ecb_send_total:
  assumes "link_ok w" and "4 \<le> length d" and "n = int (length d)"
  shows "\<exists>r w'. ecb_uart_send env (Some d) n resend cp w = Some (r, w') \<and> link_ok w'"
  using assms by (auto simp: ecb_uart_send_def rd_n_def Let_def resend_list_add_def link_ok_def)

lemma ecb_send_msg_total:
  assumes "link_ok w" and "case msg of None \<Rightarrow> n = 0 | Some m \<Rightarrow> n \<le> length m"
  shows "\<exists>r w'. ecb_uart_send_msg env command msg n resend seq w = Some (r, w') \<and> link_ok w'"
proof -
  obtain p where p: "(case msg of None \<Rightarrow> (if n = 0 then Some [] else None) | Some m \<Rightarrow> rd_n m 0 n) = Some p" "length p = n"
    using assms(2) by (cases msg) (auto simp: rd_n_def)
  have "\<exists>r w'. ecb_uart_send env (Some (ecb_frame s command p)) (int (ECB_MSG_MIN_LEN + n)) resend False v = Some (r, w') \<and> link_ok w'"
    if "link_ok v" for s v
    by (rule ecb_send_total [OF that]) (simp_all add: p(2) ECB_MSG_MIN_LEN_def)
  with p(1) assms(1) show ?thesis by (simp add: ecb_uart_send_msg_def)
qed

lemma ecb_ack_total: "link_ok w \<Longrightarrow> \<exists>r w'. ecb_uart_send_ack env seq w = Some (r, w') \<and> link_ok w'"
  unfolding ecb_uart_send_ack_def by (rule ecb_send_msg_total) simp_all

lemma ecb_nak_total: "link_ok w \<Longrightarrow> \<exists>r w'. ecb_uart_send_nak env c seq w = Some (r, w') \<and> link_ok w'"
  unfolding ecb_uart_send_nak_def by (rule ecb_send_msg_total) simp_all

lemma ecb_factory_total: "link_ok w \<Longrightarrow> \<exists>r w'. ecb_uart_send_factory env ret w = Some (r, w') \<and> link_ok w'"
  unfolding ecb_uart_send_factory_def by (rule ecb_send_msg_total) simp_all

lemma ecb_get_total: "link_ok w \<Longrightarrow> \<exists>r w'. ecb_uart_msg_get env b w = Some (r, w') \<and> link_ok w'"
  by (auto simp: ecb_uart_msg_get_def Let_def intro: ecb_send_msg_total)

lemma del_by_id_total:
  assumes "queue_ok l"
  shows "\<exists>r l'. resend_list_del_by_id l i = Some (r, l') \<and> queue_ok l'"
proof -
  have "resend_list_get_by_id l i \<noteq> None" using assms by (intro get_by_id_total) (auto simp: queue_ok_def)
  moreover have "queue_ok (resend_list_del l k)" for k
    using assms by (auto simp: queue_ok_def resend_list_del_def dest: in_set_takeD in_set_dropD)
  ultimately show ?thesis using assms by (auto simp: resend_list_del_by_id_def split: option.splits)
qed

lemma ecb_del_total: "link_ok w \<Longrightarrow> \<exists>w'. ecb_resend_list_del_by_id i w = Some w' \<and> link_ok w'"
  using del_by_id_total [of "ecb_list_resend (ecb w)" i]
  by (auto simp: ecb_resend_list_del_by_id_def link_ok_def)

section \<open>Reactions\<close>

lemma unbind_frame [simp]:
  "ecb (snd (linkkit_unbind env w)) = ecb w" "gesture (snd (linkkit_unbind env w)) = gesture w" "g_cloud_dev (snd (linkkit_unbind env w)) = g_cloud_dev w"
  by (simp_all add: linkkit_unbind_def linkkit_dev_reset_def set_kv_rst_def Let_def split: prod.splits)

lemma keypress_total:
  assumes "link_ok w"
  shows "\<exists>w'. keypress_local_pro env val w = Some w' \<and> link_ok w'"
proof -
  obtain res v where v: "linkkit_unbind env w = (res, v)" by (cases "linkkit_unbind env w")
  then have "link_ok v" using assms link_ok_cong [of v w] unbind_frame [of env w] by simp
  moreover from this have "link_ok (emit (Sleep 1) v)" by simp
  ultimately show ?thesis
    using assms v ecb_factory_total [of v env FT_RET_ERR_RESET] ecb_factory_total [of "emit (Sleep 1) v" env FT_RET_OK_RESET]
    by (auto simp: keypress_local_pro_def)
qed

lemma keypress_loop_total:
  assumes "link_ok w" and "n < length payload"
  shows "\<exists>w'. keypress_loop env payload n i w = Some w' \<and> link_ok w'"
  using assms(1)
proof (induction "n - i" arbitrary: i w rule: less_induct)
  case less
  show ?case
  proof (cases "i < n")
    case True
    then have rd: "rd payload i = Some (payload ! i)" "rd payload (i + 1) = Some (payload ! (i + 1))"
      using assms(2) by (simp_all add: rd_def)
    obtain v where v: "keypress_local_pro env (payload ! (i + 1)) w = Some v" "link_ok v"
      using keypress_total [OF less.prems] by blast
    have "n - (i + 2) < n - i" "n - (i + 1) < n - i" using True by simp_all
    then have "\<exists>w'. keypress_loop env payload n (i + 2) v = Some w' \<and> link_ok w'"
      "\<exists>w'. keypress_loop env payload n (i + 1) w = Some w' \<and> link_ok w'"
      using less v(2) by blast+
    with True rd v(1) show ?thesis by (subst (1) keypress_loop.simps) (simp del: add_2_eq_Suc')
  qed (use less.prems in \<open>subst keypress_loop.simps, simp\<close>)
qed

lemma ecb_data_total:
  assumes "link_ok w" and "n + 4 \<le> length payload"
  shows "\<exists>w'. send_data_to_cloud env (Some payload) n w = Some w' \<and> link_ok w'"
  using number_send_total [of w n payload env] link_ok_report assms by (auto simp: link_ok_def)

lemma ecb_react_total:
  assumes "ecb_event_ok ev" and "link_ok w"
  shows "\<exists>w'. ecb_react env ev w = Some w' \<and> link_ok w'"
proof (cases ev)
  case (Ecb_Msg seq command payload n crc)
  then have n: "n + 4 \<le> length payload" "n < length payload" using assms(1) by (simp_all add: ecb_event_ok_def)
  let ?heart = "w\<lparr>ecb := (ecb w)\<lparr>ecb_heart_count := 0\<rparr>\<rparr>" and ?get = "w\<lparr>ecb := (ecb w)\<lparr>msg_get_timeout_count := 0\<rparr>\<rparr>"
  have ok: "link_ok ?heart" "link_ok ?get" using assms(2) by simp_all
  obtain r v where v: "ecb_uart_send_ack env (uint seq) w = Some (r, v)" "link_ok v"
    using ecb_ack_total [OF assms(2)] by blast
  obtain v1 where v1: "send_data_to_cloud env (Some payload) n v = Some v1" "link_ok v1"
    using ecb_data_total [OF v(2) n(1)] by blast
  obtain v2 where v2: "keypress_loop env payload n 0 v = Some v2" "link_ok v2"
    using keypress_loop_total [OF v(2) n(2)] by blast
  obtain r3 v3 where v3: "ecb_uart_send_ack env (uint seq) ?heart = Some (r3, v3)" "link_ok v3"
    using ecb_ack_total [OF ok(1)] by blast
  obtain v4 where v4: "send_data_to_cloud env (Some payload) n ?get = Some v4" "link_ok v4"
    using ecb_data_total [OF ok(2) n(1)] by blast
  obtain v5 where v5: "ecb_resend_list_del_by_id (uint seq) w = Some v5" "link_ok v5"
    using ecb_del_total [OF assms(2)] by blast
  obtain r6 v6 where v6: "ecb_uart_send_nak env ECB_NAK_COMMAND_UNKNOWN (uint seq) w = Some (r6, v6)" "link_ok v6"
    using ecb_nak_total [OF assms(2)] by blast
  show ?thesis
    using v v1 v2 v3 v4 v5 v6 by (simp add: ecb_react_def ecb_command_def Ecb_Msg split: if_split)
next
  case (Ecb_Bad_Tail seq)
  obtain r v where "ecb_uart_send_nak env ECB_NAK_TAILER (uint seq) w = Some (r, v)" "link_ok v"
    using ecb_nak_total [OF assms(2)] by blast
  with Ecb_Bad_Tail show ?thesis by (simp add: ecb_react_def)
qed (use assms(2) in \<open>simp add: ecb_react_def\<close>)

lemma ecb_parse_with: "ecb_uart_parse_msg env = parse_with ecb_scan (ecb_react env)"
  by (simp add: fun_eq_iff ecb_uart_parse_msg_def parse_with_def)

interpretation ecb_link: total_frame_stream "ecb_uart_parse_msg env" link_ok for env
  unfolding ecb_parse_with by (rule ecb_scanner.reacting) (rule ecb_react_total)

section \<open>The timer\<close>

lemma resend_cb_total:
  assumes "send_len p = length (send_data p)" and "resend_cb p"
  shows "\<exists>v. ecb_uart_resend_cb env (send_data p) (send_len p) w = Some v \<and> ecb v = ecb w \<and> gesture v = gesture w \<and> g_cloud_dev v = g_cloud_dev w"
  using assms by (auto simp: ecb_uart_resend_cb_def ecb_uart_send_def rd_n_def Let_def)

lemma resend_each_total:
  fixes w :: "'db world"
  assumes "link_ok w"
  shows "\<exists>w'. ecb_resend_each env w = Some w' \<and> link_ok w'"
proof -
  let ?l = "ecb_list_resend (ecb w)" and ?t = "get_systime_ms (env_timeofday env)"
  have q: "\<forall>p \<in> set ?l. resend_cb p \<and> send_len p = length (send_data p)" using assms by (simp add: link_ok_def queue_ok_def)
  have "\<exists>v. foldM (\<lambda>p. ecb_uart_resend_cb env (send_data p) (send_len p)) (filter (due ?t) ?l) w = Some v \<and>
      (ecb v = ecb w \<and> gesture v = gesture w \<and> g_cloud_dev v = g_cloud_dev w)"
  proof (rule foldM_total)
    fix p and v :: "'db world"
    assume p: "p \<in> set (filter (due ?t) ?l)" and v: "ecb v = ecb w \<and> gesture v = gesture w \<and> g_cloud_dev v = g_cloud_dev w"
    then have "send_len p = length (send_data p)" "resend_cb p" using q by auto
    from resend_cb_total [OF this, of env v] v
    show "\<exists>v'. ecb_uart_resend_cb env (send_data p) (send_len p) v = Some v' \<and> (ecb v' = ecb w \<and> gesture v' = gesture w \<and> g_cloud_dev v' = g_cloud_dev w)"
      by auto
  qed simp
  then obtain v where v: "foldM (\<lambda>p. ecb_uart_resend_cb env (send_data p) (send_len p)) (filter (due ?t) ?l) w = Some v"
    "ecb v = ecb w" "gesture v = gesture w" "g_cloud_dev v = g_cloud_dev w" by blast
  have "resend_list_each ?t (ecb_uart_resend_cb env) ?l w = Some (filter (\<lambda>p. resend_cnt p \<noteq> 0) (map (rearm ?t) ?l), v)"
    using q v(1) by (subst resend_list_each_spec) simp_all
  then have "ecb_resend_each env w = Some (v\<lparr>ecb := (ecb w)\<lparr>ecb_list_resend := filter (\<lambda>p. resend_cnt p \<noteq> 0) (map (rearm ?t) ?l)\<rparr>\<rparr>)"
    by (simp add: ecb_resend_each_def v(2))
  moreover have "queue_ok (filter (\<lambda>p. resend_cnt p \<noteq> 0) (map (rearm ?t) ?l))"
    using assms by (intro queue_ok_filter) (simp add: queue_ok_rearm link_ok_def)
  moreover have "number_table v" "error_table v"
    using assms v(4) by (simp_all add: link_ok_def number_table_def error_table_def distinct_cmds_def table_layout_def)
  ultimately show ?thesis using assms v(3) by (simp add: link_ok_def)
qed

lemma ecb_poll_total:
  assumes "link_ok w"
  shows "\<exists>w'. ecb_poll env w = Some w' \<and> link_ok w'"
proof -
  obtain st v where v: "ecb_uart_msg_get env False w = Some (st, v)" "link_ok v" using ecb_get_total [OF assms] by blast
  define u where "u = (if ecb_msg_get_timeout (ecb v) = MSG_GET_SHORT_TIME \<and> ECB_UART_CONNECTED = st
        then set_get_timeout MSG_GET_LONG_TIME v
        else if ecb_msg_get_timeout (ecb v) = MSG_GET_LONG_TIME \<and> ECB_UART_DISCONNECT = st
        then set_get_timeout MSG_GET_SHORT_TIME v else v)"
  define u1 where "u1 = set_get_count (ecb_msg_get_count (ecb u) + 1) u"
  have "link_ok u" using v(2) by (simp add: u_def)
  then have "link_ok u1" "link_ok (set_get_count 0 u1)" by (simp_all add: u1_def)
  moreover from this obtain r v2 where "ecb_uart_msg_get env True (set_get_count 0 u1) = Some (r, v2)" "link_ok v2"
    using ecb_get_total by blast
  ultimately show ?thesis by (simp add: ecb_poll_def v(1) Let_def flip: u_def u1_def)
qed

lemma error_attrs:
  assumes "error_table w"
  obtains j k where "j < attr_len w" "uart_cmd (attr_at w j) = 0x0a" "uart_byte_len (attr_at w j) = 4"
    "k < attr_len w" "uart_cmd (attr_at w k) = 0x0b" "uart_byte_len (attr_at w k) = 1"
  using assms by (auto simp: error_table_def table_layout_def attr_layout_def in_set_conv_nth)

text \<open>The error report is a report of these two attributes.\<close>

definition error_bytes :: "int \<Rightarrow> bytes" where
  "error_bytes e = take 4 (drop 1 (error_payload e))"

lemma error_payload_split: "error_payload e = 0x0a # error_bytes e @ [0x0b, byte_of_int e, 0]" "length (error_bytes e) = 4"
  by (simp_all add: error_bytes_def error_payload_def Let_def)

lemma error_report_total:
  assumes "number_table w" and "error_table w" and "length bs = 4"
  shows "\<exists>w'. send_data_to_cloud env (Some (0x0a # bs @ pad)) 5 w = Some w' \<and> report_rel w w'"
    and "\<exists>w'. send_data_to_cloud env (Some (0x0a # bs @ 0x0b # b # pad)) 7 w = Some w' \<and> report_rel w w'"
proof -
  obtain j k where jk: "j < attr_len w" "uart_cmd (attr_at w j) = 0x0a" "uart_byte_len (attr_at w j) = 4"
    "k < attr_len w" "uart_cmd (attr_at w k) = 0x0b" "uart_byte_len (attr_at w k) = 1" by (rule error_attrs [OF assms(2)])
  have dc: "distinct_cmds w" using assms(2) by (simp add: error_table_def)
  have ok: "\<forall>r \<in> set [(j, bs), (k, [b])]. report_ok w r" using jk assms(3) by (simp add: report_ok_def)
  have bb: "board_bytes w [(j, bs)] @ pad = 0x0a # bs @ pad" "length (board_bytes w [(j, bs)]) = 5"
    "board_bytes w [(j, bs), (k, [b])] @ pad = 0x0a # bs @ 0x0b # b # pad" "length (board_bytes w [(j, bs), (k, [b])]) = 7"
    using jk assms(3) by (simp_all add: board_bytes_def)
  from number_stream [OF assms(1) dc, of "[(j, bs)]" env "[]" pad "[]"] ok
  obtain w1 where "report_loop env (0x0a # bs @ pad) 5 0 (JObj [], w) = Some (JObj (concat (map (report_entry w) [(j, bs)])), w1)"
    "report_rel w w1" by (auto simp: bb simp flip: append_assoc)
  then show "\<exists>w'. send_data_to_cloud env (Some (0x0a # bs @ pad)) 5 w = Some w' \<and> report_rel w w'"
    by (simp add: send_data_to_cloud_def cJSON_CreateObject_def)
  from number_stream [OF assms(1) dc ok, of env "[]" pad "[]"]
  obtain w2 where "report_loop env (0x0a # bs @ 0x0b # b # pad) 7 0 (JObj [], w) =
      Some (JObj (concat (map (report_entry w) [(j, bs), (k, [b])])), w2)"
    "report_rel w w2" by (auto simp: bb simp flip: append_assoc)
  then show "\<exists>w'. send_data_to_cloud env (Some (0x0a # bs @ 0x0b # b # pad)) 7 w = Some w' \<and> report_rel w w'"
    by (simp add: send_data_to_cloud_def cJSON_CreateObject_def)
qed

lemma send_error_total:
  assumes "number_table w" and "error_table w"
  shows "\<exists>w'. send_error_to_cloud env e w = Some w' \<and> report_rel w w'"
  using error_report_total(2) [OF assms error_payload_split(2), of env e "byte_of_int e" "[0]"]
  by (simp add: send_error_to_cloud_def error_payload_split(1))

lemma ecb_heart_total:
  assumes "link_ok w"
  shows "\<exists>w'. ecb_heart env w = Some w' \<and> link_ok w'"
proof -
  let ?w = "w\<lparr>ecb := (ecb w)\<lparr>ecb_heart_count := ecb_heart_count (ecb w) + 1\<rparr>\<rparr>"
  have w: "link_ok ?w" using assms by simp
  obtain v where v: "send_error_to_cloud env POWER_BOARD_ERROR_CODE ?w = Some v" "report_rel ?w v"
    using send_error_total [of ?w env POWER_BOARD_ERROR_CODE] w by (auto simp: link_ok_def)
  then have "link_ok v" using link_ok_report [OF v(2)] w by simp
  with v(1) show ?thesis using assms w by (auto simp: ecb_heart_def ecb_uart_heart_timeout_def Let_def)
qed

lemma ecb_timeout_total:
  assumes "link_ok w"
  shows "\<exists>w'. ecb_timeout_cb env w = Some w' \<and> link_ok w'"
proof -
  obtain v where v: "ecb_resend_each env w = Some v" "link_ok v" using resend_each_total [OF assms] by blast
  obtain u where u: "ecb_poll env v = Some u" "link_ok u" using ecb_poll_total [OF v(2)] by blast
  obtain x where "ecb_heart env u = Some x" "link_ok x" using ecb_heart_total [OF u(2)] by blast
  with v(1) u(1) show ?thesis by (simp add: ecb_timeout_cb_def)
qed

lemma ecb_recv_total:
  assumes "link_ok w"
  shows "\<exists>rest w'. ecb_recv_cb env e avail w = Some (rest, w') \<and> link_ok w'"
proof -
  obtain buf i where rx: "ecb_read_buf (ecb w) = (buf, i)" by (cases "ecb_read_buf (ecb w)")
  then have len: "length buf = 512" "i \<le> 512" using assms by (simp_all add: link_ok_def rx_ok_def)
  obtain rest buf' i' w' where "uart_recv_cb (ecb_uart_parse_msg env) e avail (buf, i) w = Some (rest, (buf', i'), w')"
    "length buf' = 512" "i' \<le> 512" "link_ok w'"
    using ecb_link.recv_total [OF assms, of i buf env e avail] len by auto
  then show ?thesis by (simp add: ecb_recv_cb_def rx) (simp add: link_ok_def rx_ok_def)
qed

text \<open>The events of the link: bytes that the port can deliver, and the timer.\<close>

datatype link_event = Ecb_Readable int bytes | Ecb_Tick

fun link_step :: "'db env \<Rightarrow> link_event \<Rightarrow> 'db world \<Rightarrow> 'db world option" where
  "link_step env (Ecb_Readable e avail) w = map_option snd (ecb_recv_cb env e avail w)"
| "link_step env Ecb_Tick w = ecb_timeout_cb env w"

lemma link_step_total: "link_ok w \<Longrightarrow> \<exists>w'. link_step env ev w = Some w' \<and> link_ok w'"
  using ecb_recv_total [of w env] ecb_timeout_total [of w env] by (cases ev) fastforce+

section \<open>Properties\<close>


lemma sample_link: "link_ok (world_zero sample_dev db)"
  using sample_table [of db] by (simp add: link_ok_def error_table_def table_layout_def rx_ok_def)
    (simp add: world_zero_def sample_dev_def attr_layout_def)


section \<open>Answers\<close>

definition ecb_reply :: "16 word \<Rightarrow> byte \<Rightarrow> effect list" where
  "ecb_reply s c =
     (if c = ECB_UART_COMMAND_EVENT \<or> c = ECB_UART_COMMAND_HEART then [Ecb_Write (ecb_frame s ECB_UART_COMMAND_ACK [])]
      else if c = ECB_UART_COMMAND_GETACK \<or> c = ECB_UART_COMMAND_ACK \<or> c = ECB_UART_COMMAND_NAK then []
      else [Ecb_Write (ecb_frame s ECB_UART_COMMAND_NAK [ECB_NAK_COMMAND_UNKNOWN])])"

lemma ack_eq:
  assumes "0 < ecb_fd (ecb w)"
  shows "ecb_uart_send_ack env (uint s) w = Some (env_ecb_write env (ecb_frame s ECB_UART_COMMAND_ACK []),
    emit (Ecb_Write (ecb_frame s ECB_UART_COMMAND_ACK [])) w)"
  using send_msg_seq(2) [OF assms, of "uint s" env ECB_UART_COMMAND_ACK] by (simp add: ecb_uart_send_ack_def)

lemma nak_eq:
  assumes "0 < ecb_fd (ecb w)"
  shows "ecb_uart_send_nak env r (uint s) w = Some (env_ecb_write env (ecb_frame s ECB_UART_COMMAND_NAK [r]),
    emit (Ecb_Write (ecb_frame s ECB_UART_COMMAND_NAK [r])) w)"
  using send_msg_seq(1) [OF assms, of "uint s" env ECB_UART_COMMAND_NAK "[r]"] by (simp add: ecb_uart_send_nak_def)

lemma ecb_data_reply:
  assumes "number_table w" and "n + 4 \<le> length payload" and "send_data_to_cloud env (Some payload) n w = Some w'"
  shows "ecb w' = ecb w \<and> board_writes w' = board_writes w"
  using number_send_total [OF assms(1,2), of env] assms(3) by (auto simp: report_rel_def)

lemma ecb_command_reply:
  assumes "link_ok w" and "0 < ecb_fd (ecb w)" and "n + 4 \<le> length payload" and "c \<noteq> ECB_UART_COMMAND_KEYPRESS"
    and "ecb_command env s c payload n w = Some w'"
  shows "ecb_fd (ecb w') = ecb_fd (ecb w) \<and> board_writes w' = board_writes w @ ecb_reply s c"
proof -
  have t: "number_table w" using assms(1) by (simp add: link_ok_def)
  consider "c = ECB_UART_COMMAND_EVENT" | "c = ECB_UART_COMMAND_HEART" | "c = ECB_UART_COMMAND_GETACK"
    | "c = ECB_UART_COMMAND_ACK \<or> c = ECB_UART_COMMAND_NAK"
    | "c \<notin> {ECB_UART_COMMAND_EVENT, ECB_UART_COMMAND_KEYPRESS, ECB_UART_COMMAND_HEART, ECB_UART_COMMAND_GETACK,
        ECB_UART_COMMAND_ACK, ECB_UART_COMMAND_NAK}" using assms(4) by auto
  then show ?thesis
  proof cases
    case 1
    let ?w = "emit (Ecb_Write (ecb_frame s ECB_UART_COMMAND_ACK [])) w"
    have "send_data_to_cloud env (Some payload) n ?w = Some w'"
      using assms(5) by (simp add: ecb_command_def 1 ack_eq [OF assms(2)])
    from ecb_data_reply [OF _ assms(3) this] t show ?thesis by (simp add: ecb_reply_def 1)
  next
    case 2
    let ?w = "w\<lparr>ecb := (ecb w)\<lparr>ecb_heart_count := 0\<rparr>\<rparr>"
    have "0 < ecb_fd (ecb ?w)" using assms(2) by simp
    from ack_eq [OF this] assms(5) show ?thesis by (auto simp: ecb_command_def 2 ecb_commands ecb_reply_def)
  next
    case 3
    let ?w = "w\<lparr>ecb := (ecb w)\<lparr>msg_get_timeout_count := 0\<rparr>\<rparr>"
    have "send_data_to_cloud env (Some payload) n ?w = Some w'" using assms(5) by (simp add: ecb_command_def 3 ecb_commands)
    from ecb_data_reply [OF _ assms(3) this] t show ?thesis by (simp add: ecb_reply_def 3 ecb_commands)
  next
    case 4
    then have "ecb_resend_list_del_by_id (uint s) w = Some w'" using assms(5) by (auto simp: ecb_command_def ecb_commands)
    with 4 show ?thesis by (auto simp: ecb_resend_list_del_by_id_def option_bind_Some_iff ecb_reply_def ecb_commands)
  next
    case 5
    with assms(5) show ?thesis by (auto simp: ecb_command_def nak_eq [OF assms(2)] ecb_reply_def)
  qed
qed

lemma ecb_events_reply:
  assumes "list_all clean_event evs" and "\<forall>(s, c, m) \<in> set (delivered evs). c \<noteq> ECB_UART_COMMAND_KEYPRESS"
    and "link_ok w" and "0 < ecb_fd (ecb w)"
  shows "\<exists>w'. foldM (ecb_react env) evs w = Some w' \<and> link_ok w' \<and>
    board_writes w' = board_writes w @ concat (map (\<lambda>(s, c, m). ecb_reply s c) (delivered evs))"
  using assms
proof (induction evs arbitrary: w)
  case (Cons ev evs)
  have ok: "ecb_event_ok ev" using Cons.prems(1) by (cases ev) (simp_all add: ecb_event_ok_def)
  obtain v where v: "ecb_react env ev w = Some v" "link_ok v" using ecb_react_total [OF ok Cons.prems(3)] by blast
  show ?case
  proof (cases ev)
    case Ecb_None
    then have "v = w" using v(1) by (simp add: ecb_react_def)
    with Ecb_None Cons.IH [of v] Cons.prems v show ?thesis by simp
  next
    case (Ecb_Msg s c p n crc)
    then have crc: crc and n: "n + 4 \<le> length p" using Cons.prems(1) by simp_all
    have c: "c \<noteq> ECB_UART_COMMAND_KEYPRESS" using Cons.prems(2) Ecb_Msg crc by simp
    have "ecb_command env s c p n w = Some v" using v(1) Ecb_Msg by (simp add: ecb_react_def)
    note r = ecb_command_reply [OF Cons.prems(3,4) n c this]
    obtain w' where "foldM (ecb_react env) evs v = Some w' \<and> link_ok w' \<and>
      board_writes w' = board_writes v @ concat (map (\<lambda>(s, c, m). ecb_reply s c) (delivered evs))"
      using Cons.IH [of v] Cons.prems v r Ecb_Msg crc by auto
    with v(1) r Ecb_Msg crc show ?thesis by simp
  qed (use Cons.prems(1) in simp)
qed simp



section \<open>Missed heart beats and the errors of the program\<close>

lemma bind_foldM_Nil [simp]: "Option.bind m (foldM f []) = m"
  by (cases m) simp_all

lemma heart_below:
  assumes "ecb_heart_count (ecb w) + 1 < 75"
  shows "ecb_heart env w = Some (w\<lparr>ecb := (ecb w)\<lparr>ecb_heart_count := ecb_heart_count (ecb w) + 1\<rparr>\<rparr>)"
  using assms by (simp add: ecb_heart_def ecb_uart_heart_timeout_def Let_def MSG_HEART_TIME_def)

lemma heart_at:
  assumes "ecb_heart_count (ecb w) = 74"
  shows "ecb_heart env w = send_error_to_cloud env POWER_BOARD_ERROR_CODE (w\<lparr>ecb := (ecb w)\<lparr>ecb_heart_count := 75\<rparr>\<rparr>)"
  using assms by (simp add: ecb_heart_def ecb_uart_heart_timeout_def Let_def MSG_HEART_TIME_def)

lemma heart_after: "75 \<le> ecb_heart_count (ecb w) \<Longrightarrow> ecb_heart env w = Some w"
  by (simp add: ecb_heart_def ecb_uart_heart_timeout_def Let_def MSG_HEART_TIME_def)

lemma heart_quiet:
  assumes "ecb_heart_count (ecb w) = 0" and "n < 75"
  shows "foldM (\<lambda>_. ecb_heart env) [0..<n] w = Some (w\<lparr>ecb := (ecb w)\<lparr>ecb_heart_count := int n\<rparr>\<rparr>)"
  using assms(2)
proof (induction n)
  case 0
  show ?case using assms(1) by simp
next
  case (Suc n)
  then show ?case by (simp add: foldM_append heart_below add.commute)
qed



text \<open>C35: The mask of an error: bit \<open>e - 1\<close> is what the cloud is told for the first six errors and from the
  17th on. The byte in between is taken six instead of eight bits up: errors 7 to 14 come out as other
  numbers, 15 and 16 as none. The error of the power board, the only one this function is called with, is
  reported as that of the communication board.\<close>

theorem error_mask_reported:
  "(\<forall>e \<in> {1..32}. cloud_val (error_bytes e) =
     (if e \<le> 6 \<or> 17 \<le> e then i32 (2 ^ nat (e - 1)) else if e \<le> 8 then 5 * 2 ^ nat (e - 1)
      else if e \<le> 14 then 2 ^ nat (e + 1) else 0)) \<and>
   cloud_val (error_bytes POWER_BOARD_ERROR_CODE) = 2 ^ nat (COMMUNICATION_BOARD_ERROR_CODE - 1)"
proof -
  have "\<forall>e \<in> set [1..32]. cloud_val (error_bytes e) =
     (if e \<le> 6 \<or> 17 \<le> e then i32 (2 ^ nat (e - 1)) else if e \<le> 8 then 5 * 2 ^ nat (e - 1)
      else if e \<le> 14 then 2 ^ nat (e + 1) else 0)"
    by (simp add: upto.simps error_bytes_def error_payload_def cloud_val_def i32_def byte_of_int_def)
  then show ?thesis
    by (simp add: POWER_BOARD_ERROR_CODE_def COMMUNICATION_BOARD_ERROR_CODE_def)
qed

lemma error_mask_reported_witness:
  "cloud_val (error_bytes 9) = 1024"
  using error_mask_reported by (auto dest: bspec [where x = 9])

end
