(* ===== verification/X50_Gesture_Safe.thy ===== *)
theory X50_Gesture_Safe
  imports X50_Gesture X50_Ecb_Safe
begin

text \<open>
  The gesture board as a whole: with a profile of numbers no frame of it makes a handler fault, and what
  a wave of the hand sends to the power board.
\<close>

section \<open>Every frame is handled\<close>

lemma gesture_auto_link [simp]:
  "link_ok (gesture_auto_sync_time_alarm env a w) \<longleftrightarrow> link_ok w"
  by (rule link_ok_cong) simp_all

lemma gesture_parts_link [simp]:
  "link_ok (gesture_complaint env d w) \<longleftrightarrow> link_ok w" "link_ok (gesture_alarm d w) \<longleftrightarrow> link_ok w"
  by (simp_all add: gesture_complaint_def gesture_alarm_def gesture_alarm_event_def Let_def)

lemma hood_speed_total:
  assumes "number_table w"
  shows "\<exists>n. get_HoodSpeed w = Some n"
proof (cases "get_attr_ptr ''HoodSpeed'' w")
  case (Some j)
  then have "j < attr_len w" by (auto simp: get_attr_ptr_def find_Some_iff)
  from number_value [OF assms this] obtain m where "attr_value (attr_at w j) = Some m" "0 < length m" by metis
  with Some show ?thesis by (simp add: get_HoodSpeed_def first_byte_def rd_def)
qed (simp add: get_HoodSpeed_def)

lemma gesture_wave_total:
  "number_table w \<Longrightarrow> \<exists>m. gesture_wave d w = Some m \<and> length m \<le> 2"
  using hood_speed_total [of w] by (auto simp: gesture_wave_def Let_def)

lemma error_code_total:
  assumes "number_table w" and "error_table w"
  shows "get_ErrorCode w \<noteq> None" and "get_ErrorCodeShow w \<noteq> None"
proof -
  show "get_ErrorCodeShow w \<noteq> None"
  proof (cases "0 < attr_len w")
    case True
    from number_value [OF assms(1) True] obtain m where "attr_value (attr_at w 0) = Some m" "0 < length m" by metis
    then show ?thesis by (simp add: get_ErrorCodeShow_def first_byte_def rd_def)
  qed (simp add: get_ErrorCodeShow_def)
  show "get_ErrorCode w \<noteq> None"
  proof (cases "0 < attr_len w \<and> cloud_key (attr_at w 0) = ''ErrorCode''")
    case True
    then have "attr_layout (attr_at w 0) \<in> set (table_layout w)" by (simp add: table_layout_def)
    with assms(2) True have "uart_byte_len (attr_at w 0) = 4" by (auto simp: error_table_def attr_layout_def)
    with number_value [OF assms(1), of 0] True obtain m where "attr_value (attr_at w 0) = Some m" "length m = 4" by auto
    then show ?thesis by (simp add: get_ErrorCode_def rd_n_def)
  qed (auto simp: get_ErrorCode_def)
qed

lemma gesture_error_total:
  assumes "link_ok w"
  shows "\<exists>w'. gesture_send_error_cloud env e clear w = Some w' \<and> report_rel w w'"
proof -
  have t: "number_table w" "error_table w" using assms by (simp_all add: link_ok_def)
  obtain code shown where c: "get_ErrorCode w = Some code" "get_ErrorCodeShow w = Some shown"
    using error_code_total [OF t] by blast
  define bs where "bs = (let code = gesture_error_mask e clear code in
    [ucast (drop_bit 24 code), ucast (drop_bit 16 code), ucast (drop_bit 6 code), ucast code] :: bytes)"
  have bs: "length bs = 4" by (simp add: bs_def Let_def)
  have p: "gesture_error_payload e clear code s = 0x0a # bs @ (if \<not> clear \<and> s = 0 then [0x0b, byte_of_int e] else [])" for s
    by (simp add: gesture_error_payload_def bs_def Let_def)
  show ?thesis
    using error_report_total(1) [OF t bs, of env "[0, 0, 0]"] error_report_total(2) [OF t bs, of env "byte_of_int e" "[0]"]
    by (auto simp: gesture_send_error_cloud_def c p bs Let_def numeral_eq_Suc)
qed

lemma gesture_failure_total:
  assumes "link_ok w"
  shows "\<exists>w'. gesture_failure env d w = Some w' \<and> link_ok w'"
proof (cases "d = 0x15")
  case True
  obtain v where v: "gesture_send_error_cloud env GESTURE_ERROR False w = Some v" "report_rel w v"
    using gesture_error_total [OF assms] by blast
  then have "link_ok v" using link_ok_report assms by blast
  with True v(1) show ?thesis by (simp add: gesture_failure_def)
next
  case False
  let ?w = "set_error_status 0 w"
  have ok: "link_ok ?w" using assms by simp
  obtain v where v: "gesture_send_error_cloud env GESTURE_ERROR True ?w = Some v" "report_rel ?w v"
    using gesture_error_total [OF ok] by blast
  then have "link_ok v" using link_ok_report ok by blast
  with False v(1) assms show ?thesis by (simp add: gesture_failure_def)
qed

lemma gesture_react_total:
  assumes "link_ok w"
  shows "\<exists>w'. gesture_react env ev w = Some w' \<and> link_ok w'"
proof (cases ev)
  case (Some d)
  obtain d1 d2 where d: "d = (d1, d2)" by (cases d)
  let ?w = "gesture_complaint env d1 w"
  have ok: "link_ok ?w" "link_ok (gesture_alarm d1 ?w)" using assms by simp_all
  then have "number_table ?w" by (simp add: link_ok_def)
  then obtain m where m: "gesture_wave d1 ?w = Some m" using gesture_wave_total by blast
  obtain v where v: "gesture_failure env d2 (gesture_alarm d1 ?w) = Some v" "link_ok v"
    using gesture_failure_total [OF ok(2)] by blast
  obtain r u where u: "ecb_uart_send_msg env ECB_UART_COMMAND_SET (Some (m @ gesture_key d2)) (length (m @ gesture_key d2)) True (-1) v
      = Some (r, u)" "link_ok u"
    using ecb_send_msg_total [OF v(2), where msg = "Some (m @ gesture_key d2)" and n = "length (m @ gesture_key d2)"] by fastforce
  show ?thesis using v u by (simp add: gesture_react_def Some d m Let_def)
qed (use assms in \<open>simp add: gesture_react_def\<close>)

lemma gesture_parse_with: "gesture_uart_parse_msg env = parse_with gesture_scan (gesture_react env)"
  by (simp add: fun_eq_iff gesture_uart_parse_msg_def parse_with_def)

interpretation gesture_link: total_frame_stream "gesture_uart_parse_msg env" link_ok for env
  unfolding gesture_parse_with by (rule gesture_scanner.reacting) (rule gesture_react_total)

lemma gesture_recv_total:
  assumes "link_ok w"
  shows "\<exists>rest w'. gesture_recv_cb env e avail w = Some (rest, w') \<and> link_ok w'"
proof -
  obtain buf i where rx: "gesture_read_buf (gesture w) = (buf, i)" by (cases "gesture_read_buf (gesture w)")
  then have len: "length buf = 256" "i \<le> 256" using assms by (simp_all add: link_ok_def rx_ok_def)
  obtain rest buf' i' w' where r: "uart_recv_cb (gesture_uart_parse_msg env) e avail (buf, i) w = Some (rest, (buf', i'), w')"
    "length buf' = 256" "i' \<le> 256" "link_ok w'"
    using gesture_link.recv_total [OF assms, of i buf env e avail] len by auto
  then have "number_table (w'\<lparr>gesture := g\<rparr>)" "error_table (w'\<lparr>gesture := g\<rparr>)" for g
    by (simp_all add: link_ok_def number_table_def error_table_def distinct_cmds_def table_layout_def)
  with r show ?thesis by (simp add: gesture_recv_cb_def rx) (simp add: link_ok_def rx_ok_def)
qed

section \<open>Waving\<close>

text \<open>The program after it has sent a setting: it is on its way to the board and in the queue.\<close>

definition after_set :: "'db env \<Rightarrow> bytes \<Rightarrow> 'db world \<Rightarrow> 'db world" where
  "after_set env m w =
     (let F = ecb_frame (ecb_seq_id (ecb w)) ECB_UART_COMMAND_SET m in
      (emit (Ecb_Write F) w)\<lparr>ecb := (ecb w)\<lparr>ecb_seq_id := ecb_seq_id (ecb w) + 1,
         ecb_list_resend := resend_entry env (ecb_seq_id (ecb w)) F # ecb_list_resend (ecb w)\<rparr>\<rparr>)"

definition plain_frame :: "byte \<Rightarrow> byte \<Rightarrow> 'db world \<Rightarrow> bool" where
  "plain_frame d1 d2 w \<longleftrightarrow> \<not> bit d1 1 \<and> \<not> bit d1 6 \<and> gesture_alarm_status (gesture w) \<noteq> 1 \<and>
     gesture_error_status (gesture w) = 0 \<and> d2 \<notin> {0x13, 0x14, 0x15}"

lemma gesture_react_plain:
  assumes "plain_frame d1 d2 w" and "0 < ecb_fd (ecb w)" and "get_HoodSpeed w = Some n"
  shows "gesture_react env (Some (d1, d2)) w = Some
    (let w = set_recv_error 0 w; speed = byte_of_int n in
     if bit d1 5 then (if speed < 3 then after_set env [0x31, speed + 1] w else w)
     else if bit d1 4 then (if speed > 0 then after_set env [0x31, speed - 1] w else w)
     else w)"
proof -
  let ?w = "set_recv_error 0 w"
  have s: "get_HoodSpeed ?w = Some n" using assms(3) by (simp add: get_HoodSpeed_def get_attr_ptr_def cong: option.case_cong)
  have "ecb_uart_send_msg env ECB_UART_COMMAND_SET (Some m) (length m) True (-1) ?w =
      Some (env_ecb_write env (ecb_frame (ecb_seq_id (ecb ?w)) ECB_UART_COMMAND_SET m), after_set env m ?w)" for m
    using send_msg_next(1) [of ?w env ECB_UART_COMMAND_SET m] assms(2) by (simp add: after_set_def Let_def)
  from this [of "[49, x]" for x] assms(1) s show ?thesis
    by (simp add: gesture_react_def gesture_complaint_def gesture_wave_def gesture_alarm_def gesture_key_def gesture_failure_def
        plain_frame_def Let_def)
qed

section \<open>Properties\<close>



text \<open>C34: Waving: a wave to the right raises the speed of the hood by one while it is below 3, a wave to the
  left lowers it by one while it is above 0, as a setting sent to the power board with the next sequence
  number and kept for retransmission; at the ends, and for a frame without a wave, nothing is sent.\<close>

theorem wave_changes_speed:
  assumes "plain_frame d1 d2 w" and "0 < ecb_fd (ecb w)"
    and "get_attr_ptr ''HoodSpeed'' w = Some j" and "attr_value (attr_at w j) = Some (speed # vs)"
  shows "gesture_react env (Some (d1, d2)) w = Some
    (if bit d1 5 \<and> speed < 3 then after_set env [0x31, speed + 1] (set_recv_error 0 w)
     else if \<not> bit d1 5 \<and> bit d1 4 \<and> speed > 0 then after_set env [0x31, speed - 1] (set_recv_error 0 w)
     else set_recv_error 0 w)"
proof -
  have "get_HoodSpeed w = Some (sint speed)" by (simp add: get_HoodSpeed_def assms(3,4) first_byte_def rd_def)
  from gesture_react_plain [OF assms(1,2) this, of env] show ?thesis by (simp add: byte_of_int_def Let_def)
qed

lemma wave_changes_speed_witness:
  "let w = (world_zero sample_dev ())\<lparr>ecb := (ecb (world_zero sample_dev ()))\<lparr>ecb_fd := 5\<rparr>\<rparr> in
   gesture_react (env_of null_engine) (Some (0x20, 0)) w = Some
    (if bit (0x20 :: byte) 5 \<and> (0 :: byte) < 3 then after_set (env_of null_engine) [0x31, 0 + 1] (set_recv_error 0 w)
     else if \<not> bit (0x20 :: byte) 5 \<and> bit (0x20 :: byte) 4 \<and> (0 :: byte) > 0
     then after_set (env_of null_engine) [0x31, 0 - 1] (set_recv_error 0 w)
     else set_recv_error 0 w)"
  unfolding Let_def
  by (rule wave_changes_speed [where j = 0 and vs = "[]"])
    (simp_all add: plain_frame_def world_zero_def get_attr_ptr_def sample_dev_def bit_numeral_word_iff)

text \<open>Without an attribute for the speed, \<open>get_HoodSpeed\<close> returns -1, which as a \<open>char\<close> of the target is
  255: a wave to the left then sets the speed 254.\<close>

theorem wave_without_speed:
  assumes "plain_frame d1 d2 w" and "0 < ecb_fd (ecb w)" and "get_attr_ptr ''HoodSpeed'' w = None"
    and "\<not> bit d1 5" and "bit d1 4"
  shows "gesture_react env (Some (d1, d2)) w = Some (after_set env [0x31, 254] (set_recv_error 0 w))"
proof -
  have "get_HoodSpeed w = Some (-1)" by (simp add: get_HoodSpeed_def assms(3))
  note r = gesture_react_plain [OF assms(1,2) this, of env]
  have "byte_of_int (-1) = 255" unfolding byte_of_int_def by transfer simp
  with r assms(4,5) show ?thesis by (simp add: Let_def)
qed

lemma wave_without_speed_witness:
  "let w = (world_zero cloud_dev_zero ())\<lparr>ecb := (ecb (world_zero cloud_dev_zero ()))\<lparr>ecb_fd := 5\<rparr>\<rparr> in
   gesture_react (env_of null_engine) (Some (0x10, 0)) w = Some (after_set (env_of null_engine) [0x31, 254] (set_recv_error 0 w))"
  unfolding Let_def
  by (rule wave_without_speed)
    (simp_all add: plain_frame_def world_zero_def get_attr_ptr_def cloud_dev_zero_def bit_numeral_word_iff)

end
