(* ===== verification/X50_Calm.thy ===== *)
theory X50_Calm
  imports X50_Gesture_Safe X50_Uds_Protocol X50_Cloud_Task
begin

text \<open>
  What every handler leaves alone, whichever component it belongs to: the tables of the UI server, the
  descriptors of the two ports, the rest state of the update, and the invariant of the links.

  \<open>calm w v\<close> says that of a state \<open>w\<close> and a later one \<open>v\<close>; it holds for every operation below the two
  select loops, when it returns. The rules are collected in \<open>calm\<close>, one per operation, from the database
  up to the handlers, so that each follows from those of the operations it calls.
\<close>

named_theorems calm \<open>operations that keep a state calm\<close>

definition buffers_ok :: "'db world \<Rightarrow> bool" where
  "buffers_ok w \<longleftrightarrow> rx_ok 512 (ecb_read_buf (ecb w)) \<and> rx_ok 256 (gesture_read_buf (gesture w))"

definition calm :: "'db world \<Rightarrow> 'db world \<Rightarrow> bool" where
  "calm w v \<longleftrightarrow> uds v = uds w \<and> ecb_fd (ecb v) = ecb_fd (ecb w) \<and> gesture_fd (gesture v) = gesture_fd (gesture w) \<and>
     (ota_resting (g_ota_state (linkkit w)) \<longrightarrow> ota_resting (g_ota_state (linkkit v))) \<and>
     (buffers_ok w \<longrightarrow> buffers_ok v) \<and> (link_ok w \<longrightarrow> link_ok v)"

lemma buffers_ok_cong:
  "ecb_read_buf (ecb v) = ecb_read_buf (ecb w) \<Longrightarrow> gesture_read_buf (gesture v) = gesture_read_buf (gesture w) \<Longrightarrow>
    buffers_ok v \<longleftrightarrow> buffers_ok w"
  by (simp add: buffers_ok_def)

lemma link_buffers: "link_ok w \<Longrightarrow> buffers_ok w"
  by (simp add: link_ok_def buffers_ok_def)

lemma calm_refl [simp]: "calm w w"
  by (simp add: calm_def)

lemma calm_trans: "calm u v \<Longrightarrow> calm v w \<Longrightarrow> calm u w"
  by (simp add: calm_def)

section \<open>Updates\<close>

text \<open>An update that keeps what \<open>calm\<close> speaks of can be left out of the later state.\<close>

lemma calm_cong:
  assumes "uds v' = uds v" and "ecb v' = ecb v" and "gesture v' = gesture v" and "attrs (g_cloud_dev v') = attrs (g_cloud_dev v)"
    and "g_ota_state (linkkit v') = g_ota_state (linkkit v)"
  shows "calm w v' \<longleftrightarrow> calm w v"
  using assms link_ok_cong [of v' v] buffers_ok_cong [of v' v] by (simp add: calm_def)

lemma calm_updates [simp]:
  "calm w (emit e v) \<longleftrightarrow> calm w v" "calm w (v\<lparr>database := d\<rparr>) \<longleftrightarrow> calm w v" "calm w (v\<lparr>history := h\<rparr>) \<longleftrightarrow> calm w v"
  "calm w (v\<lparr>uart_buf := b\<rparr>) \<longleftrightarrow> calm w v" "calm w (v\<lparr>gesture_registered := r\<rparr>) \<longleftrightarrow> calm w v"
  "calm w (set_history l v) \<longleftrightarrow> calm w v" "calm w (set_history_seqid n v) \<longleftrightarrow> calm w v" "calm w (set_remind rs v) \<longleftrightarrow> calm w v"
  "calm w (send_event_uds j t v) \<longleftrightarrow> calm w v" "calm w (linkkit_user_post_event i p v) \<longleftrightarrow> calm w v"
  "calm w (linkkit_user_post_property p v) \<longleftrightarrow> calm w v" "calm w (snd (report_msg_all_platform r' v)) \<longleftrightarrow> calm w v"
  "calm w (note_seqid r1 v) \<longleftrightarrow> calm w v" "calm w (gesture_auto_sync_time_alarm env a v) \<longleftrightarrow> calm w v"
  "calm w (set_kv_rst k v) \<longleftrightarrow> calm w v"
  by (rule calm_cong; simp add: set_history_def set_history_seqid_def set_remind_def note_seqid_def set_kv_rst_def)+

lemma calm_linkkit [simp]:
  "g_ota_state l = g_ota_state (linkkit v) \<Longrightarrow> calm w (v\<lparr>linkkit := l\<rparr>) \<longleftrightarrow> calm w v"
  by (rule calm_cong) simp_all

lemma calm_dev [simp]:
  "attrs d = attrs (g_cloud_dev v) \<Longrightarrow> calm w (v\<lparr>g_cloud_dev := d\<rparr>) \<longleftrightarrow> calm w v"
  by (rule calm_cong) simp_all

lemma calm_ecb [simp]:
  "ecb_fd x = ecb_fd (ecb v) \<Longrightarrow> ecb_list_resend x = ecb_list_resend (ecb v) \<Longrightarrow> ecb_read_buf x = ecb_read_buf (ecb v) \<Longrightarrow>
    calm w (v\<lparr>ecb := x\<rparr>) \<longleftrightarrow> calm w v"
  by (simp add: calm_def buffers_ok_def)

lemma calm_gesture [simp]:
  "gesture_fd x = gesture_fd (gesture v) \<Longrightarrow> gesture_read_buf x = gesture_read_buf (gesture v) \<Longrightarrow>
    calm w (v\<lparr>gesture := x\<rparr>) \<longleftrightarrow> calm w v"
  by (simp add: calm_def buffers_ok_def)

lemma calm_report: "report_rel v v' \<Longrightarrow> calm w v \<Longrightarrow> calm w v'"
  using link_ok_report [of v v'] buffers_ok_cong [of v' v] by (simp add: calm_def report_rel_def)

lemma calm_queue:
  "queue_ok (ecb_list_resend (ecb v)) \<longrightarrow> queue_ok (ecb_list_resend x) \<Longrightarrow> ecb_fd x = ecb_fd (ecb v) \<Longrightarrow>
    ecb_read_buf x = ecb_read_buf (ecb v) \<Longrightarrow> calm w v \<Longrightarrow> calm w (v\<lparr>ecb := x\<rparr>)"
  by (auto simp: calm_def link_ok_def buffers_ok_def)

lemma calm_cong_left:
  assumes "uds v' = uds v" and "ecb v' = ecb v" and "gesture v' = gesture v" and "attrs (g_cloud_dev v') = attrs (g_cloud_dev v)"
    and "g_ota_state (linkkit v') = g_ota_state (linkkit v)"
  shows "calm v' w \<longleftrightarrow> calm v w"
  using assms link_ok_cong [of v' v] buffers_ok_cong [of v' v] by (simp add: calm_def)

lemma calm_left [simp]:
  "calm (emit e v) w \<longleftrightarrow> calm v w" "calm (v\<lparr>database := d\<rparr>) w \<longleftrightarrow> calm v w" "calm (v\<lparr>history := h\<rparr>) w \<longleftrightarrow> calm v w"
  "calm (v\<lparr>uart_buf := b\<rparr>) w \<longleftrightarrow> calm v w" "calm (v\<lparr>gesture_registered := r\<rparr>) w \<longleftrightarrow> calm v w"
  "calm (set_history l v) w \<longleftrightarrow> calm v w" "calm (set_history_seqid n v) w \<longleftrightarrow> calm v w" "calm (set_remind rs v) w \<longleftrightarrow> calm v w"
  "calm (send_event_uds j t v) w \<longleftrightarrow> calm v w" "calm (linkkit_user_post_event i p v) w \<longleftrightarrow> calm v w"
  "calm (linkkit_user_post_property p v) w \<longleftrightarrow> calm v w" "calm (snd (report_msg_all_platform r' v)) w \<longleftrightarrow> calm v w"
  "calm (note_seqid r1 v) w \<longleftrightarrow> calm v w" "calm (gesture_auto_sync_time_alarm env a v) w \<longleftrightarrow> calm v w"
  "calm (set_kv_rst k v) w \<longleftrightarrow> calm v w" "calm (snd (db_exec env sql v)) w \<longleftrightarrow> calm v w" "calm (snd (db_run env sql args v)) w \<longleftrightarrow> calm v w"
  by (rule calm_cong_left; simp add: set_history_def set_history_seqid_def set_remind_def note_seqid_def set_kv_rst_def
      db_exec_def db_run_def split: prod.split)+

lemma calm_linkkit_left [simp]:
  "g_ota_state l = g_ota_state (linkkit v) \<Longrightarrow> calm (v\<lparr>linkkit := l\<rparr>) w \<longleftrightarrow> calm v w"
  by (rule calm_cong_left) simp_all

lemma calm_dev_left [simp]:
  "attrs d = attrs (g_cloud_dev v) \<Longrightarrow> calm (v\<lparr>g_cloud_dev := d\<rparr>) w \<longleftrightarrow> calm v w"
  by (rule calm_cong_left) simp_all

lemma calm_ecb_left [simp]:
  "ecb_fd x = ecb_fd (ecb v) \<Longrightarrow> ecb_list_resend x = ecb_list_resend (ecb v) \<Longrightarrow> ecb_read_buf x = ecb_read_buf (ecb v) \<Longrightarrow>
    calm (v\<lparr>ecb := x\<rparr>) w \<longleftrightarrow> calm v w"
  by (simp add: calm_def buffers_ok_def)

lemma calm_gesture_left [simp]:
  "gesture_fd x = gesture_fd (gesture v) \<Longrightarrow> gesture_read_buf x = gesture_read_buf (gesture v) \<Longrightarrow>
    calm (v\<lparr>gesture := x\<rparr>) w \<longleftrightarrow> calm v w"
  by (simp add: calm_def buffers_ok_def)

text \<open>A walk over a list of operations.\<close>

lemma calm_foldM:
  assumes "foldM f xs st = Some st'" and "calm w (p st)"
    and "\<And>x s s'. x \<in> set xs \<Longrightarrow> calm w (p s) \<Longrightarrow> f x s = Some s' \<Longrightarrow> calm w (p s')"
  shows "calm w (p st')"
  by (rule foldM_invariant [OF assms(1), where P = "\<lambda>s. calm w (p s)"]) (use assms(2,3) in auto)

section \<open>The database\<close>

lemma db_exec_calm [simp]: "calm w (snd (db_exec env sql v)) \<longleftrightarrow> calm w v"
  by (simp add: db_exec_def split: prod.split)

lemma db_run_calm [simp]: "calm w (snd (db_run env sql args v)) \<longleftrightarrow> calm w v"
  by (simp add: db_run_def split: prod.split)

lemma drop_table_calm [calm]: "databse_drop_table env t v = Some (rc, v') \<Longrightarrow> calm v v'"
  by (auto simp: databse_drop_table_def option_bind_Some_iff case_prod_beta Let_def)

lemma clear_table_calm [calm]: "databse_clear_table env t v = Some (rc, v') \<Longrightarrow> calm v v'"
  by (auto simp: databse_clear_table_def option_bind_Some_iff case_prod_beta Let_def split: if_split_asm)

lemma change_calm [calm]: "db_change env sql args v = Some (rc, v') \<Longrightarrow> calm v v'"
  by (auto simp: db_change_def option_bind_Some_iff case_prod_beta split: option.split_asm)

lemmas table_defs = delete_row_from_table_def update_key_to_table_def update_key_string_table_def
  insert_row_to_table_def insert_replace_row_to_table_def

lemma db_run_later: "db_run env sql args v = (r, v') \<Longrightarrow> calm v v'"
  using db_run_calm [of v env sql args v] by simp

lemma select_rows_calm:
  assumes "select_rows env sql args f (a, v) = Some (rc, a', v')"
    and f: "\<And>r a v a' v'. f r (a, v) = Some (a', v') \<Longrightarrow> calm v v'"
  shows "calm v v'"
proof -
  have walk: "calm u u'" if "foldM (\<lambda>row st. do { r \<leftarrow> recipes_of_row row; f r st }) rows (a, u) = Some (b, u')" for rows u b u'
  proof -
    have "calm u (snd (b, u'))"
      by (rule calm_foldM [OF that], simp) (auto simp: option_bind_Some_iff dest!: f; blast intro: calm_trans)
    then show ?thesis by simp
  qed
  show ?thesis using assms(1)
    by (auto simp: select_rows_def option_bind_Some_iff case_prod_beta dest!: walk split: option.split_asm)
qed

lemma select_first_calm [calm]:
  assumes "select_first env sql args arg v = Some (rc, r, v')"
  shows "calm v v'"
proof (cases "db_run env sql args v")
  case (Pair res u)
  with assms show ?thesis
    by (auto simp: select_first_def option_bind_Some_iff db_run_later str_fits_def split: option.split_asm list.split_asm if_split_asm)
qed

section \<open>The history\<close>

lemma select_seqid_calm [calm]:
  "select_seqid_from_table env t n histroy_select_seqid_func (j, v) = Some (rc, j', v') \<Longrightarrow> calm v v'"
  using calm_report [OF select_seqid_frame calm_refl] .

lemma update_cb_calm [calm]: "wrapper_history_update_cb env h v = Some (r, v') \<Longrightarrow> calm v v'"
  by (auto simp: wrapper_history_update_cb_def Let_def option_bind_Some_iff table_defs dest!: calm split: if_splits; blast intro: calm_trans)

lemma delete_cb_calm [calm]: "wrapper_history_delete_cb env i v = Some (r, v') \<Longrightarrow> calm v v'"
  by (auto simp: wrapper_history_delete_cb_def Let_def option_bind_Some_iff table_defs dest!: calm; blast intro: calm_trans)

lemma insert_cb_calm [calm]: "wrapper_history_insert_cb env h v = Some (r, v') \<Longrightarrow> calm v v'"
  by (auto simp: wrapper_history_insert_cb_def Let_def option_bind_Some_iff table_defs dest!: calm split: if_splits; blast intro: calm_trans)

lemma insertHistory_calm [calm]: "insertHistory env s v = Some (r, v') \<Longrightarrow> calm v v'"
  by (auto simp: insertHistory_def Let_def option_bind_Some_iff dest!: calm split: prod.split_asm if_split_asm; blast intro: calm_trans)

lemma updateHistory_calm [calm]: "updateHistory env s v = Some (r, v') \<Longrightarrow> calm v v'"
  by (auto simp: updateHistory_def Let_def option_bind_Some_iff dest!: calm split: option.splits if_splits; blast intro: calm_trans)

lemma CookRecipe_calm: "CookRecipe_cb env arg v = Some (j, v') \<Longrightarrow> calm v v'"
  by (auto simp: CookRecipe_cb_def select_from_table_def recipe_select_func_def option_bind_Some_iff Let_def
      dest!: select_rows_calm)

lemma UpdateHistory_calm: "UpdateHistory_cb env arg v = Some (j, v') \<Longrightarrow> calm v v'"
  by (auto simp: UpdateHistory_cb_def Let_def option_bind_Some_iff dest!: calm split: option.splits; blast intro: calm_trans)

lemma DeleteHistory_calm:
  assumes "DeleteHistory_cb env arg v = Some (j, v')"
  shows "calm v v'"
proof (cases "cJSON_GetArraySize arg = 0")
  case False
  define step where "step = (\<lambda>i (array, w). case cJSON_GetArrayItem arg i of
            None \<Rightarrow> Some (array, w)
          | Some sub \<Rightarrow> do {
              (_, w) \<leftarrow> delete_row_from_table env HISTORY_TABLE_NAME (valueint sub) w;
              let array = cJSON_AddItemToArray array (JNum (valueint sub));
              Some (array, set_history (reportDeleteHistory (valueint sub) (historyList (history w))) w)
            })"
  obtain array where run: "foldM step [0..<cJSON_GetArraySize arg] (cJSON_CreateArray, v) = Some (array, v')"
    using assms False by (auto simp: DeleteHistory_cb_def option_bind_Some_iff step_def)
  have "calm v (snd (array, v'))"
    by (rule calm_foldM [OF run], simp)
      (auto simp: step_def option_bind_Some_iff table_defs Let_def dest!: calm split: option.splits; blast intro: calm_trans)
  then show ?thesis by simp
qed (use assms in \<open>simp add: DeleteHistory_cb_def\<close>)

lemma cook_finish_calm [calm]: "cook_finish env r sn v = Some v' \<Longrightarrow> calm v v'"
  by (auto simp: cook_finish_def option_bind_Some_iff dest!: calm; blast intro: calm_trans)

lemma cook_history_calm [calm]:
  assumes "cook_history env root v = Some v'"
  shows "calm v v'"
  using assms
  by (auto simp: cook_history_def Let_def option_bind_Some_iff select_dishname_from_table_def dest!: calm split: if_splits; blast intro: calm_trans)

lemma database_reinit_calm [calm]: "database_task_reinit env v = Some v' \<Longrightarrow> calm v v'"
  by (auto simp: database_task_reinit_def dest!: calm; blast intro: calm_trans)

section \<open>The links\<close>

lemma send_queue_ok: "ecb_uart_send env (Some d) n resend cp v = Some (r, v') \<Longrightarrow> 4 \<le> n \<Longrightarrow> calm v v'"
  by (auto simp: ecb_uart_send_def Let_def option_bind_Some_iff resend_list_add_def intro!: calm_queue dest: rd_n_length
      split: if_split_asm)

lemma send_msg_calm [calm]: "ecb_uart_send_msg env c m n resend seq v = Some (r, v') \<Longrightarrow> calm v v'"
  by (auto simp: ecb_uart_send_msg_def Let_def option_bind_Some_iff ECB_MSG_MIN_LEN_def dest!: send_queue_ok split: if_split_asm)

lemmas send_defs = ecb_uart_send_cloud_msg_def ecb_uart_send_ack_def ecb_uart_send_nak_def ecb_uart_send_factory_def

lemma msg_get_calm [calm]: "ecb_uart_msg_get env inc v = Some (r, v') \<Longrightarrow> calm v v'"
  by (auto simp: ecb_uart_msg_get_def Let_def dest!: calm split: if_split_asm)

lemma gesture_send_calm [simp]: "calm w (snd (gesture_send_msg env a b c d e v)) \<longleftrightarrow> calm w v"
  by (simp add: gesture_send_msg_def gesture_uart_send_def)

lemma gesture_sync_calm [simp]: "calm w (gesture_sync_time_cb env b v) \<longleftrightarrow> calm w v"
  by (simp add: gesture_sync_time_cb_def gesture_sync_time_and_alarm_def Let_def split: prod.split)

lemma gesture_timer_calm [simp]: "calm w (gesture_POSIXTimer_cb env n v) \<longleftrightarrow> calm w v"
  by (simp add: gesture_POSIXTimer_cb_def)

lemma gesture_timestamp_calm [simp]: "calm w (gesture_link_timestamp_cb env t v) \<longleftrightarrow> calm w v"
  by (simp add: gesture_link_timestamp_cb_def split: option.split prod.split)

lemma del_by_id_queue: "resend_list_del_by_id l i = Some (r, l') \<Longrightarrow> queue_ok l \<Longrightarrow> queue_ok l'"
  using del_by_id_total [of l i] by auto

lemma ecb_del_calm [calm]: "ecb_resend_list_del_by_id i v = Some v' \<Longrightarrow> calm v v'"
  by (auto simp: ecb_resend_list_del_by_id_def option_bind_Some_iff intro!: calm_queue dest: del_by_id_queue)

section \<open>The cloud connection and the update\<close>

lemma dev_reset_calm [simp]: "calm w (snd (linkkit_dev_reset env v)) \<longleftrightarrow> calm w v"
  by (simp add: linkkit_dev_reset_def Let_def split: prod.split)

lemma unbind_calm [simp]: "calm w (snd (linkkit_unbind env v)) \<longleftrightarrow> calm w v"
  by (simp add: linkkit_unbind_def)

lemma unbind_check_calm [simp]: "calm w (snd (linkkit_unbind_check env v)) \<longleftrightarrow> calm w v"
  by (simp add: linkkit_unbind_check_def split: option.split)

lemma wifi_report_calm [simp]: "calm w (wiFiReport env e v) \<longleftrightarrow> calm w v" "calm w (wiFiCallback env e v) \<longleftrightarrow> calm w v"
  by (simp_all add: wiFiCallback_def wiFiReport_def Let_def)

lemma connected_calm [simp]: "calm w (linkkit_connected_cb env b v) \<longleftrightarrow> calm w v"
  by (simp add: linkkit_connected_cb_def)

lemma token_calm [simp]: "calm w (set_token_state n v) \<longleftrightarrow> calm w v"
  by (simp add: set_token_state_def device_token_state_cb_def)

text \<open>A handler of the update ends at rest; what it does on the way is left out here.\<close>

lemma set_ota_parts:
  "set_ota_state st arg v = Some v' \<Longrightarrow> uds v' = uds v \<and> ecb v' = ecb v \<and> gesture v' = gesture v \<and> g_cloud_dev v' = g_cloud_dev v"
  by (auto simp: set_ota_state_def ota_state_event_def Let_def option_bind_Some_iff split: if_split_asm)

lemma ota_progress_parts [simp]:
  "uds (fold ota_progress_cb ps v) = uds v" "ecb (fold ota_progress_cb ps v) = ecb v"
  "gesture (fold ota_progress_cb ps v) = gesture v" "g_cloud_dev (fold ota_progress_cb ps v) = g_cloud_dev v"
  by (induction ps arbitrary: v) (simp_all add: ota_progress_cb_def)

lemma calm_ota:
  assumes "uds v' = uds v \<and> ecb v' = ecb v \<and> gesture v' = gesture v \<and> g_cloud_dev v' = g_cloud_dev v"
    and "ota_resting (g_ota_state (linkkit v'))"
  shows "calm v v'"
  using assms link_ok_cong [of v' v] buffers_ok_cong [of v' v] by (simp add: calm_def)

lemma set_ota_calm: "set_ota_state st arg v = Some v' \<Longrightarrow> ota_resting st \<Longrightarrow> calm v v'"
  using set_ota_parts set_ota_state_post by (fastforce intro: calm_ota)

lemma request_calm [calm]:
  assumes "request_fota_image env v = Some (r, v')"
  shows "calm v v'"
  by (rule calm_ota [OF _ request_resting [OF assms]])
    (use assms in \<open>auto simp: request_fota_image_def Let_def option_bind_Some_iff dest!: set_ota_parts split: if_split_asm\<close>)

lemma drop_recipes_parts:
  "databse_ota_complete_cb_cb env v = Some v' \<Longrightarrow> uds v' = uds v \<and> ecb v' = ecb v \<and> gesture v' = gesture v \<and> g_cloud_dev v' = g_cloud_dev v"
  by (auto simp: databse_ota_complete_cb_cb_def databse_drop_table_def db_exec_def option_bind_Some_iff case_prod_beta Let_def)

lemma download_calm [calm]:
  assumes "download_fota_image env v = Some (r, v')"
  shows "calm v v'"
  by (rule calm_ota [OF _ download_resting [OF assms]])
    (use assms in \<open>auto simp: download_fota_image_def Let_def option_bind_Some_iff dest!: set_ota_parts drop_recipes_parts
      split: if_split_asm\<close>)

lemma fota_answer_calm [calm]: "fota_event_handler version v = Some v' \<Longrightarrow> calm v v'"
  by (auto simp: fota_event_handler_def ota_resting_def dest!: set_ota_calm)

lemma ota_timer_calm [calm]: "ota_POSIXTimer_cb v = Some v' \<Longrightarrow> calm v v'"
  by (auto simp: ota_POSIXTimer_cb_def ota_resting_def dest!: set_ota_calm)

lemma fota_announce_calm [calm]: "user_fota_event_handler env t v = Some v' \<Longrightarrow> calm v v'"
  by (auto simp: user_fota_event_handler_def Let_def dest!: calm split: if_split_asm)

lemma module_cota_calm [simp]:
  "calm w (user_fota_module_event_handler t v) \<longleftrightarrow> calm w v" "calm w (user_cota_event_handler t v) \<longleftrightarrow> calm w v"
  by (simp_all add: user_fota_module_event_handler_def user_cota_event_handler_def)

lemma dev_bind_calm [calm]: "user_state_dev_bind env ev msg v = Some v' \<Longrightarrow> calm v v'"
  by (auto simp: user_state_dev_bind_def split: bind_state.split_asm option.split_asm)

section \<open>The tables of the UI\<close>

lemma attr_calm:
  assumes "\<And>arg v j v'. sa_cb a arg v = Some (j, v') \<Longrightarrow> calm v v'"
  shows "set_attr_report_uds a (r, v) = Some (r', v') \<Longrightarrow> calm v v'"
    and "set_attr_ctrl_uds a item (r, v) = Some (r', v') \<Longrightarrow> calm v v'"
  using assms
  by (auto simp: set_attr_report_uds_def set_attr_ctrl_uds_def option_bind_Some_iff split: if_split_asm)

lemma table_calm:
  assumes "\<And>a arg v j v'. a \<in> set table \<Longrightarrow> sa_cb a arg v = Some (j, v') \<Longrightarrow> calm v v'"
  shows "attr_resp_get table root (r, v) = Some (r', v') \<Longrightarrow> calm v v'"
    and "attr_resp_getall table (r, v) = Some (r', v') \<Longrightarrow> calm v v'"
    and "attr_resp_set table root (r, v) = Some (r', v') \<Longrightarrow> calm v v'"
proof -
  have rep: "calm w u'" if "set_attr_report_uds a (x, u) = Some (x', u')" "a \<in> set table" "calm w u" for a x u x' u' w
    by (rule calm_trans [OF that(3) attr_calm(1) [OF assms [OF that(2)] that(1)]])
  have ctl: "calm w u'" if "set_attr_ctrl_uds a i (x, u) = Some (x', u')" "a \<in> set table" "calm w u" for a i x u x' u' w
    by (rule calm_trans [OF that(3) attr_calm(2) [OF assms [OF that(2)] that(1)]])
  show "calm v v'" if "attr_resp_get table root (r, v) = Some (r', v')"
  proof -
    have "calm v (snd (r', v'))"
      by (rule calm_foldM [OF that [unfolded attr_resp_get_def]], simp) (auto dest: rep split: if_split_asm)
    then show ?thesis by simp
  qed
  show "calm v v'" if "attr_resp_getall table (r, v) = Some (r', v')"
  proof -
    have "calm v (snd (r', v'))"
      by (rule calm_foldM [OF that [unfolded attr_resp_getall_def]], simp) (auto dest: rep split: if_split_asm)
    then show ?thesis by simp
  qed
  show "calm v v'" if "attr_resp_set table root (r, v) = Some (r', v')"
  proof -
    have "calm v (snd (r', v'))"
      by (rule calm_foldM [OF that [unfolded attr_resp_set_def]], simp) (auto dest: ctl split: if_split_asm)
    then show ?thesis by simp
  qed
qed

lemma wifi_calm: "a \<in> set (g_wifi_set_attr env) \<Longrightarrow> sa_cb a arg v = Some (j, v') \<Longrightarrow> calm v v'"
  by (auto simp: g_wifi_set_attr_def WifiState_cb_def WifiEnable_cb_def WifiScan_cb_def WifiScanR_cb_def WifiConnect_cb_def
      WifiDisconnect_cb_def WifiCurConnected_cb_def wifiEnable_def wifiScan_def wifiConnect_def wifiDisconnect_def Let_def
      option_bind_Some_iff split: option.split_asm prod.split_asm)

lemma ota_calm: "a \<in> set (g_ota_set_attr env) \<Longrightarrow> sa_cb a arg v = Some (j, v') \<Longrightarrow> calm v v'"
  by (auto simp: g_ota_set_attr_def OTAState_cb_def OTARquest_cb_def OTAProgress_cb_def OTANewVersion_cb_def
      option_bind_Some_iff dest!: calm split: option.split_asm if_split_asm)

lemma database_calm: "a \<in> set (g_database_set_attr env) \<Longrightarrow> sa_cb a arg v = Some (j, v') \<Longrightarrow> calm v v'"
  by (auto simp: g_database_set_attr_def CookHistory_cb_def CookHistorySimple_cb_def UpdateRecipe_cb_def
      dest: CookRecipe_calm UpdateHistory_calm DeleteHistory_calm)

lemma wifi_table_calm [calm]:
  "wifi_resp_get env root (r, v) = Some (r', v') \<Longrightarrow> calm v v'"
  "wifi_resp_getall env (r, v) = Some (r', v') \<Longrightarrow> calm v v'"
  "wifi_resp_set env root (r, v) = Some (r', v') \<Longrightarrow> calm v v'"
  unfolding wifi_resp_get_def wifi_resp_getall_def wifi_resp_set_def
  by (erule table_calm [rotated]; erule (1) wifi_calm)+

lemma ota_table_calm [calm]:
  "ota_resp_get env root (r, v) = Some (r', v') \<Longrightarrow> calm v v'"
  "ota_resp_getall env (r, v) = Some (r', v') \<Longrightarrow> calm v v'"
  "ota_resp_set env root (r, v) = Some (r', v') \<Longrightarrow> calm v v'"
  unfolding ota_resp_get_def ota_resp_getall_def ota_resp_set_def
  by (erule table_calm [rotated]; erule (1) ota_calm)+

lemma database_table_calm [calm]:
  "database_resp_get env root (r, v) = Some (r', v') \<Longrightarrow> calm v v'"
  "database_resp_getall env (r, v) = Some (r', v') \<Longrightarrow> calm v v'"
  unfolding database_resp_get_def database_resp_getall_def
  by (erule table_calm [rotated]; erule (1) database_calm)+

section \<open>Settings\<close>

text \<open>A setting writes the buffer for the board, and stays inside the table.\<close>

definition set_parts :: "'db world \<Rightarrow> 'db world \<Rightarrow> bool" where
  "set_parts v v' \<longleftrightarrow> uds v' = uds v \<and> ecb v' = ecb v \<and> gesture v' = gesture v \<and> linkkit v' = linkkit v \<and>
     attr_len v' = attr_len v"

lemma set_parts_simps [simp]:
  "set_parts v v" "set_parts v (set_remind r u) \<longleftrightarrow> set_parts v u" "set_parts v (set_attr_at j a u) \<longleftrightarrow> set_parts v u"
  "set_parts v (u\<lparr>uart_buf := b\<rparr>) \<longleftrightarrow> set_parts v u" "set_parts (set_attr_at j a v) u \<longleftrightarrow> set_parts v u"
  by (simp_all add: set_parts_def set_remind_def set_attr_at_def)

lemma set_parts_trans: "set_parts u v \<Longrightarrow> set_parts v w \<Longrightarrow> set_parts u w"
  by (simp add: set_parts_def)

lemma stage_parts: "stage_bytes i sub v = Some (b, v') \<Longrightarrow> set_parts v v'"
  by (auto simp: stage_bytes_def Let_def option_bind_Some_iff split: option.split_asm if_split_asm)

lemma all_stage_parts:
  assumes "all_stage_bytes item v = Some (bs, v')"
  shows "set_parts v v'"
proof -
  have "set_parts v (snd (bs, v'))"
    by (rule foldM_invariant [OF assms [unfolded all_stage_bytes_def], where P = "\<lambda>s. set_parts v (snd s)"])
      (auto simp: option_bind_Some_iff dest!: stage_parts intro: set_parts_trans split: option.split_asm)
  then show ?thesis by simp
qed

lemma write_out_parts: "write_out off bs v = Some v' \<Longrightarrow> set_parts v v' \<and> g_cloud_dev v' = g_cloud_dev v"
  by (auto simp: write_out_def option_bind_Some_iff)

lemma set_done_parts: "set_done j off v = Some (n, v') \<Longrightarrow> set_parts v v' \<and> g_cloud_dev v' = g_cloud_dev v"
  by (auto simp: set_done_def option_bind_Some_iff dest!: write_out_parts)

lemma set_value_parts:
  assumes "get_attr_set_value j item off v = Some (n, v')"
  shows "set_parts v v'"
  using assms
  by (auto simp: get_attr_set_value_def Let_def option_bind_Some_iff dest!: all_stage_parts write_out_parts set_done_parts
      split: if_split_asm option.split_asm;
      auto simp: set_parts_def set_remind_def set_attr_at_def split: if_split_asm)

lemma set_value_number:
  assumes "get_attr_set_value j item off v = Some (n, v')" and "number_table v" and "j < attr_len v"
  shows "g_cloud_dev v' = g_cloud_dev v"
proof -
  have "cloud_value_type (attr_at v j) = LINK_VALUE_TYPE_NUM \<or> cloud_value_type (attr_at v j) = LINK_VALUE_TYPE_STRING_NUM"
    using number_value [OF assms(2,3)] by blast
  with assms(1) show ?thesis
    by (auto simp: get_attr_set_value_def Let_def option_bind_Some_iff link_types dest!: write_out_parts set_done_parts
        split: option.split_asm)
qed

lemma set_value_calm:
  assumes "get_attr_set_value j item off v = Some (n, v')" and "j < attr_len v"
  shows "calm v v' \<and> attr_len v' = attr_len v"
proof -
  have p: "set_parts v v'" by (rule set_value_parts [OF assms(1)])
  have "link_ok v'" if "link_ok v"
  proof -
    have "g_cloud_dev v' = g_cloud_dev v" using set_value_number assms that by (auto simp: link_ok_def)
    with p that link_ok_cong [of v' v] show ?thesis by (simp add: set_parts_def)
  qed
  with p buffers_ok_cong [of v' v] show ?thesis by (simp add: set_parts_def calm_def)
qed

lemma set_value_later:
  "get_attr_set_value j item off u = Some (n, v') \<Longrightarrow> calm v u \<Longrightarrow> attr_len u = attr_len v \<Longrightarrow> j < attr_len v \<Longrightarrow>
    calm v v' \<and> attr_len v' = attr_len v"
  using set_value_calm [of j item off u n v'] calm_trans by fastforce

lemma set_bytes_calm [calm]:
  assumes "cloud_set_bytes root v = Some (n, v')"
  shows "calm v v'"
proof -
  have "calm v (snd (n, v')) \<and> attr_len (snd (n, v')) = attr_len v"
    by (rule foldM_invariant [OF assms [unfolded cloud_set_bytes_def],
          where P = "\<lambda>s. calm v (snd s) \<and> attr_len (snd s) = attr_len v"], simp)
      (auto simp: option_bind_Some_iff split: option.split_asm if_split_asm; blast dest: set_value_later)
  then show ?thesis by simp
qed

section \<open>The cloud\<close>

lemma cook_name_calm [calm]: "cook_name_POSIXTimer_cb v = Some v' \<Longrightarrow> calm v v'"
  by (auto simp: cook_name_POSIXTimer_cb_def option_bind_Some_iff split: option.split_asm)

lemmas cloud_calm [calm] = calm_report [OF send_data_frame calm_refl] calm_report [OF cloud_get_frame calm_refl]
  calm_report [OF cloud_getall_frame calm_refl]

lemma database_set_calm [calm]:
  assumes "database_resp_set env root (j, v) = Some (j', v')"
  shows "calm v v'"
proof -
  obtain u where u: "cook_history env root v = Some u" "attr_resp_set (g_database_set_attr env) root (j, u) = Some (j', v')"
    using assms by (auto simp: database_resp_set_def option_bind_Some_iff)
  show ?thesis by (rule calm_trans [OF cook_history_calm [OF u(1)] table_calm(3) [OF _ u(2)]]) (erule (1) database_calm)
qed

lemma cloud_set_calm [calm]: "cloud_resp_set env root v = Some v' \<Longrightarrow> calm v v'"
  by (auto simp: cloud_resp_set_def option_bind_Some_iff send_defs dest!: calm split: if_split_asm; blast intro: calm_trans)

lemma property_set_calm [calm]: "user_property_set_event_handler env request v = Some v' \<Longrightarrow> calm v v'"
  by (auto simp: user_property_set_event_handler_def recv_data_from_cloud_def option_bind_Some_iff dest!: calm split: option.split_asm)

lemma send_all_calm [calm]:
  assumes "send_all_to_cloud env v = Some v'"
  shows "calm v v'"
proof -
  define step where "step = (\<lambda>j (root, w). do {
         w \<leftarrow> get_attr_report_event j (first_byte (attr_value (attr_at w j))) True w;
         get_attr_report_value env j (root, w) })"
  let ?ask = "Some (cJSON_AddNullToObject cJSON_CreateObject ''CookHistorySimple'')"
  let ?post = "\<lambda>root. linkkit_user_post_property (Some (cJSON_PrintUnformatted root))"
  obtain root u j w where walk: "foldM step [0..<attr_len v] (cJSON_CreateObject, v) = Some (root, u)"
    and db: "database_resp_get env ?ask (cJSON_CreateObject, ?post root u) = Some (j, w)" and v': "v' = ?post j w"
    using assms unfolding send_all_to_cloud_def Let_def step_def [symmetric]
    by (simp only: option_bind_Some_iff split_paired_Ex case_prod_conv option.inject) blast
  have "calm v (snd (root, u))"
    by (rule calm_foldM [OF walk], simp)
      (auto simp: step_def option_bind_Some_iff dest!: report_event_frame report_value_frame; blast intro: calm_report)
  moreover have "calm u v'" using database_table_calm(1) [OF db] by (simp add: v')
  ultimately show ?thesis using calm_trans by simp blast
qed

lemma connected_event_calm [calm]: "user_connected_event_handler env v = Some v' \<Longrightarrow> calm v v'"
  by (auto simp: user_connected_event_handler_def option_bind_Some_iff Let_def dest!: send_all_calm
      intro: calm_trans [rotated])

section \<open>Requests of the UI\<close>

text \<open>A report of the device table runs no reset, so its table may be given any walk for it.\<close>

lemma reset_calm:
  assumes "Reset_cb env event_all arg v = Some (j, v')" and e: "\<And>v v'. event_all v = Some v' \<Longrightarrow> calm v v'"
  shows "calm v v'"
proof -
  obtain u where u: "database_task_reinit env v = Some u" "event_all (snd (linkkit_unbind env u)) = Some v'"
    using assms(1) by (auto simp: Reset_cb_def option_bind_Some_iff)
  have "calm v (snd (linkkit_unbind env u))" using database_reinit_calm [OF u(1)] by simp
  then show ?thesis using e [OF u(2)] by (rule calm_trans)
qed

lemma device_calm:
  assumes "a \<in> set (g_device_set_attr env event_all)" and "sa_cb a arg v = Some (j, v')"
    and "\<And>v v'. event_all v = Some v' \<Longrightarrow> calm v v'"
  shows "calm v v'"
  using assms(1,2)
  by (auto simp: g_device_set_attr_def ProductCategory_cb_def ProductModel_cb_def ProductKey_cb_def DeviceName_cb_def
      ProductSecret_cb_def DeviceSecret_cb_def QrCode_cb_def UpdateLog_cb_def AfterSalesPhone_cb_def AfterSalesQrCode_cb_def
      BindTokenState_cb_def Alarm_cb_def option_bind_Some_iff intro: reset_calm assms(3))

lemma device_report_calm [calm]:
  "device_resp_get env root (r, v) = Some (r', v') \<Longrightarrow> calm v v'"
  "device_resp_getall env (r, v) = Some (r', v') \<Longrightarrow> calm v v'"
  unfolding device_resp_get_def device_resp_getall_def
  by (erule table_calm [rotated]; erule (1) device_calm; simp)+

lemma event_all_calm [calm]: "uds_event_all env v = Some v' \<Longrightarrow> calm v v'"
  by (auto simp: uds_event_all_def option_bind_Some_iff cJSON_CreateObject_def dest!: calm; blast intro: calm_trans)

lemma device_set_calm [calm]: "device_resp_set env root (r, v) = Some (r', v') \<Longrightarrow> calm v v'"
  unfolding device_resp_set_def
  by (erule table_calm [rotated]; erule (1) device_calm; erule event_all_calm)

lemma uds_get_calm [calm]: "uds_get env Data v = Some v' \<Longrightarrow> calm v v'"
  by (auto simp: uds_get_def option_bind_Some_iff dest!: calm; blast intro: calm_trans)

lemma uds_set_calm [calm]: "uds_set env Data v = Some v' \<Longrightarrow> calm v v'"
  by (auto simp: uds_set_def option_bind_Some_iff dest!: calm; blast intro: calm_trans)

lemma uds_getall_calm [calm]: "uds_getall env v = Some v' \<Longrightarrow> calm v v'"
  by (auto simp: uds_getall_def option_bind_Some_iff dest!: calm; blast intro: calm_trans)

lemma uds_parse_calm: "uds_json_parse env text v = Some (r, v') \<Longrightarrow> calm v v'"
  by (auto simp: uds_json_parse_def uds_dispatch_def option_bind_Some_iff dest!: calm split: option.split_asm if_split_asm)

lemma frame_at_calm:
  assumes "uds_frame_at handle data i v = Some (k, v')" and "\<And>t v r v'. handle t v = Some (r, v') \<Longrightarrow> calm v v'"
  shows "calm v v'"
  using assms(1) by (auto simp: uds_frame_at_def Let_def option_bind_Some_iff dest!: assms(2) split: if_split_asm)

lemma recv_loop_calm:
  assumes "uds_recv_loop handle data n i v = Some v'" and h: "\<And>t v r v'. handle t v = Some (r, v') \<Longrightarrow> calm v v'"
  shows "calm v v'"
  using assms(1)
proof (induction "n - i" arbitrary: i v rule: less_induct)
  case less
  show ?case
  proof (cases "i < n")
    case True
    with less.prems obtain k u where k: "uds_frame_at handle data i v = Some (k, u)" "uds_recv_loop handle data n (i + k + 1) u = Some v'"
      by (subst (asm) uds_recv_loop.simps) (auto split: option.split_asm)
    have "calm u v'" using less.hyps [of "i + k + 1" u] True k(2) by simp
    with frame_at_calm [OF k(1) h] show ?thesis by (rule calm_trans)
  qed (use less.prems in \<open>subst (asm) uds_recv_loop.simps, simp\<close>)
qed

lemma uds_recv_calm [calm]: "uds_recv env data n v = Some v' \<Longrightarrow> calm v v'"
  unfolding uds_recv_def by (erule recv_loop_calm) (rule uds_parse_calm)

section \<open>The device record\<close>

lemma save_secret_calm: "save_device_secret env s v = Some (r, v') \<Longrightarrow> calm v v'"
  by (auto simp: save_device_secret_def Let_def option_bind_Some_iff dest!: device_report_calm)

lemma dynreg_calm [calm]: "dynreg_device_secret env s v = Some v' \<Longrightarrow> calm v v'"
  by (auto simp: dynreg_device_secret_def dest: save_secret_calm)

section \<open>The boards\<close>

lemma keypress_calm [calm]: "keypress_local_pro env k v = Some v' \<Longrightarrow> calm v v'"
proof -
  obtain res u where u: "linkkit_unbind env v = (res, u)" by (cases "linkkit_unbind env v")
  then have "calm v u" using unbind_calm [of v env v] by simp
  then show "keypress_local_pro env k v = Some v' \<Longrightarrow> calm v v'"
    by (auto simp: keypress_local_pro_def u send_defs dest!: calm split: if_split_asm; blast intro: calm_trans)
qed

lemma keypress_loop_calm [calm]: "keypress_loop env payload n i v = Some v' \<Longrightarrow> calm v v'"
proof (induction "n - i" arbitrary: i v rule: less_induct)
  case less
  show ?case
  proof (cases "i < n")
    case True
    have IH: "keypress_loop env payload n k u = Some v' \<Longrightarrow> calm u v'" if "i < k" for k u
      using less.hyps [of k u] True that by simp
    from less.prems True show ?thesis
      by (subst (asm) keypress_loop.simps)
        (auto simp: option_bind_Some_iff simp del: add_2_eq_Suc' dest!: IH [rotated] keypress_calm
          split: option.split_asm if_split_asm intro: calm_trans)
  qed (use less.prems in \<open>subst (asm) keypress_loop.simps, simp\<close>)
qed

lemma ecb_react_calm: "ecb_react env ev v = Some v' \<Longrightarrow> calm v v'"
  by (auto simp: ecb_react_def ecb_command_def option_bind_Some_iff send_defs dest!: calm
      split: ecb_event.split_asm if_split_asm; blast intro: calm_trans)

lemma gesture_error_calm [calm]: "gesture_send_error_cloud env e clear v = Some v' \<Longrightarrow> calm v v'"
  by (auto simp: gesture_send_error_cloud_def option_bind_Some_iff Let_def dest!: calm)

lemma gesture_steps_calm [simp]:
  "calm w (gesture_complaint env d v) \<longleftrightarrow> calm w v" "calm w (gesture_alarm d v) \<longleftrightarrow> calm w v"
  by (simp_all add: gesture_complaint_def gesture_alarm_def gesture_alarm_event_def Let_def)

lemma gesture_failure_calm [calm]: "gesture_failure env d v = Some v' \<Longrightarrow> calm v v'"
  by (auto simp: gesture_failure_def option_bind_Some_iff dest!: calm split: if_split_asm; blast intro: calm_trans)

lemma gesture_react_calm:
  assumes "gesture_react env ev v = Some v'"
  shows "calm v v'"
proof (cases ev)
  case (Some d)
  obtain d1 d2 where d: "d = (d1, d2)" by (cases d)
  from assms obtain m u where "gesture_failure env d2 (gesture_alarm d1 (gesture_complaint env d1 v)) = Some u"
    "(if length m > 0 then map_option snd (ecb_uart_send_msg env ECB_UART_COMMAND_SET (Some m) (length m) True (-1) u)
      else Some u) = Some v'"
    by (simp only: gesture_react_def Some d option.case case_prod_conv Let_def option_bind_Some_iff) blast
  then have "calm (gesture_alarm d1 (gesture_complaint env d1 v)) u" "calm u v'"
    by (auto dest!: gesture_failure_calm send_msg_calm split: if_split_asm)
  moreover have "calm v (gesture_alarm d1 (gesture_complaint env d1 v))" by simp
  ultimately show ?thesis using calm_trans by blast
qed (use assms in \<open>simp add: gesture_react_def\<close>)

lemma resend_cb_parts: "ecb_uart_resend_cb env d n v = Some v' \<Longrightarrow> calm v v' \<and> ecb v' = ecb v"
  by (auto simp: ecb_uart_resend_cb_def ecb_uart_send_def Let_def option_bind_Some_iff split: if_split_asm)

lemma resend_walk:
  "resend_list_each t (ecb_uart_resend_cb env) l v = Some (l', v') \<Longrightarrow>
    (queue_ok l \<longrightarrow> queue_ok l') \<and> calm v v' \<and> ecb v' = ecb v"
proof (induction l arbitrary: l' v)
  case (Cons p l)
  then show ?case
    by (auto simp: option_bind_Some_iff Let_def dest!: resend_cb_parts split: if_split_asm;
        use calm_trans in fastforce)
qed simp

lemma resend_each_calm [calm]: "ecb_resend_each env v = Some v' \<Longrightarrow> calm v v'"
  by (auto simp: ecb_resend_each_def option_bind_Some_iff dest!: resend_walk intro!: calm_queue)

lemma poll_calm [calm]: "ecb_poll env v = Some v' \<Longrightarrow> calm v v'"
  by (auto simp: ecb_poll_def option_bind_Some_iff Let_def dest!: calm split: if_split_asm; use calm_trans in fastforce)

lemma heart_calm [calm]: "ecb_heart env v = Some v' \<Longrightarrow> calm v v'"
  by (auto simp: ecb_heart_def ecb_uart_heart_timeout_def send_error_to_cloud_def Let_def dest!: calm split: if_split_asm)

lemma tick_calm [calm]: "ecb_timeout_cb env v = Some v' \<Longrightarrow> calm v v'"
  by (auto simp: ecb_timeout_cb_def option_bind_Some_iff dest!: calm; blast intro: calm_trans)

text \<open>The read callbacks, when the invariant of the links holds: they return, and are calm.\<close>

lemma table_gesture [simp]:
  "number_table (v\<lparr>gesture := g\<rparr>) \<longleftrightarrow> number_table v" "error_table (v\<lparr>gesture := g\<rparr>) \<longleftrightarrow> error_table v"
  by (simp_all add: number_table_def table_layout_def error_table_def distinct_cmds_def)

lemma calm_rx:
  assumes "calm w v" and "link_ok v"
  shows "rx_ok 512 rx \<Longrightarrow> calm w (v\<lparr>ecb := (ecb v)\<lparr>ecb_read_buf := rx\<rparr>\<rparr>) \<and> link_ok (v\<lparr>ecb := (ecb v)\<lparr>ecb_read_buf := rx\<rparr>\<rparr>)"
    and "rx_ok 256 rx \<Longrightarrow> calm w (v\<lparr>gesture := (gesture v)\<lparr>gesture_read_buf := rx\<rparr>\<rparr>) \<and>
      link_ok (v\<lparr>gesture := (gesture v)\<lparr>gesture_read_buf := rx\<rparr>\<rparr>)"
  using assms by (simp_all add: calm_def) (simp_all add: link_ok_def buffers_ok_def)

lemma ecb_react_ok:
  assumes "ecb_event_ok ev" and "calm w v \<and> link_ok v"
  shows "\<exists>v'. ecb_react env ev v = Some v' \<and> calm w v' \<and> link_ok v'"
proof -
  obtain v' where "ecb_react env ev v = Some v'" "link_ok v'" using ecb_react_total assms by blast
  with ecb_react_calm assms(2) calm_trans show ?thesis by blast
qed

lemma gesture_react_ok:
  assumes "calm w v \<and> link_ok v"
  shows "\<exists>v'. gesture_react env ev v = Some v' \<and> calm w v' \<and> link_ok v'"
proof -
  obtain v' where "gesture_react env ev v = Some v'" "link_ok v'" using gesture_react_total assms by blast
  with gesture_react_calm assms calm_trans show ?thesis by blast
qed

interpretation ecb_calm: total_frame_stream "ecb_uart_parse_msg env" "\<lambda>v. calm w v \<and> link_ok v" for env w
  unfolding ecb_parse_with by (rule ecb_scanner.reacting) (rule ecb_react_ok)

interpretation gesture_calm: total_frame_stream "gesture_uart_parse_msg env" "\<lambda>v. calm w v \<and> link_ok v" for env w
  unfolding gesture_parse_with by (rule gesture_scanner.reacting) (rule gesture_react_ok)

lemma ecb_recv_calm:
  assumes "link_ok v"
  shows "\<exists>rest v'. ecb_recv_cb env e avail v = Some (rest, v') \<and> calm v v' \<and> link_ok v'"
proof -
  obtain buf i where rx: "ecb_read_buf (ecb v) = (buf, i)" by (cases "ecb_read_buf (ecb v)")
  then have len: "length buf = 512" "i \<le> 512" using assms by (simp_all add: link_ok_def rx_ok_def)
  obtain rest buf' i' v' where r: "uart_recv_cb (ecb_uart_parse_msg env) e avail (buf, i) v = Some (rest, (buf', i'), v')"
    "length buf' = 512" "i' \<le> 512" "calm v v'" "link_ok v'"
    using ecb_calm.recv_total [of v v i buf env e avail] len assms by auto
  with calm_rx(1) [OF r(4,5), of "(buf', i')"] show ?thesis by (simp add: ecb_recv_cb_def rx rx_ok_def)
qed

lemma gesture_recv_calm:
  assumes "link_ok v"
  shows "\<exists>rest v'. gesture_recv_cb env e avail v = Some (rest, v') \<and> calm v v' \<and> link_ok v'"
proof -
  obtain buf i where rx: "gesture_read_buf (gesture v) = (buf, i)" by (cases "gesture_read_buf (gesture v)")
  then have len: "length buf = 256" "i \<le> 256" using assms by (simp_all add: link_ok_def rx_ok_def)
  obtain rest buf' i' v' where r: "uart_recv_cb (gesture_uart_parse_msg env) e avail (buf, i) v = Some (rest, (buf', i'), v')"
    "length buf' = 256" "i' \<le> 256" "calm v v'" "link_ok v'"
    using gesture_calm.recv_total [of v v i buf env e avail] len assms by auto
  with calm_rx(2) [OF r(4,5), of "(buf', i')"] show ?thesis by (simp add: gesture_recv_cb_def rx rx_ok_def)
qed

lemma tick_ok: "link_ok v \<Longrightarrow> \<exists>v'. ecb_timeout_cb env v = Some v' \<and> calm v v' \<and> link_ok v'"
  using ecb_timeout_total [of v env] tick_calm by blast

section \<open>The read callbacks on any profile\<close>

text \<open>When the callback returns, the reaction ran over a list of events, and the buffer has kept its bounds.\<close>

context frame_scanner begin

lemma recv_later:
  assumes run: "uart_recv_cb (parse_with scan r) e avail (buf, i) s = Some (rest, (buf', i'), s')" and i: "i \<le> length buf"
    and P: "P s" "\<And>ev s s'. r ev s = Some s' \<Longrightarrow> P s \<Longrightarrow> P s'"
  shows "P s' \<and> length buf' = length buf \<and> i' \<le> length buf"
proof -
  obtain out evs where ev:
    "\<And>s. uart_recv_cb (parse_with scan r) e avail (buf, i) s = do { s \<leftarrow> foldM r evs s; (rest, rx) \<leftarrow> out; Some (rest, rx, s) }"
    "\<And>s :: unit. uart_recv_cb (parse_with scan (\<lambda>_. Some)) e avail (buf, i) s =
      do { s \<leftarrow> foldM (\<lambda>_. Some) evs s; (rest, rx) \<leftarrow> out; Some (rest, rx, s) }"
    using recv_events [OF i, where ?r1.0 = r and ?r2.0 = "\<lambda>_. Some" and e = e and avail = avail] by blast
  have quiet: "total_frame_stream (parse_with scan (\<lambda>_. Some)) (\<lambda>_ :: unit. True)" by (rule reacting) simp
  obtain rest2 b2 i2 where q: "uart_recv_cb (parse_with scan (\<lambda>_. Some)) e avail (buf, i) () = Some (rest2, (b2, i2), ())"
    "length b2 = length buf" "i2 \<le> length buf"
    using total_frame_stream.recv_total [OF quiet TrueI i, of e avail "()"] by auto
  have f: "foldM r evs s = Some s'" and out: "out = Some (rest, (buf', i'))"
    using run ev(1) by (auto simp: option_bind_Some_iff)
  have "buf' = b2" "i' = i2" using q(1) out ev(2) [of "()"] by (auto simp: option_bind_Some_iff)
  moreover have "P s'" by (rule foldM_invariant [OF f, where P = P]) (use P in auto)
  ultimately show ?thesis using q by simp
qed

end

lemma ecb_recv_later:
  assumes "ecb_recv_cb env e avail v = Some (rest, v')" and "buffers_ok v"
  shows "calm v v'"
proof (cases "link_ok v")
  case True
  then show ?thesis using ecb_recv_calm [of v env e avail] assms(1) by auto
next
  case False
  obtain buf i where rx: "ecb_read_buf (ecb v) = (buf, i)" by (cases "ecb_read_buf (ecb v)")
  then have len: "length buf = 512" "i \<le> length buf" using assms(2) by (simp_all add: buffers_ok_def rx_ok_def)
  obtain buf' i' u where r: "uart_recv_cb (parse_with ecb_scan (ecb_react env)) e avail (buf, i) v = Some (rest, (buf', i'), u)"
    "v' = u\<lparr>ecb := (ecb u)\<lparr>ecb_read_buf := (buf', i')\<rparr>\<rparr>"
    using assms(1) by (auto simp: ecb_recv_cb_def rx ecb_parse_with option_bind_Some_iff)
  have "calm v u \<and> length buf' = length buf \<and> i' \<le> length buf"
    by (rule ecb_scanner.recv_later [OF r(1) len(2)]) (auto intro: calm_trans ecb_react_calm)
  with False assms(2) len(1) show ?thesis by (simp add: r(2) calm_def buffers_ok_def rx_ok_def)
qed

lemma gesture_recv_later:
  assumes "gesture_recv_cb env e avail v = Some (rest, v')" and "buffers_ok v"
  shows "calm v v'"
proof (cases "link_ok v")
  case True
  then show ?thesis using gesture_recv_calm [of v env e avail] assms(1) by auto
next
  case False
  obtain buf i where rx: "gesture_read_buf (gesture v) = (buf, i)" by (cases "gesture_read_buf (gesture v)")
  then have len: "length buf = 256" "i \<le> length buf" using assms(2) by (simp_all add: buffers_ok_def rx_ok_def)
  obtain buf' i' u where r: "uart_recv_cb (parse_with gesture_scan (gesture_react env)) e avail (buf, i) v = Some (rest, (buf', i'), u)"
    "v' = u\<lparr>gesture := (gesture u)\<lparr>gesture_read_buf := (buf', i')\<rparr>\<rparr>"
    using assms(1) by (auto simp: gesture_recv_cb_def rx gesture_parse_with option_bind_Some_iff)
  have "calm v u \<and> length buf' = length buf \<and> i' \<le> length buf"
    by (rule gesture_scanner.recv_later [OF r(1) len(2)]) (auto intro: calm_trans gesture_react_calm)
  with False assms(2) len(1) show ?thesis by (simp add: r(2) calm_def buffers_ok_def rx_ok_def)
qed

end
