(* ===== verification/X50_Main.thy ===== *)
theory X50_Main
  imports X50_Calm
begin

text \<open>
  The three threads of the program: the serial task of \<open>uart/uart_task.c\<close>, the task of the UI server, and
  the cloud library with its callbacks and timers; started as \<open>main\<close> starts them.

  The select loops run one turn at a time. Turns of the loops and callbacks of the library interleave; each
  runs to its end, as the model has no mutexes and no preemption inside a handler.
\<close>

section \<open>The serial task\<close>

text \<open>A client record of the serial table is named by its port. \<open>select_uart_timeout\<close> says whether
  \<open>ecb_timeout_cb\<close> has been registered.\<close>

datatype uart_port = Ecb_Port | Gesture_Port

record 'db program =
  board :: "'db world"
  uart_server :: "uart_port select_server"
  select_uart_timeout :: bool
  running :: bool

definition program_zero :: "'db world \<Rightarrow> 'db program" where
  "program_zero w = \<lparr>board = w, uart_server = select_server_zero, select_uart_timeout = False, running = False\<rparr>"

definition register_select_uart_timeout_cb :: "'db program \<Rightarrow> 'db program" where
  "register_select_uart_timeout_cb p = p\<lparr>select_uart_timeout := True\<rparr>"

definition add_select_client_uart :: "uart_port \<Rightarrow> int \<Rightarrow> 'db program \<Rightarrow> (int \<times> 'db program) option" where
  "add_select_client_uart port fd p = do {
     (res, sv) \<leftarrow> add_select_client_event (uart_server p) port fd;
     Some (res, p\<lparr>uart_server := sv\<rparr>)
   }"

text \<open>\<open>ecb_uart_init\<close> and \<open>gesture_uart_init\<close> with what they do to the table; \<open>fd\<close> is what \<open>uart_init\<close>
  returned.\<close>

definition ecb_uart_start :: "'db env \<Rightarrow> int \<Rightarrow> 'db program \<Rightarrow> 'db program option" where
  "ecb_uart_start env fd p = do {
     w \<leftarrow> ecb_uart_init env fd (board p);
     let p = p\<lparr>board := w\<rparr>;
     if fd \<le> 0 then Some p
     else map_option snd (add_select_client_uart Ecb_Port fd (register_select_uart_timeout_cb p))
   }"

definition gesture_uart_start :: "'db env \<Rightarrow> int \<Rightarrow> 'db program \<Rightarrow> 'db program option" where
  "gesture_uart_start env fd p =
     (let p = p\<lparr>board := gesture_uart_init env fd (board p)\<rparr> in
      if fd \<le> 0 then Some p else map_option snd (add_select_client_uart Gesture_Port fd p))"

definition uart_task_start :: "'db env \<Rightarrow> int \<Rightarrow> int \<Rightarrow> 'db program \<Rightarrow> 'db program option" where
  "uart_task_start env fd1 fd2 p = do {
     let p = p\<lparr>uart_server := select_server_init (uart_server p)\<rparr>;
     p \<leftarrow> ecb_uart_start env fd1 p;
     gesture_uart_start env fd2 p
   }"

text \<open>The owner of the table. \<open>input\<close> is what \<open>read\<close> finds at each port (its result when there is nothing,
  and the bytes); neither port has a write callback, and \<open>ecb_except_cb\<close> does nothing.\<close>

definition uart_port_fd :: "'db world \<Rightarrow> uart_port \<Rightarrow> int" where
  "uart_port_fd w port = (case port of Ecb_Port \<Rightarrow> ecb_fd (ecb w) | Gesture_Port \<Rightarrow> gesture_fd (gesture w))"

definition uart_owner :: "'db env \<Rightarrow> (uart_port \<Rightarrow> int \<times> bytes) \<Rightarrow> ('db program, uart_port) select_owner" where
  "uart_owner env input = \<lparr>
     server_of = uart_server,
     set_server = (\<lambda>sv p. p\<lparr>uart_server := sv\<rparr>),
     fd_of = (\<lambda>p. uart_port_fd (board p)),
     read_cb = (\<lambda>port p. case input port of (end0, avail) \<Rightarrow> do {
       (_, w) \<leftarrow> (case port of Ecb_Port \<Rightarrow> ecb_recv_cb env end0 avail (board p)
                 | Gesture_Port \<Rightarrow> gesture_recv_cb env end0 avail (board p));
       Some (p\<lparr>board := w\<rparr>) }),
     write_cb = (\<lambda>_. Some),
     except_cb = (\<lambda>_. Some),
     error_cb = (\<lambda>_. Some),
     timeout_cb = (\<lambda>p. if select_uart_timeout p then map_option (\<lambda>w. p\<lparr>board := w\<rparr>) (ecb_timeout_cb env (board p))
       else Some p)\<rparr>"

text \<open>A turn of the loop: its surroundings, the input of the ports, the result of \<open>select\<close> and the ready
  descriptors.\<close>

type_synonym 'db serial_event = "'db env \<times> (uart_port \<Rightarrow> int \<times> bytes) \<times> int \<times> int set"

definition uart_turn :: "'db serial_event \<Rightarrow> 'db program \<Rightarrow> 'db program option" where
  "uart_turn t p = (case t of (env, input, ev) \<Rightarrow> select_server_task (uart_owner env input) [ev] p)"

definition uart_task :: "'db env \<Rightarrow> int \<Rightarrow> int \<Rightarrow> 'db serial_event list \<Rightarrow> 'db program \<Rightarrow> 'db program option" where
  "uart_task env fd1 fd2 turns p = do {
     p \<leftarrow> uart_task_start env fd1 fd2 p;
     p \<leftarrow> foldM uart_turn turns p;
     Some (p\<lparr>board := gesture_uart_deinit (ecb_uart_deinit (board p))\<rparr>)
   }"

definition uart_task_deinit :: "'db program \<Rightarrow> 'db program" where
  "uart_task_deinit p = p\<lparr>uart_server := select_server_deinit (uart_server p)\<rparr>"

section \<open>The task of the UI server\<close>

text \<open>The owner of the other table: what \<open>accept\<close> returns, with \<open>errno\<close>, and what \<open>recv\<close> returns and
  leaves in the buffer of each client.\<close>

record 'db net =
  net_accept :: "'db world \<Rightarrow> int"
  net_again :: bool
  net_recv :: "nat \<Rightarrow> int \<times> bytes \<times> bytes"

definition uds_owner :: "'db env \<Rightarrow> 'db net \<Rightarrow> ('db world, uds_client_ref) select_owner" where
  "uds_owner env net = \<lparr>
     server_of = (\<lambda>w. uds_select (uds w)),
     set_server = set_uds_select,
     fd_of = uds_fd_of,
     read_cb = (\<lambda>c w. map_option snd (case c of
       Uds_Server \<Rightarrow> app_select_tcp_server_accetp_cb (net_accept net w) (net_again net) w
     | Uds_Client i \<Rightarrow> (case net_recv net i of (n, data, buf) \<Rightarrow> app_select_tcp_server_recv_cb (uds_recv env) i n data buf w))),
     write_cb = (\<lambda>_. Some),
     except_cb = (\<lambda>_. Some),
     error_cb = (\<lambda>_. Some),
     timeout_cb = Some\<rparr>"

definition uds_turn :: "'db env \<Rightarrow> 'db net \<Rightarrow> int \<times> int set \<Rightarrow> 'db world \<Rightarrow> 'db world option" where
  "uds_turn env net ev = select_server_task (uds_owner env net) [ev]"

section \<open>Start and stop\<close>

text \<open>What \<open>main\<close> does before it starts the threads. Without a profile there is no device record, and
  the cloud thread follows a NULL pointer.\<close>

definition main_start :: "'db env \<Rightarrow> 'db world \<Rightarrow> 'db world option" where
  "main_start env w = do {
     (_, w) \<leftarrow> uds_protocol_init env w;
     (_, w) \<leftarrow> cloud_init env w;
     w
   }"

text \<open>The signal handler, and the end of \<open>main\<close>; it works once.\<close>

definition main_quit :: "'db program \<Rightarrow> 'db program" where
  "main_quit p =
     (if running p then
        (let p = uart_task_deinit (p\<lparr>running := False\<rparr>) in p\<lparr>board := cloud_deinit (uds_protocol_deinit (board p))\<rparr>)
      else p)"

section \<open>A turn of the serial task\<close>

definition serial_inv :: "'db program \<Rightarrow> bool" where
  "serial_inv p \<longleftrightarrow> select_inv (uart_port_fd (board p)) (uart_server p) \<and>
     (\<forall>port \<in> set (clients (uart_server p)). fd_ok (uart_port_fd (board p) port))"

lemma calm_fds: "calm w v \<Longrightarrow> uart_port_fd v = uart_port_fd w"
  by (auto simp: calm_def uart_port_fd_def fun_eq_iff split: uart_port.split)

lemma calm_buffers: "calm w v \<Longrightarrow> buffers_ok w \<Longrightarrow> buffers_ok v"
  by (simp add: calm_def)

lemma calm_link: "calm w v \<Longrightarrow> link_ok w \<Longrightarrow> link_ok v"
  by (simp add: calm_def)

lemma owner_simps [simp]:
  "server_of (uart_owner env input) = uart_server" "set_server (uart_owner env input) sv p = p\<lparr>uart_server := sv\<rparr>"
  "fd_of (uart_owner env input) p port = uart_port_fd (board p) port" "write_cb (uart_owner env input) port = Some"
  "except_cb (uart_owner env input) port = Some" "error_cb (uart_owner env input) n = Some"
  "timeout_cb (uart_owner env input) p =
    (if select_uart_timeout p then map_option (\<lambda>w. p\<lparr>board := w\<rparr>) (ecb_timeout_cb env (board p)) else Some p)"
  by (simp_all add: uart_owner_def)

lemma one_turn: "select_server_task ow [(n, ready)] s =
    (if runing (server_of ow s) \<noteq> 0 then select_server_turn ow n ready s else Some s)"
  by (cases "select_server_turn ow n ready s") simp_all

lemma uart_read_later:
  assumes "read_cb (uart_owner env input) port p = Some p'" and "buffers_ok (board p)"
  shows "calm (board p) (board p')" and "p' = p\<lparr>board := board p'\<rparr>"
proof -
  show "p' = p\<lparr>board := board p'\<rparr>"
    using assms(1) by (cases p; cases p') (auto simp: uart_owner_def option_bind_Some_iff split: prod.split_asm)
  show "calm (board p) (board p')"
    using assms by (cases port)
      (auto simp: uart_owner_def option_bind_Some_iff split: prod.split_asm dest!: ecb_recv_later gesture_recv_later)
qed

lemma uart_read_total:
  assumes "link_ok (board p)"
  shows "\<exists>p'. read_cb (uart_owner env input) port p = Some p'"
proof -
  obtain e avail where i: "input port = (e, avail)" by (cases "input port")
  obtain r v r' v' where "ecb_recv_cb env e avail (board p) = Some (r, v)" "gesture_recv_cb env e avail (board p) = Some (r', v')"
    using ecb_recv_calm [OF assms] gesture_recv_calm [OF assms] by metis
  then show ?thesis by (cases port) (use i in \<open>auto simp: uart_owner_def\<close>)
qed

text \<open>Only the copy of the set and the state of the boards change.\<close>

lemma uart_turn_later:
  assumes "uart_turn t p = Some p'" and "buffers_ok (board p)"
  shows "calm (board p) (board p') \<and> p' = p\<lparr>board := board p', uart_server := (uart_server p)\<lparr>rfds := rfds (uart_server p')\<rparr>\<rparr>"
proof -
  obtain env input n ready where t: "t = (env, input, n, ready)" by (cases t)
  let ?ow = "uart_owner env input" and ?p = "p\<lparr>uart_server := (uart_server p)\<lparr>rfds := r_copy_fds (uart_server p) \<inter> ready\<rparr>\<rparr>"
  define step where "step = (\<lambda>i s. do {
         e \<leftarrow> rd (select_client_event (uart_server s)) i;
         case e of None \<Rightarrow> Some s | Some c \<Rightarrow> select_client_fd_check ?ow c s })"
  let ?Q = "\<lambda>s. calm (board p) (board s) \<and> s = ?p\<lparr>board := board s\<rparr>"
  have check: "?Q s'" if "select_client_fd_check ?ow c s = Some s'" "?Q s" for c s s'
  proof -
    have "s' = s \<or> read_cb ?ow c s = Some s'"
      using that(1) by (auto simp: select_client_fd_check_def option_bind_Some_iff split: if_split_asm)
    then show ?thesis
    proof
      assume r: "read_cb ?ow c s = Some s'"
      have b: "buffers_ok (board s)" using that(2) assms(2) calm_buffers by blast
      have "calm (board p) (board s')" using uart_read_later(1) [OF r b] that(2) calm_trans by blast
      moreover have "s' = s\<lparr>board := board s'\<rparr>" by (rule uart_read_later(2) [OF r b])
      then have "s' = ?p\<lparr>board := board s'\<rparr>" using that(2) by (metis program.surjective program.update_convs(1))
      ultimately show ?thesis by blast
    qed (use that(2) in simp)
  qed
  have walk: "?Q s'" if "foldM step [0..<SELECT_MAX_CLIENT] ?p = Some s'" for s'
    by (rule foldM_invariant [OF that, where P = ?Q])
      (auto simp: step_def option_bind_Some_iff split: option.split_asm dest!: check)
  have "p' = p \<or> ?Q p'"
    using assms(1) walk
    by (auto simp: uart_turn_def t one_turn select_server_turn_def Let_def simp flip: step_def simp del: select_server_task.simps
        dest!: tick_calm split: if_split_asm)
  then show ?thesis
  proof
    assume q: "?Q p'"
    then have s: "p' = ?p\<lparr>board := board p'\<rparr>" by blast
    have "rfds (uart_server p') = r_copy_fds (uart_server p) \<inter> ready" by (subst s) simp
    moreover have "p' = p\<lparr>board := board p', uart_server := (uart_server p)\<lparr>rfds := r_copy_fds (uart_server p) \<inter> ready\<rparr>\<rparr>"
      by (subst s) (cases p, simp)
    ultimately show ?thesis using q by simp
  qed simp
qed

lemma serial_inv_cong:
  assumes "calm (board p) (board p')" and "p' = p\<lparr>board := board p', uart_server := (uart_server p)\<lparr>rfds := R\<rparr>\<rparr>"
  shows "serial_inv p' \<longleftrightarrow> serial_inv p"
proof -
  have "uart_server p' = (uart_server p)\<lparr>rfds := R\<rparr>" by (subst assms(2)) simp
  then show ?thesis by (simp add: serial_inv_def calm_fds [OF assms(1)] select_inv_def clients_def)
qed

lemma uart_turn_inv:
  assumes "uart_turn t p = Some p'" and "buffers_ok (board p)" and "serial_inv p"
  shows "serial_inv p'" "calm (board p) (board p')"
  using uart_turn_later [OF assms(1,2)] serial_inv_cong assms(3) by blast+

lemma turn_clients:
  assumes "uart_turn t p = Some p'" and "link_ok (board p)"
  shows "link_ok (board p')" and "clients (uart_server p') = clients (uart_server p)"
proof -
  note l = uart_turn_later [OF assms(1) link_buffers [OF assms(2)]]
  from l show "link_ok (board p')" using calm_link assms(2) by blast
  have "uart_server p' = (uart_server p)\<lparr>rfds := rfds (uart_server p')\<rparr>"
    using l by (metis program.select_convs(2) program.surjective program.update_convs(1,2))
  then show "clients (uart_server p') = clients (uart_server p)"
    by (metis clients_def select_server.select_convs(5) select_server.surjective select_server.update_convs(1))
qed

lemma uart_turn_total:
  assumes "link_ok (board p)" and "serial_inv p"
  shows "\<exists>p'. uart_turn t p = Some p'"
proof -
  obtain env input n ready where t: "t = (env, input, n, ready)" by (cases t)
  let ?ow = "uart_owner env input" and ?p = "p\<lparr>uart_server := (uart_server p)\<lparr>rfds := r_copy_fds (uart_server p) \<inter> ready\<rparr>\<rparr>"
  let ?Q = "\<lambda>s. calm (board p) (board s) \<and> uart_server s = uart_server ?p"
  have len: "length (select_client_event (uart_server p)) = SELECT_MAX_CLIENT"
    using assms(2) by (simp add: serial_inv_def select_inv_def)
  have ok: "\<exists>s'. do { e \<leftarrow> rd (select_client_event (uart_server s)) i;
         case e of None \<Rightarrow> Some s | Some c \<Rightarrow> select_client_fd_check ?ow c s } = Some s' \<and> ?Q s'"
    if i: "i \<in> set [0..<SELECT_MAX_CLIENT]" and Q: "?Q s" for i s
  proof (cases "select_client_event (uart_server p) ! i")
    case None
    with i Q len show ?thesis by (auto simp: rd_def)
  next
    case (Some c)
    have "c \<in> set (clients (uart_server p))" unfolding set_clients using Some i len by (metis atLeastLessThan_iff nth_mem set_upt)
    then have fd: "fd_ok (uart_port_fd (board s) c)"
      using assms(2) calm_fds [of "board p" "board s"] Q by (simp add: serial_inv_def)
    have b: "link_ok (board s)" using calm_link Q assms(1) by blast
    obtain s1 where r: "read_cb ?ow c s = Some s1" using uart_read_total [OF b] by blast
    have "calm (board s) (board s1)" by (rule uart_read_later(1) [OF r link_buffers [OF b]])
    then have Q1: "?Q s1"
      using Q calm_trans uart_read_later(2) [OF r link_buffers [OF b]]
      by (metis program.ext_inject program.surjective program.update_convs(1))
    have fd1: "fd_ok (uart_port_fd (board s1) c)" using fd calm_fds [OF \<open>calm (board s) (board s1)\<close>] by simp
    have "select_client_fd_check ?ow c s = Some s \<or> select_client_fd_check ?ow c s = Some s1"
      using fd fd1 r by (auto simp: select_client_fd_check_def FD_ISSET_def)
    with Q Q1 i len Some show ?thesis by (auto simp: rd_def)
  qed
  have "\<exists>s'. foldM (\<lambda>i s. do { e \<leftarrow> rd (select_client_event (uart_server s)) i;
         case e of None \<Rightarrow> Some s | Some c \<Rightarrow> select_client_fd_check ?ow c s }) [0..<SELECT_MAX_CLIENT] ?p = Some s' \<and> ?Q s'"
    by (rule foldM_total [OF _ ok]) simp_all
  moreover obtain v where "ecb_timeout_cb env (board p) = Some v" using tick_ok [OF assms(1)] by blast
  ultimately show ?thesis
    by (auto simp: uart_turn_def t one_turn select_server_turn_def Let_def simp del: select_server_task.simps)
qed

section \<open>The serial task from its start\<close>

text \<open>The two descriptors are those \<open>uart_init\<close> returned, or failures.\<close>

definition ports_ok :: "int \<Rightarrow> int \<Rightarrow> bool" where
  "ports_ok fd1 fd2 \<longleftrightarrow> fd1 < 1024 \<and> fd2 < 1024 \<and> (0 < fd1 \<longrightarrow> fd1 \<noteq> fd2)"

lemma zero_inv: "select_inv f (select_server_init select_server_zero)"
  by (simp add: select_inv_def select_server_init_def select_server_zero_def clients_def map_filter_def SELECT_MAX_CLIENT_def)

lemma zero_clients: "clients (select_server_init select_server_zero) = []"
  by (simp add: select_server_init_def select_server_zero_def clients_def map_filter_def SELECT_MAX_CLIENT_def)

lemma msg_get_total: "0 < ecb_fd (ecb w) \<Longrightarrow> \<exists>r v. ecb_uart_msg_get env True w = Some (r, v)"
  using send_msg_next(2) [of w env ECB_UART_COMMAND_GET]
    send_msg_next(2) [of "w\<lparr>ecb := (ecb w)\<lparr>msg_get_timeout_count := msg_get_timeout_count (ecb w) + 1\<rparr>\<rparr>" env ECB_UART_COMMAND_GET]
  by (auto simp: ecb_uart_msg_get_def Let_def)

lemma ecb_init_calm:
  "\<exists>v. ecb_uart_init env fd w = Some v \<and> calm (w\<lparr>ecb := (ecb w)\<lparr>ecb_fd := fd\<rparr>\<rparr>) v"
proof (cases "fd \<le> 0")
  case False
  let ?w = "w\<lparr>ecb := (ecb w)\<lparr>ecb_fd := fd\<rparr>\<rparr>"
  let ?u = "w\<lparr>ecb := (ecb w)\<lparr>ecb_fd := fd, ecb_list_resend := resend_list_init\<rparr>\<rparr>"
  obtain r v where v: "ecb_uart_msg_get env True ?u = Some (r, v)"
    using msg_get_total [of ?u env] False by auto
  have "calm ?w ?u" using calm_queue [of ?w "ecb ?u" ?w] by (simp add: resend_list_init_def)
  then have "calm ?w v" using msg_get_calm [OF v] by (rule calm_trans)
  with False v show ?thesis by (simp add: ecb_uart_init_def Let_def)
qed (simp add: ecb_uart_init_def)

lemma gesture_init_calm: "calm (w\<lparr>gesture := (gesture w)\<lparr>gesture_fd := fd\<rparr>\<rparr>) (gesture_uart_init env fd w)"
  by (simp add: gesture_uart_init_def Let_def)

text \<open>The two starts add a client each, when the port could be opened.\<close>

lemma add_port:
  assumes "select_inv f (uart_server p)" and "set (clients (uart_server p)) \<subseteq> {Ecb_Port}"
    and "f port = fd" and "0 < fd" and "fd < 1024" and "\<forall>q \<in> set (clients (uart_server p)). f q \<noteq> fd"
  shows "\<exists>sv. add_select_client_uart port fd p = Some (0, p\<lparr>uart_server := sv\<rparr>) \<and> select_inv f sv \<and>
    set (clients sv) = insert port (set (clients (uart_server p))) \<and> runing sv = runing (uart_server p)"
proof -
  have "distinct (clients (uart_server p))" using assms(1) by (auto simp: select_inv_def distinct_map)
  then have "length (clients (uart_server p)) \<le> 1"
    using card_mono [OF _ assms(2)] by (simp add: distinct_card)
  moreover have "fd \<notin> r_copy_fds (uart_server p)" using assms(1,6) by (auto simp: select_inv_def)
  ultimately show ?thesis using add_select_spec [OF assms(1), of port] assms(3-5)
    by (auto simp: add_select_client_uart_def fd_ok_def SELECT_MAX_CLIENT_def)
qed

lemma ecb_start_total:
  assumes "select_inv f (uart_server p)" and "clients (uart_server p) = []" and "f Ecb_Port = fd" and "fd < 1024"
    and "\<not> select_uart_timeout p"
  shows "\<exists>q. ecb_uart_start env fd p = Some q \<and> calm ((board p)\<lparr>ecb := (ecb (board p))\<lparr>ecb_fd := fd\<rparr>\<rparr>) (board q) \<and>
    select_inv f (uart_server q) \<and> set (clients (uart_server q)) = {port. port = Ecb_Port \<and> 0 < fd} \<and>
    runing (uart_server q) = runing (uart_server p) \<and> (select_uart_timeout q \<longleftrightarrow> 0 < fd)"
proof -
  obtain v where v: "ecb_uart_init env fd (board p) = Some v" "calm ((board p)\<lparr>ecb := (ecb (board p))\<lparr>ecb_fd := fd\<rparr>\<rparr>) v"
    using ecb_init_calm by blast
  show ?thesis
  proof (cases "fd \<le> 0")
    case False
    let ?p = "register_select_uart_timeout_cb (p\<lparr>board := v\<rparr>)"
    obtain sv where "add_select_client_uart Ecb_Port fd ?p = Some (0, ?p\<lparr>uart_server := sv\<rparr>)" "select_inv f sv"
      "set (clients sv) = {Ecb_Port}" "runing sv = runing (uart_server p)"
      using add_port [of f ?p Ecb_Port fd] assms False by (auto simp: register_select_uart_timeout_cb_def)
    with v False show ?thesis
      by (intro exI [of _ "?p\<lparr>uart_server := sv\<rparr>"]) (auto simp: ecb_uart_start_def register_select_uart_timeout_cb_def)
  qed (use v assms in \<open>simp add: ecb_uart_start_def\<close>)
qed

lemma gesture_start_total:
  assumes "select_inv f (uart_server p)" and "set (clients (uart_server p)) \<subseteq> {Ecb_Port}"
    and "f Gesture_Port = fd" and "fd < 1024" and "\<forall>q \<in> set (clients (uart_server p)). f q \<noteq> fd"
  shows "\<exists>q. gesture_uart_start env fd p = Some q \<and>
    calm ((board p)\<lparr>gesture := (gesture (board p))\<lparr>gesture_fd := fd\<rparr>\<rparr>) (board q) \<and> select_inv f (uart_server q) \<and>
    set (clients (uart_server q)) = set (clients (uart_server p)) \<union> {port. port = Gesture_Port \<and> 0 < fd} \<and>
    runing (uart_server q) = runing (uart_server p) \<and> select_uart_timeout q = select_uart_timeout p"
proof -
  let ?p = "p\<lparr>board := gesture_uart_init env fd (board p)\<rparr>"
  note v = gesture_init_calm [where w = "board p" and fd = fd and env = env]
  show ?thesis
  proof (cases "fd \<le> 0")
    case False
    obtain sv where "add_select_client_uart Gesture_Port fd ?p = Some (0, ?p\<lparr>uart_server := sv\<rparr>)" "select_inv f sv"
      "set (clients sv) = insert Gesture_Port (set (clients (uart_server p)))" "runing sv = runing (uart_server p)"
      using add_port [of f ?p Gesture_Port fd] assms False by auto
    with v False show ?thesis
      by (intro exI [of _ "?p\<lparr>uart_server := sv\<rparr>"]) (auto simp: gesture_uart_start_def)
  qed (use v assms in \<open>simp add: gesture_uart_start_def\<close>)
qed

text \<open>After the start, the clients are the ports that are open.\<close>

definition with_ports :: "int \<Rightarrow> int \<Rightarrow> 'db world \<Rightarrow> 'db world" where
  "with_ports fd1 fd2 w = w\<lparr>ecb := (ecb w)\<lparr>ecb_fd := fd1\<rparr>, gesture := (gesture w)\<lparr>gesture_fd := fd2\<rparr>\<rparr>"

lemma with_ports_simps [simp]:
  "uds (with_ports fd1 fd2 w) = uds w" "linkkit (with_ports fd1 fd2 w) = linkkit w" "ecb_fd (ecb (with_ports fd1 fd2 w)) = fd1"
  "gesture_fd (gesture (with_ports fd1 fd2 w)) = fd2" "link_ok (with_ports fd1 fd2 w) \<longleftrightarrow> link_ok w"
  "buffers_ok (with_ports fd1 fd2 w) \<longleftrightarrow> buffers_ok w"
  by (simp_all add: with_ports_def buffers_ok_def)

lemma uart_start_total:
  assumes "uart_server p = select_server_zero" and "\<not> select_uart_timeout p" and "ports_ok fd1 fd2"
  shows "\<exists>q. uart_task_start env fd1 fd2 p = Some q \<and> serial_inv q \<and> calm (with_ports fd1 fd2 (board p)) (board q) \<and>
    set (clients (uart_server q)) = {port. 0 < uart_port_fd (board q) port} \<and> runing (uart_server q) = 1 \<and>
    (select_uart_timeout q \<longleftrightarrow> 0 < fd1)"
proof -
  let ?p = "p\<lparr>uart_server := select_server_init select_server_zero\<rparr>"
  let ?f = "\<lambda>port. case port of Ecb_Port \<Rightarrow> fd1 | Gesture_Port \<Rightarrow> fd2"
  have p: "select_inv ?f (uart_server ?p)" "clients (uart_server ?p) = []" "\<not> select_uart_timeout ?p"
    "runing (uart_server ?p) = 1"
    using assms(2) by (simp_all add: zero_inv zero_clients) (simp add: select_server_init_def)
  have start: "uart_task_start env fd1 fd2 p = do { q \<leftarrow> ecb_uart_start env fd1 ?p; gesture_uart_start env fd2 q }"
    by (simp add: uart_task_start_def assms(1))
  obtain q where q: "ecb_uart_start env fd1 ?p = Some q" "calm ((board p)\<lparr>ecb := (ecb (board p))\<lparr>ecb_fd := fd1\<rparr>\<rparr>) (board q)"
    "select_inv ?f (uart_server q)" "set (clients (uart_server q)) = {port. port = Ecb_Port \<and> 0 < fd1}"
    "runing (uart_server q) = 1" "select_uart_timeout q \<longleftrightarrow> 0 < fd1"
    using ecb_start_total [OF p(1,2), of fd1 env] assms(3) p(3,4) by (auto simp: ports_ok_def)
  obtain r where r: "gesture_uart_start env fd2 q = Some r"
    "calm ((board q)\<lparr>gesture := (gesture (board q))\<lparr>gesture_fd := fd2\<rparr>\<rparr>) (board r)" "select_inv ?f (uart_server r)"
    "set (clients (uart_server r)) = {port. port = Ecb_Port \<and> 0 < fd1} \<union> {port. port = Gesture_Port \<and> 0 < fd2}"
    "runing (uart_server r) = 1" "select_uart_timeout r \<longleftrightarrow> 0 < fd1"
    using gesture_start_total [OF q(3), of fd2 env] assms(3) q(4-6) by (auto simp: ports_ok_def)
  have c: "calm (with_ports fd1 fd2 (board p)) (board r)"
    using q(2) r(2) by (auto simp: calm_def with_ports_def buffers_ok_def)
  then have fds: "uart_port_fd (board r) = ?f" by (auto simp: calm_def uart_port_fd_def fun_eq_iff split: uart_port.split)
  have cl: "set (clients (uart_server r)) = {port. 0 < uart_port_fd (board r) port}"
  proof (rule set_eqI)
    fix port show "port \<in> set (clients (uart_server r)) \<longleftrightarrow> port \<in> {port. 0 < uart_port_fd (board r) port}"
      unfolding r(4) by (cases port) (simp_all add: fds)
  qed
  have "fd_ok (?f port)" if "0 < ?f port" for port
    using that assms(3) by (cases port) (simp_all add: ports_ok_def fd_ok_def)
  then have "serial_inv r" using r(3) by (simp add: serial_inv_def fds cl)
  with start q(1) r c cl show ?thesis by simp
qed

lemma uart_turns_total:
  assumes "link_ok (board p)" and "serial_inv p"
  shows "\<exists>q. foldM uart_turn turns p = Some q \<and> (serial_inv q \<and> calm (board p) (board q))"
proof (rule foldM_total)
  show "serial_inv p \<and> calm (board p) (board p)" using assms(2) by simp
  show "\<exists>r. uart_turn t q = Some r \<and> serial_inv r \<and> calm (board p) (board r)"
    if "serial_inv q \<and> calm (board p) (board q)" for t q
  proof -
    have b: "link_ok (board q)" and i: "serial_inv q" using that assms(1) calm_link by blast+
    obtain r where r: "uart_turn t q = Some r" using uart_turn_total [OF b i] by blast
    show ?thesis using uart_turn_inv [OF r link_buffers [OF b]] that r calm_trans by blast
  qed
qed

section \<open>Property\<close>



end
