(* ===== verification/X50_Profile.thy ===== *)
theory X50_Profile
  imports X50_Cloud_Frame X50_Cloud_Task
begin

text \<open>
  What the profile promises about the device record, which reports of the power board keep, and the one
  kind of attribute whose report reads a table: the state of multi-stage cooking.
\<close>

section \<open>The types of the record\<close>

text \<open>The texts fit into the fields of \<open>cloud_dev_t\<close>, and a value has the length the profile gives it.\<close>

definition attr_typed :: "cloud_attr \<Rightarrow> bool" where
  "attr_typed a \<longleftrightarrow> length (cloud_key a) < 33 \<and>
     map_option length (attr_value a) = (if uart_byte_len a = 0 then None else Some (unat (uart_byte_len a)))"

definition dev_typed :: "cloud_dev \<Rightarrow> bool" where
  "dev_typed d \<longleftrightarrow> length (product_key d) < 33 \<and> length (product_secret d) < 33 \<and> length (device_name d) < 33 \<and>
     length (device_secret d) < 33 \<and> length (device_category d) < 33 \<and> length (device_model d) < 16 \<and>
     length (after_sales_phone d) < 16 \<and> length (hardware_ver d) < 6 \<and> length (software_ver d) < 6 \<and>
     length (update_log d) < 1024 \<and> length (remind d) = 3 \<and> (\<forall>a \<in> set (attrs d). attr_typed a)"

lemma item_text_length: "item_text n j = Some s \<Longrightarrow> length s < n"
  by (auto simp: item_text_def str_fits_def option_bind_Some_iff split: if_split_asm)

lemma attr_zero_typed: "attr_typed attr_zero"
  by (simp add: attr_typed_def attr_zero_def)

lemma attr_entry_typed: "attr_entry sub = Some a \<Longrightarrow> attr_typed a"
  by (auto simp: attr_entry_def attr_typed_def Let_def option_bind_Some_iff word_gt_0 dest!: item_text_length split: option.split_asm)

lemma profile_typed:
  assumes "cloud_parse_json env str = Some (Some d)"
  shows "dev_typed (d\<lparr>software_ver := ''1.0.7''\<rparr>)"
proof -
  have entries: "\<forall>a \<in> set as. attr_typed a"
    if "foldM (\<lambda>i as. case cJSON_GetArrayItem x i of None \<Rightarrow> Some (as @ [attr_zero])
        | Some sub \<Rightarrow> do { a \<leftarrow> attr_entry sub; Some (as @ [a]) }) is [] = Some as" for x "is" as
    by (rule foldM_invariant [OF that, where P = "\<lambda>as. \<forall>a \<in> set as. attr_typed a"])
      (auto simp: option_bind_Some_iff attr_zero_typed dest: attr_entry_typed split: option.split_asm)
  show ?thesis using assms
    by (auto simp: cloud_parse_json_def option_bind_Some_iff dev_typed_def cloud_dev_zero_def dest!: item_text_length entries
        split: option.split_asm if_split_asm)
qed

lemma quad_typed:
  "cloud_quad_parse_json env d str = Some (Some d') \<Longrightarrow> dev_typed d \<Longrightarrow> dev_typed d'"
  by (auto simp: cloud_quad_parse_json_def option_bind_Some_iff dev_typed_def dest!: item_text_length split: option.split_asm)

text \<open>What a successful start has read.\<close>

lemma cloud_init_parts:
  assumes "cloud_init env v = Some (r, Some v')"
  shows "\<exists>str d d'. cloud_parse_json env str = Some (Some d) \<and> v' = v\<lparr>g_cloud_dev := d'\<rparr> \<and>
    (d' = d\<lparr>software_ver := ''1.0.7''\<rparr> \<or> (\<exists>q. cloud_quad_parse_json env (d\<lparr>software_ver := ''1.0.7''\<rparr>) q = Some (Some d')))"
proof -
  obtain str where str: "get_dev_profile env ''.'' ''DevProfile'' = Some str"
    using assms by (cases "get_dev_profile env ''.'' ''DevProfile''") (simp_all add: cloud_init_def)
  obtain d where d: "cloud_parse_json env str = Some (Some d)"
    using assms str by (cases "cloud_parse_json env str"; cases "the (cloud_parse_json env str)") (simp_all add: cloud_init_def)
  let ?d = "d\<lparr>software_ver := ''1.0.7''\<rparr>"
  have "(\<exists>d'. v' = v\<lparr>g_cloud_dev := d'\<rparr> \<and> (d' = ?d \<or> (\<exists>q. cloud_quad_parse_json env ?d q = Some (Some d'))))"
  proof (cases "get_dev_profile env ''.'' ''DevQuad''")
    case None
    with assms str d show ?thesis by (auto simp: cloud_init_def)
  next
    case (Some q)
    obtain quad where quad: "cloud_quad_parse_json env ?d q = Some quad"
      using assms str d Some by (cases "cloud_quad_parse_json env ?d q") (simp_all add: cloud_init_def)
    show ?thesis using assms str d Some quad by (cases quad) (auto simp: cloud_init_def)
  qed
  with d show ?thesis by blast
qed

lemma load_typed: "cloud_init env w = Some (r, Some w') \<Longrightarrow> dev_typed (g_cloud_dev w')"
  by (auto dest!: cloud_init_parts profile_typed dest: quad_typed)

text \<open>Whether an attribute is typed can be seen from its layout, which a report keeps.\<close>

lemma typed_layout: "attr_layout a = attr_layout b \<Longrightarrow> attr_typed a \<longleftrightarrow> attr_typed b"
  by (simp add: attr_layout_def attr_typed_def)

lemma reports_rel:
  assumes "foldM (\<lambda>(env, val, n). send_data_to_cloud env val n) rs w = Some w'"
  shows "report_rel w w'"
  by (rule foldM_invariant [OF assms, where P = "report_rel w"]) (auto dest: send_data_frame intro: report_rel_trans)

section \<open>A sample profile\<close>

text \<open>A profile of three numbers, in a file as the program reads it.\<close>

definition sample_attrs :: json where
  "sample_attrs = JArr [
     JObj [(''cloudKey'', JStr ''HoodSpeed''), (''valueType'', JNum 0), (''uartCmd'', JNum 49), (''uartByteLen'', JNum 1)],
     JObj [(''cloudKey'', JStr ''ErrorCode''), (''valueType'', JNum 0), (''uartCmd'', JNum 10), (''uartByteLen'', JNum 4)],
     JObj [(''cloudKey'', JStr ''ErrorCodeShow''), (''valueType'', JNum 0), (''uartCmd'', JNum 11), (''uartByteLen'', JNum 1)]]"

definition sample_profile :: json where
  "sample_profile = JObj [(''DeviceCategory'', JStr ''X50''), (''DeviceModel'', JStr ''X50C''), (''AfterSalesPhone'', JStr ''400''),
     (''HardwareVer'', JStr ''1.0''), (''UpdateLog'', JStr []), (''attr'', sample_attrs)]"

definition sample_env :: "unit env" where
  "sample_env = (env_of null_engine)
     \<lparr>env_file := (\<lambda>f. if f = ''./DevProfile.json'' then Some (cJSON_PrintUnformatted sample_profile) else None)\<rparr>"

definition loaded_dev :: cloud_dev where
  "loaded_dev = cloud_dev_zero\<lparr>device_category := ''X50'', device_model := ''X50C'', after_sales_phone := ''400'',
     hardware_ver := ''1.0'', software_ver := ''1.0.7'', attrs := [
       \<lparr>cloud_key = ''HoodSpeed'', cloud_value_type = 0, cloud_fun_type = 0, uart_cmd = 49, uart_byte_len = 1, attr_value = Some [0]\<rparr>,
       \<lparr>cloud_key = ''ErrorCode'', cloud_value_type = 0, cloud_fun_type = 0, uart_cmd = 10, uart_byte_len = 4, attr_value = Some [0, 0, 0, 0]\<rparr>,
       \<lparr>cloud_key = ''ErrorCodeShow'', cloud_value_type = 0, cloud_fun_type = 0, uart_cmd = 11, uart_byte_len = 1, attr_value = Some [0]\<rparr>]\<rparr>"

lemma sample_parse: "cJSON_Parse (cJSON_PrintUnformatted sample_profile) = Some sample_profile"
  using parse_print [of sample_profile "[]"]
  by (simp add: sample_profile_def sample_attrs_def INT_MAX_def INT_MIN_def CJSON_NESTING_LIMIT_def)

lemma sample_files:
  "get_dev_profile sample_env ''.'' ''DevProfile'' = Some (cJSON_PrintUnformatted sample_profile)"
  "get_dev_profile sample_env ''.'' ''DevQuad'' = None" "get_dev_profile sample_env ''.'' RECIPES_FILE = None"
proof -
  have "cJSON_PrintUnformatted sample_profile \<noteq> []" by (simp add: sample_profile_def)
  then show "get_dev_profile sample_env ''.'' ''DevProfile'' = Some (cJSON_PrintUnformatted sample_profile)"
    "get_dev_profile sample_env ''.'' ''DevQuad'' = None" "get_dev_profile sample_env ''.'' RECIPES_FILE = None"
    by (simp_all add: get_dev_profile_def sample_env_def RECIPES_FILE_def)
qed

lemma sample_items:
  "cJSON_GetObjectItem (Some sample_profile) ''DeviceCategory'' = Some (JStr ''X50'')"
  "cJSON_GetObjectItem (Some sample_profile) ''DeviceModel'' = Some (JStr ''X50C'')"
  "cJSON_GetObjectItem (Some sample_profile) ''AfterSalesPhone'' = Some (JStr ''400'')"
  "cJSON_GetObjectItem (Some sample_profile) ''HardwareVer'' = Some (JStr ''1.0'')"
  "cJSON_GetObjectItem (Some sample_profile) ''UpdateLog'' = Some (JStr [])"
  "cJSON_GetObjectItem (Some sample_profile) ''attr'' = Some sample_attrs" "cJSON_GetArraySize (Some sample_attrs) = 3"
  by code_simp+

lemma sample_entries:
  "foldM (\<lambda>i as. case cJSON_GetArrayItem (Some sample_attrs) i of
      None \<Rightarrow> Some (as @ [attr_zero])
    | Some sub \<Rightarrow> do { a \<leftarrow> attr_entry sub; Some (as @ [a]) }) [0..<3] [] = Some (attrs loaded_dev)"
  by code_simp

lemma sample_load: "cloud_init sample_env w = Some (-1, Some (w\<lparr>g_cloud_dev := loaded_dev\<rparr>))"
  by (simp add: cloud_init_def sample_files cloud_parse_json_def sample_parse sample_items sample_entries item_text_def str_fits_def)
    (simp add: loaded_dev_def cloud_dev_zero_def)

section \<open>The state of multi-stage cooking\<close>

text \<open>A struct attribute of three bytes: the number of stages, the current one, and whether its reminder is
  due, in which case the text of the stage is reported with it.\<close>

definition stage_attr :: "nat \<Rightarrow> 'db world \<Rightarrow> bool" where
  "stage_attr j w \<longleftrightarrow> attr_of_cmd UART_CMD_MULTISTAGE_STATE w = Some j \<and>
     (let a = attr_at w j in cloud_value_type a = LINK_VALUE_TYPE_STRUCT \<and> reportable a \<and> cloud_key a \<noteq> ''MultiMode'' \<and>
        uart_byte_len a = 3 \<and> map_option length (attr_value a) = Some 3) \<and>
     length (remind (g_cloud_dev w)) = 3"

definition stage_json :: "byte \<Rightarrow> byte \<Rightarrow> byte \<Rightarrow> string \<Rightarrow> json" where
  "stage_json cnt current alert text = JObj [(''cnt'', JNum (int (unat cnt))), (''current'', JNum (int (unat current))),
     (''remind'', JNum (int (unat alert))), (''RemindText'', JStr text)]"

lemma stage_attr_parts:
  assumes "stage_attr j w"
  shows "j < attr_len w" "uart_cmd (attr_at w j) = UART_CMD_MULTISTAGE_STATE" "cloud_value_type (attr_at w j) = LINK_VALUE_TYPE_STRUCT"
    "reportable (attr_at w j)" "cloud_key (attr_at w j) \<noteq> ''MultiMode''" "uart_byte_len (attr_at w j) = 3"
    "\<exists>m. attr_value (attr_at w j) = Some m \<and> length m = 3" "length (remind (g_cloud_dev w)) = 3"
  using assms by (auto simp: stage_attr_def Let_def attr_of_cmd_def find_Some_iff)

lemma stage_item:
  assumes "stage_attr j w" and "w' = set_attr_at j ((attr_at w j)\<lparr>attr_value := Some [cnt, current, alert]\<rparr>) w"
  shows "report_item env j w' =
    (if alert \<noteq> 0 \<and> 3 \<le> unat current then None
     else Some (Some (stage_json cnt current alert (if alert \<noteq> 0 then remind (g_cloud_dev w) ! unat current else [])), w'))"
proof -
  note p = stage_attr_parts [OF assms(1)]
  have "attr_at w' j = (attr_at w j)\<lparr>attr_value := Some [cnt, current, alert]\<rparr>" "remind (g_cloud_dev w') = remind (g_cloud_dev w)"
    using p(1) by (simp_all add: assms(2) set_attr_at_def)
  with p show ?thesis
    by (simp add: report_item_def stage_json_def read_block_def rd_n_def rd_def cJSON_CreateObject_def Let_def)
qed

lemma stage_command:
  assumes "stage_attr j w"
  shows "send_data_to_cloud env (Some [UART_CMD_MULTISTAGE_STATE, cnt, current, alert]) 4 w =
    (if alert \<noteq> 0 \<and> 3 \<le> unat current then None
     else Some (snd (report_msg_all_platform
       (JObj [(cloud_key (attr_at w j), stage_json cnt current alert (if alert \<noteq> 0 then remind (g_cloud_dev w) ! unat current else []))])
       (set_attr_at j ((attr_at w j)\<lparr>attr_value := Some [cnt, current, alert]\<rparr>) w))))"
proof -
  let ?val = "[UART_CMD_MULTISTAGE_STATE, cnt, current, alert]" and ?bad = "alert \<noteq> 0 \<and> 3 \<le> unat current"
  let ?item = "stage_json cnt current alert (if alert \<noteq> 0 then remind (g_cloud_dev w) ! unat current else [])"
  define w2 where "w2 = set_attr_at j ((attr_at w j)\<lparr>attr_value := Some [cnt, current, alert]\<rparr>) w"
  note p = stage_attr_parts [OF assms]
  obtain m where m: "attr_value (attr_at w j) = Some m" "length m = 3" using p(7) by blast
  have e: "get_attr_report_event j v False w = Some w" for v
    using p(3) by (simp add: get_attr_report_event_def Let_def link_types)
  have a: "attr_at w2 j = (attr_at w j)\<lparr>attr_value := Some [cnt, current, alert]\<rparr>" using p(1) by (simp add: w2_def set_attr_at_def)
  have "reportable (attr_at w2 j)" using p(4) by (simp add: a reportable_def)
  then have v: "get_attr_report_value env j (JObj [], w2) =
      (if ?bad then None else Some (JObj [(cloud_key (attr_at w j), ?item)], w2))"
    by (simp add: get_attr_report_value_def stage_item [OF assms w2_def] a)
  have "rd_n ?val 1 3 = Some [cnt, current, alert]" "wr_n m 0 [cnt, current, alert] = Some [cnt, current, alert]"
    using m(2) by (simp_all add: rd_n_def wr_n_def)
  then have "report_command env ?val 0 j (JObj [], w) =
      (if ?bad then None else Some (3, JObj [(cloud_key (attr_at w j), ?item)], w2))"
    using p(5,6) m(1) a by (simp add: report_command_def e v flip: w2_def)
  moreover have "attr_of_cmd UART_CMD_MULTISTAGE_STATE w = Some j" using assms by (simp add: stage_attr_def)
  ultimately show ?thesis
    by (simp add: send_data_to_cloud_def cJSON_CreateObject_def report_loop.simps report_byte_def rd_def flip: w2_def)
qed

section \<open>Properties\<close>



text \<open>C36: The report of multi-stage cooking, three bytes with the number of stages, the current one and whether
  its reminder is due: the value is stored and reported with the text of the stage. But a board that reports
  a due reminder for a stage beyond the third makes the program read behind the three texts.\<close>

theorem stage_report:
  assumes "stage_attr j w"
  shows "send_data_to_cloud env (Some [UART_CMD_MULTISTAGE_STATE, cnt, current, alert]) 4 w =
    (if alert \<noteq> 0 \<and> 3 \<le> unat current then None
     else Some (snd (report_msg_all_platform
       (JObj [(cloud_key (attr_at w j), stage_json cnt current alert (if alert \<noteq> 0 then remind (g_cloud_dev w) ! unat current else []))])
       (set_attr_at j ((attr_at w j)\<lparr>attr_value := Some [cnt, current, alert]\<rparr>) w))))"
  by (rule stage_command [OF assms])

text \<open>The attribute as the profile of the product has it.\<close>

definition stage_dev :: cloud_dev where
  "stage_dev = cloud_dev_zero\<lparr>attrs := [\<lparr>cloud_key = ''MultiStageState'', cloud_value_type = 3, cloud_fun_type = 0, uart_cmd = 77,
     uart_byte_len = 3, attr_value = Some [0, 0, 0]\<rparr>]\<rparr>"

lemma stage_report_witness:
  "send_data_to_cloud (env_of null_engine) (Some [UART_CMD_MULTISTAGE_STATE, 4, 3, 1]) 4 (world_zero stage_dev ()) = None"
proof -
  have "stage_attr 0 (world_zero stage_dev ())"
    by (simp add: stage_attr_def attr_of_cmd_def world_zero_def stage_dev_def cloud_dev_zero_def reportable_def link_types
        UART_CMD_MULTISTAGE_STATE_def)
  from stage_report [OF this, of "env_of null_engine" 4 3 1] show ?thesis by simp
qed

section \<open>Setting the stages\<close>

lemma stage_attrs: "stage_bytes i sub w = Some (b, w') \<Longrightarrow> attrs (g_cloud_dev w') = attrs (g_cloud_dev w)"
  by (auto simp: stage_bytes_def Let_def option_bind_Some_iff set_remind_def split: option.split_asm if_split_asm)

lemma all_stage_attrs:
  assumes "all_stage_bytes item w = Some (bs, w')"
  shows "attrs (g_cloud_dev w') = attrs (g_cloud_dev w)"
proof -
  have "attrs (g_cloud_dev (snd (bs, w'))) = attrs (g_cloud_dev w)"
    by (rule foldM_invariant [OF assms [unfolded all_stage_bytes_def],
          where P = "\<lambda>s. attrs (g_cloud_dev (snd s)) = attrs (g_cloud_dev w)"])
      (auto simp: option_bind_Some_iff dest!: stage_attrs split: option.split_asm)
  then show ?thesis by simp
qed

lemma write_out_attrs: "write_out off bs w = Some w' \<Longrightarrow> attrs (g_cloud_dev w') = attrs (g_cloud_dev w)"
  by (auto simp: write_out_def option_bind_Some_iff)

lemma set_stages:
  assumes "cloud_value_type (attr_at w j) = LINK_VALUE_TYPE_STRUCT" and "uart_cmd (attr_at w j) = UART_CMD_MULTISTAGE_SET"
    and "j < attr_len w" and "cJSON_GetArraySize (Some item) = n" and "0 < n" and "n \<le> 21"
    and "get_attr_set_value j item off w = Some (k, w')"
  shows "k = n * 12 + 2 \<and> attrs (g_cloud_dev w') = (attrs (g_cloud_dev w))[j := (attr_at w j)\<lparr>uart_byte_len := byte_of_nat (n * 12 + 1)\<rparr>]"
proof -
  let ?a = "(attr_at w j)\<lparr>uart_byte_len := byte_of_nat (n * 12 + 1)\<rparr>"
  let ?w1 = "set_attr_at j ?a w"
  obtain bs w2 w3 where w2: "all_stage_bytes item ?w1 = Some (bs, w2)"
    and w3: "write_out (off + 1) (byte_of_nat n # bs) w2 = Some w3"
    and d: "set_done j off (if cloud_key (attr_at w j) = ''MultiStageContent'' then set_remind (replicate 3 []) w3 else w3) = Some (k, w')"
    using assms by (auto simp: get_attr_set_value_def Let_def option_bind_Some_iff)
  have "attrs (g_cloud_dev w3) = attrs (g_cloud_dev ?w1)" using write_out_attrs [OF w3] all_stage_attrs [OF w2] by simp
  then have a: "attrs (g_cloud_dev w3) = (attrs (g_cloud_dev w))[j := ?a]" by (simp add: set_attr_at_def)
  have "unat (byte_of_nat (n * 12 + 1)) = n * 12 + 1" using assms(6) by (intro unat_byte_of_nat_small) simp
  with d a assms(3) show ?thesis
    by (auto simp: set_done_def option_bind_Some_iff set_remind_def dest!: write_out_attrs split: if_split_asm)
qed

text \<open>C16: Setting \<open>n\<close> stages makes the length of the attribute that of the command, while its value keeps the
  size the profile gave it. When the command is longer than that, the next report of the attribute writes
  behind the value.\<close>

theorem stages_outgrow_value:
  assumes "cloud_value_type (attr_at w j) = LINK_VALUE_TYPE_STRUCT" and "uart_cmd (attr_at w j) = UART_CMD_MULTISTAGE_SET"
    and "j < attr_len w" and "cJSON_GetArraySize (Some item) = n" and "n \<le> 21"
    and "attr_value (attr_at w j) = Some m" and "length m < n * 12 + 1" and "0 < n"
    and "get_attr_set_value j item off w = Some (k, w')"
  shows "k = n * 12 + 2 \<and> unat (uart_byte_len (attr_at w' j)) = n * 12 + 1 \<and> attr_value (attr_at w' j) = Some m \<and>
    report_command env val i j (root, w') = None"
proof -
  from set_stages [OF assms(1-4,8,5,9)] have k: "k = n * 12 + 2"
    and a: "attr_at w' j = (attr_at w j)\<lparr>uart_byte_len := byte_of_nat (n * 12 + 1)\<rparr>" using assms(3) by simp_all
  have len: "unat (byte_of_nat (n * 12 + 1)) = n * 12 + 1" using assms(5) by (intro unat_byte_of_nat_small) simp
  then have "byte_of_nat (n * 12 + 1) \<noteq> 0" by (metis add_is_0 one_neq_zero unat_0)
  moreover have "wr_n m 0 bs = None" if "rd_n val (i + 1) (n * 12 + 1) = Some bs" for bs
    using rd_n_length [OF that] assms(7) by (simp add: wr_n_def)
  moreover have "get_attr_report_event j v False w' = Some w'" for v
    using assms(1) by (simp add: get_attr_report_event_def Let_def link_types a)
  ultimately have "report_command env val i j (root, w') = None"
    using assms(6) len by (auto simp: report_command_def a bind_eq_None_conv)
  with k a len assms(6) show ?thesis by simp
qed

text \<open>Two stages, of which only the required fields are given, and the attribute of the shipped profile.\<close>

definition stages_dev :: cloud_dev where
  "stages_dev = cloud_dev_zero\<lparr>attrs := [\<lparr>cloud_key = ''CookbookParam'', cloud_value_type = 3, cloud_fun_type = 2, uart_cmd = 76,
     uart_byte_len = 13, attr_value = Some (replicate 13 0)\<rparr>]\<rparr>"

definition one_stage :: json where
  "one_stage = JObj [(''Mode'', JNum 1), (''Temp'', JNum 180), (''Timer'', JNum 30)]"

lemma stages_outgrow_value_witness:
  "\<exists>w'. get_attr_set_value 0 (JArr [one_stage, one_stage]) 0 (world_zero stages_dev ()) = Some (26, w') \<and>
    report_command (env_of null_engine) (replicate 30 0) 0 0 (JObj [], w') = None"
proof -
  let ?w = "world_zero stages_dev ()"
  have "\<exists>k w'. get_attr_set_value 0 (JArr [one_stage, one_stage]) 0 ?w = Some (k, w')"
    by (simp add: get_attr_set_value_def stages_dev_def one_stage_def world_zero_def cloud_dev_zero_def link_types
        UART_CMD_MULTISTAGE_SET_def cJSON_GetArraySize_def all_stage_bytes_def stage_bytes_def cJSON_GetArrayItem_def
        cJSON_GetObjectItem_def case_insensitive_eq_def tolower_def rd_def set_attr_at_def write_out_def wr_n_def set_done_def
        upt_rec Let_def)
  then obtain k w' where w': "get_attr_set_value 0 (JArr [one_stage, one_stage]) 0 ?w = Some (k, w')" by blast
  have "k = 26 \<and> report_command (env_of null_engine) (replicate 30 0) 0 0 (JObj [], w') = None"
    using stages_outgrow_value [OF _ _ _ _ _ _ _ _ w', of 2 "replicate 13 0" "env_of null_engine" "replicate 30 0" 0 "JObj []"]
    by (simp add: stages_dev_def world_zero_def cloud_dev_zero_def link_types UART_CMD_MULTISTAGE_SET_def cJSON_GetArraySize_def)
  with w' show ?thesis by blast
qed

end
