(* ===== verification/X50_Program.thy ===== *)
theory X50_Program
  imports X50_Main X50_Profile
begin

text \<open>
  The whole program as a step relation: turns of the serial task, turns of the task of the UI server, the
  callbacks of the cloud library, the timers and the WiFi library, and the end, in any order. The invariant
  of its reachable states.
\<close>

section \<open>A turn of the UI server\<close>

text \<open>What \<open>calm\<close> says apart from the tables of the server.\<close>

definition quiet :: "'db world \<Rightarrow> 'db world \<Rightarrow> bool" where
  "quiet w v \<longleftrightarrow> uart_port_fd v = uart_port_fd w \<and>
     (ota_resting (g_ota_state (linkkit w)) \<longrightarrow> ota_resting (g_ota_state (linkkit v))) \<and>
     (buffers_ok w \<longrightarrow> buffers_ok v) \<and> (link_ok w \<longrightarrow> link_ok v)"

lemma calm_quiet: "calm w v \<Longrightarrow> quiet w v"
  using calm_fds [of w v] by (simp add: quiet_def calm_def)

lemma quiet_trans: "quiet u v \<Longrightarrow> quiet v w \<Longrightarrow> quiet u w"
  by (simp add: quiet_def)

lemma quiet_cong:
  assumes "ecb v = ecb w" and "gesture v = gesture w" and "linkkit v = linkkit w" and "g_cloud_dev v = g_cloud_dev w"
  shows "quiet w v"
proof -
  have "link_ok v \<longleftrightarrow> link_ok w" "buffers_ok v \<longleftrightarrow> buffers_ok w" by (rule link_ok_cong buffers_ok_cong; simp add: assms)+
  then show ?thesis using assms by (auto simp: quiet_def uart_port_fd_def fun_eq_iff split: uart_port.split)
qed

lemma uds_updates_frame [simp]:
  "ecb (set_client i c w) = ecb w" "gesture (set_client i c w) = gesture w" "linkkit (set_client i c w) = linkkit w"
  "g_cloud_dev (set_client i c w) = g_cloud_dev w" "ecb (set_uds_select sv w) = ecb w" "gesture (set_uds_select sv w) = gesture w"
  "linkkit (set_uds_select sv w) = linkkit w" "g_cloud_dev (set_uds_select sv w) = g_cloud_dev w"
  by (simp_all add: set_client_def set_uds_select_def)

lemma uds_inv_cong: "uds v = uds w \<Longrightarrow> uds_inv v \<longleftrightarrow> uds_inv w"
  unfolding uds_inv_def uds_fd_of_def by simp

text \<open>A descriptor that \<open>accept\<close> returns is none the process has open, and below its limit of open files,
  which is the size of an \<open>fd_set\<close>.\<close>

definition net_ok :: "'db net \<Rightarrow> bool" where
  "net_ok net \<longleftrightarrow> (\<forall>w. net_accept net w = -1 \<or>
     0 < net_accept net w \<and> net_accept net w < 1024 \<and> net_accept net w \<notin> r_copy_fds (uds_select (uds w)))"

lemma add_client_parts:
  "app_add_tcp_select_client_event cfd w = Some (r, v) \<Longrightarrow>
    ecb v = ecb w \<and> gesture v = gesture w \<and> linkkit v = linkkit w \<and> g_cloud_dev v = g_cloud_dev w"
  unfolding app_add_tcp_select_client_event_def Let_def by (auto simp: option_bind_Some_iff split: if_split_asm)

lemma accept_quiet: "app_select_tcp_server_accetp_cb cfd again w = Some (r, v) \<Longrightarrow> quiet w v"
  by (rule quiet_cong; auto simp: app_select_tcp_server_accetp_cb_def option_bind_Some_iff split: if_split_asm
      dest!: add_client_parts)

lemma accept_inv:
  assumes "app_select_tcp_server_accetp_cb (net_accept net w) again w = Some (r, v)" and "net_ok net" and "uds_inv w"
  shows "uds_inv v"
proof (cases "net_accept net w = -1")
  case True
  then show ?thesis using assms(1,3) uds_inv_cong [of v w] by (auto simp: app_select_tcp_server_accetp_cb_def split: if_split_asm)
next
  case False
  then show ?thesis using assms(1,2) accept_step [OF assms(3), of "net_accept net w" again] by (auto simp: net_ok_def)
qed

lemma recv_quiet:
  assumes "app_select_tcp_server_recv_cb (uds_recv env) i n data buf w = Some (r, v)"
  shows "quiet w v"
proof (cases "n \<le> 0")
  case True
  then show ?thesis using assms by (intro quiet_cong) (auto simp: app_select_tcp_server_recv_cb_def Let_def option_bind_Some_iff)
next
  case False
  have "calm w v" using assms False
    by (auto simp: app_select_tcp_server_recv_cb_def Let_def option_bind_Some_iff dest: uds_recv_calm split: if_split_asm)
  then show ?thesis by (rule calm_quiet)
qed

lemma recv_inv:
  assumes "app_select_tcp_server_recv_cb (uds_recv env) i n data buf w = Some (r, v)" and "uds_inv w"
    and "Uds_Client i \<in> set (clients (uds_select (uds w)))" and "client_fd (uds_clients (uds w) ! i) < 1024"
  shows "uds_inv v"
proof (cases "n \<le> 0")
  case True
  have "Uds_Client i \<in> insert Uds_Server (Uds_Client ` {0..<SELECT_TCP_MAX_CLIENT})"
    using assms(2,3) unfolding uds_inv_def by blast
  then have i: "i < SELECT_TCP_MAX_CLIENT" by auto
  then have "client_fd (uds_clients (uds w) ! i) \<noteq> 0" using assms(2,3) by (simp add: uds_inv_def)
  moreover have "0 \<le> client_fd (uds_clients (uds w) ! i)"
    using assms(2,3) by (auto simp: uds_inv_def select_inv_def uds_fd_of_def)
  ultimately show ?thesis using client_gone [OF assms(2) i refl _ assms(4) True, of "uds_recv env" data buf] assms(1) by auto
next
  case False
  have "calm w v" using assms(1) False
    by (auto simp: app_select_tcp_server_recv_cb_def Let_def option_bind_Some_iff dest: uds_recv_calm split: if_split_asm)
  then show ?thesis using assms(2) uds_inv_cong [of v w] by (simp add: calm_def)
qed

lemma uds_owner_simps [simp]:
  "server_of (uds_owner env net) w = uds_select (uds w)" "set_server (uds_owner env net) = set_uds_select"
  "fd_of (uds_owner env net) = uds_fd_of" "write_cb (uds_owner env net) c = Some" "except_cb (uds_owner env net) c = Some"
  "error_cb (uds_owner env net) n = Some" "timeout_cb (uds_owner env net) = Some"
  by (simp_all add: uds_owner_def)

lemma uds_read_inv:
  assumes "read_cb (uds_owner env net) c w = Some v" and "net_ok net" and "uds_inv w"
    and "c \<in> set (clients (uds_select (uds w)))" and "uds_fd_of w c < 1024"
  shows "uds_inv v \<and> quiet w v"
proof (cases c)
  case Uds_Server
  then show ?thesis using assms accept_inv accept_quiet by (fastforce simp: uds_owner_def)
next
  case (Uds_Client i)
  obtain n data buf where i: "net_recv net i = (n, data, buf)" by (cases "net_recv net i")
  then obtain r where "app_select_tcp_server_recv_cb (uds_recv env) i n data buf w = Some (r, v)"
    using assms(1) Uds_Client by (auto simp: uds_owner_def)
  with recv_inv recv_quiet assms(3-5) Uds_Client show ?thesis by (fastforce simp: uds_fd_of_def)
qed

lemma uds_turn_inv:
  assumes "uds_turn env net ev w = Some v" and "net_ok net" and "uds_inv w"
  shows "uds_inv v \<and> quiet w v"
proof -
  obtain n ready where ev: "ev = (n, ready)" by (cases ev)
  let ?ow = "uds_owner env net" and ?sv = "uds_select (uds w)"
  let ?w = "set_uds_select (?sv\<lparr>rfds := r_copy_fds ?sv \<inter> ready\<rparr>) w"
  define step where "step = (\<lambda>i s. do {
         e \<leftarrow> rd (select_client_event (uds_select (uds s))) i;
         case e of None \<Rightarrow> Some s | Some c \<Rightarrow> select_client_fd_check ?ow c s })"
  let ?Q = "\<lambda>s. uds_inv s \<and> quiet w s"
  have Q0: "?Q ?w" using assms(3) quiet_cong [of ?w w] by (simp add: uds_inv_def select_inv_def clients_def)
  have check: "?Q s'" if "select_client_fd_check ?ow c s = Some s'" "?Q s" "Some c \<in> set (select_client_event (uds_select (uds s)))" for c s s'
  proof -
    have "s' = s \<or> uds_fd_of s c < 1024 \<and> read_cb ?ow c s = Some s'"
      using that(1) by (auto simp: select_client_fd_check_def option_bind_Some_iff FD_ISSET_def fd_ok_def split: if_split_asm)
    then show ?thesis
    proof
      assume r: "uds_fd_of s c < 1024 \<and> read_cb ?ow c s = Some s'"
      have "c \<in> set (clients (uds_select (uds s)))" using that(3) by (simp add: set_clients)
      then have "uds_inv s' \<and> quiet s s'" using uds_read_inv r that(2) assms(2) by metis
      with that(2) quiet_trans [of w s s'] show ?thesis by simp
    qed (use that(2) in simp)
  qed
  have walk: "?Q s'" if "foldM step [0..<SELECT_MAX_CLIENT] ?w = Some s'" for s'
  proof (rule foldM_invariant [OF that, where P = ?Q])
    show "?Q ?w" by (rule Q0)
    show "?Q t'" if t: "?Q t" "step i t = Some t'" for i t t'
    proof -
      obtain e where e: "rd (select_client_event (uds_select (uds t))) i = Some e"
        "(case e of None \<Rightarrow> Some t | Some c \<Rightarrow> select_client_fd_check ?ow c t) = Some t'"
        using t(2) by (auto simp: step_def option_bind_Some_iff)
      show ?thesis
      proof (cases e)
        case (Some c)
        with e have "Some c \<in> set (select_client_event (uds_select (uds t)))" "select_client_fd_check ?ow c t = Some t'"
          by (auto simp: rd_def in_set_conv_nth split: if_split_asm)
        then show ?thesis using check t(1) by blast
      qed (use e t in simp)
    qed
  qed
  have "v = w \<or> ?Q v"
    using assms(1) walk Q0
    by (auto simp: uds_turn_def ev one_turn select_server_turn_def Let_def simp flip: step_def simp del: select_server_task.simps
        split: if_split_asm)
  then show ?thesis using assms(3) quiet_cong [of w w] by blast
qed

section \<open>The other threads\<close>

text \<open>What the cloud library, its OTA part and the timers call, from threads of their own. The surroundings
  are whatever they are at that moment.\<close>

inductive callback :: "'db world \<Rightarrow> 'db world \<Rightarrow> bool" where
  connected: "user_connected_event_handler env w = Some v \<Longrightarrow> callback w v"
| connect_fail: "callback w (user_connect_fail_event_handler env w)"
| disconnected: "callback w (user_disconnected_event_handler env w)"
| initialized: "callback w (user_initialized w)"
| property_set: "user_property_set_event_handler env request w = Some v \<Longrightarrow> callback w v"
| timestamp: "callback w (user_timestamp_reply_event_handler env t w)"
| fota: "user_fota_event_handler env type w = Some v \<Longrightarrow> callback w v"
| fota_version: "fota_event_handler version w = Some v \<Longrightarrow> callback w v"
| fota_module: "callback w (user_fota_module_event_handler type w)"
| cota: "callback w (user_cota_event_handler type w)"
| secret: "dynreg_device_secret env s w = Some v \<Longrightarrow> callback w v"
| dev_bind: "user_state_dev_bind env ev msg w = Some v \<Longrightarrow> callback w v"
| devrst: "callback w (linkkit_devrst_evt_handle received w)"
| wifi: "callback w (wiFiCallback env event w)"
| ota_timer: "ota_POSIXTimer_cb w = Some v \<Longrightarrow> callback w v"
| name_timer: "cook_name_POSIXTimer_cb w = Some v \<Longrightarrow> callback w v"
| gesture_timer: "callback w (gesture_POSIXTimer_cb env n w)"

lemma callback_calm: "callback w v \<Longrightarrow> calm w v"
  by (induction rule: callback.induct)
    (auto dest!: calm simp: user_connect_fail_event_handler_def user_disconnected_event_handler_def user_initialized_def
      user_timestamp_reply_event_handler_def linkkit_devrst_evt_handle_def)

text \<open>The cloud thread itself, up to its loop.\<close>

lemma retry_parts:
  "retry ms rs v = Some (r, v') \<Longrightarrow> uds v' = uds v \<and> ecb v' = ecb v \<and> gesture v' = gesture v \<and> linkkit v' = linkkit v \<and>
    g_cloud_dev v' = g_cloud_dev v"
  by (induction ms rs v rule: retry.induct) (auto split: if_split_asm)

lemma quad_defaults_attrs [simp]: "attrs (quad_defaults env d) = attrs d"
  by (simp add: quad_defaults_def Let_def split: option.split)

lemma cloud_task_parts:
  "cloud_task env opens connects v = Some v' \<Longrightarrow>
    uds v' = uds v \<and> ecb v' = ecb v \<and> gesture v' = gesture v \<and> g_ota_state (linkkit v') = g_ota_state (linkkit v) \<and>
    attrs (g_cloud_dev v') = attrs (g_cloud_dev v)"
  by (auto simp: cloud_task_def linkkit_init_meta_def linkkit_ota_init_def linkkit_main_start_def Let_def option_bind_Some_iff
      dest!: retry_parts)

lemma cloud_task_quiet:
  assumes "cloud_task env opens connects v = Some v'"
  shows "quiet v v'"
proof -
  note p = cloud_task_parts [OF assms]
  have "link_ok v' \<longleftrightarrow> link_ok v" "buffers_ok v' \<longleftrightarrow> buffers_ok v" by (rule link_ok_cong buffers_ok_cong; simp add: p)+
  with p show ?thesis by (auto simp: quiet_def uart_port_fd_def fun_eq_iff split: uart_port.split)
qed

section \<open>The program\<close>

text \<open>\<open>main\<close> loads the profile and the history and starts the threads; here the server of the UI is given the
  socket \<open>sfd\<close> before the serial task opens its ports. The cloud thread takes its time: reaching its loop,
  after all the attempts to connect, is a step of the program.\<close>

definition program_start :: "'db env \<Rightarrow> int \<Rightarrow> int \<Rightarrow> int \<Rightarrow> 'db \<Rightarrow> 'db program option" where
  "program_start env sfd fd1 fd2 db = do {
     w \<leftarrow> main_start env (world_zero cloud_dev_zero db);
     w \<leftarrow> uds_tcp_server_start sfd w;
     uart_task_start env fd1 fd2 ((program_zero w)\<lparr>running := True\<rparr>)
   }"

text \<open>A signal may end the program at any time; a select loop that has been told to stop then cleans up after
  itself.\<close>

inductive program_step :: "'db program \<Rightarrow> 'db program \<Rightarrow> bool" where
  serial: "uart_turn t p = Some p' \<Longrightarrow> program_step p p'"
| ui: "uds_turn env net ev (board p) = Some w \<Longrightarrow> net_ok net \<Longrightarrow> program_step p (p\<lparr>board := w\<rparr>)"
| cloud_start: "cloud_task env opens connects (board p) = Some w \<Longrightarrow> program_step p (p\<lparr>board := w\<rparr>)"
| cloud: "callback (board p) w \<Longrightarrow> program_step p (p\<lparr>board := w\<rparr>)"
| quit: "program_step p (main_quit p)"
| serial_end: "runing (uart_server p) = 0 \<Longrightarrow>
    program_step p (p\<lparr>board := gesture_uart_deinit (ecb_uart_deinit (board p))\<rparr>)"
| ui_end: "runing (uds_select (uds (board p))) = 0 \<Longrightarrow> program_step p (p\<lparr>board := uds_tcp_server_close (board p)\<rparr>)"

definition program_inv :: "'db program \<Rightarrow> bool" where
  "program_inv p \<longleftrightarrow> serial_inv p \<and> uds_inv (board p) \<and> buffers_ok (board p) \<and> ota_resting (g_ota_state (linkkit (board p)))"

text \<open>The board may change quietly, and the serial table not at all but for its flag and its copy of the set.\<close>

lemma program_inv_quiet:
  assumes "program_inv p" and "quiet (board p) w" and "uds_inv w" and "sv = (uart_server p)\<lparr>rfds := R, runing := r\<rparr>"
  shows "program_inv (p\<lparr>board := w, uart_server := sv\<rparr>)"
  using assms by (simp add: program_inv_def quiet_def serial_inv_def select_inv_def clients_def)

lemma program_inv_board:
  assumes "program_inv p" and "quiet (board p) w" and "uds_inv w"
  shows "program_inv (p\<lparr>board := w\<rparr>)"
  using assms by (simp add: program_inv_def quiet_def serial_inv_def)

lemma close_parts:
  "ecb (uds_tcp_server_close w) = ecb w" "gesture (uds_tcp_server_close w) = gesture w" "uds (uds_tcp_server_close w) = uds w"
  "linkkit (uds_tcp_server_close w) = linkkit w" "g_cloud_dev (uds_tcp_server_close w) = g_cloud_dev w"
  by (simp_all add: uds_tcp_server_close_def Let_def SELECT_TCP_MAX_CLIENT_def upt_rec)

lemma close_quiet: "quiet w (uds_tcp_server_close w)"
  by (rule quiet_cong) (simp_all add: close_parts)

lemma close_inv: "uds_inv w \<Longrightarrow> uds_inv (uds_tcp_server_close w)"
  by (simp add: uds_inv_cong [OF close_parts(3)])

lemma quit_inv:
  assumes "program_inv p"
  shows "program_inv (main_quit p) \<and> quiet (board p) (board (main_quit p))"
proof (cases "running p")
  case True
  let ?w = "cloud_deinit (uds_protocol_deinit (board p))"
  have w: "ecb ?w = ecb (board p)" "gesture ?w = gesture (board p)" "g_cloud_dev ?w = g_cloud_dev (board p)"
    "g_ota_state (linkkit ?w) = g_ota_state (linkkit (board p))"
    "uds ?w = uds (set_uds_select (select_server_deinit (uds_select (uds (board p)))) (board p))"
    by (simp_all add: cloud_deinit_def linkkit_close_def uds_protocol_deinit_def uds_tcp_server_task_deinit_def
        set_uds_select_def)
  have l: "link_ok ?w \<longleftrightarrow> link_ok (board p)" by (rule link_ok_cong) (simp_all add: w)
  have q: "quiet (board p) ?w"
    by (auto simp: quiet_def w l uart_port_fd_def fun_eq_iff buffers_ok_def split: uart_port.split)
  have "uds_inv ?w"
    using assms uds_inv_cong [OF w(5)] by (simp add: program_inv_def uds_inv_def select_inv_def clients_def select_server_deinit_def)
  with assms q True show ?thesis
    by (auto simp: main_quit_def uart_task_deinit_def program_inv_def quiet_def serial_inv_def select_server_deinit_def
        select_inv_def clients_def)
qed (use assms quiet_cong [of "board p" "board p"] in \<open>simp add: main_quit_def\<close>)

lemma step_inv:
  assumes "program_step p q" and "program_inv p"
  shows "program_inv q \<and> quiet (board p) (board q)"
  using assms
proof (cases rule: program_step.cases)
  case (serial t)
  have b: "buffers_ok (board p)" and i: "serial_inv p" and u: "uds_inv (board p)" using assms(2) by (simp_all add: program_inv_def)
  note l = uart_turn_inv [OF serial b i]
  have "uds_inv (board q)" using u l(2) uds_inv_cong [of "board q" "board p"] by (simp add: calm_def)
  with assms(2) l show ?thesis using calm_quiet [OF l(2)] by (auto simp: program_inv_def calm_def)
next
  case (ui env net ev w)
  from uds_turn_inv [OF ui(2,3)] assms(2) program_inv_board show ?thesis unfolding ui(1) by (auto simp: program_inv_def)
next
  case (cloud w)
  have "uds_inv w" using callback_calm [OF cloud(2)] assms(2) uds_inv_cong [of w "board p"] by (simp add: calm_def program_inv_def)
  then show ?thesis using program_inv_board [OF assms(2) calm_quiet [OF callback_calm [OF cloud(2)]]]
      calm_quiet [OF callback_calm [OF cloud(2)]] unfolding cloud(1) by simp
next
  case (cloud_start env opens connects w)
  have "uds_inv w" using cloud_task_parts [OF cloud_start(2)] assms(2) uds_inv_cong [of w "board p"] by (simp add: program_inv_def)
  then show ?thesis using program_inv_board [OF assms(2) cloud_task_quiet [OF cloud_start(2)]] cloud_task_quiet [OF cloud_start(2)]
    unfolding cloud_start(1) by simp
next
  case quit
  then show ?thesis using quit_inv [OF assms(2)] by simp
next
  case serial_end
  let ?w = "gesture_uart_deinit (ecb_uart_deinit (board p))"
  have "quiet (board p) ?w" by (rule quiet_cong) (simp_all add: gesture_uart_deinit_def ecb_uart_deinit_def)
  moreover have "uds_inv ?w"
    using assms(2) uds_inv_cong [of ?w "board p"] by (simp add: gesture_uart_deinit_def ecb_uart_deinit_def program_inv_def)
  ultimately show ?thesis using program_inv_board [OF assms(2)] unfolding serial_end(1) by simp
next
  case ui_end
  then show ?thesis using program_inv_board [OF assms(2) close_quiet close_inv] close_quiet assms(2)
    by (simp add: program_inv_def)
qed

lemma reachable_inv:
  assumes "program_step\<^sup>*\<^sup>* p q" and "program_inv p"
  shows "program_inv q \<and> quiet (board p) (board q)"
  using assms
proof (induction rule: rtranclp_induct)
  case base
  then show ?case using quiet_cong [of "board p" "board p"] by simp
next
  case (step q r)
  then show ?case using step_inv [OF step(2)] quiet_trans by blast
qed

section \<open>The start\<close>

lemma create_calm [calm]: "databse_create_table env t v = Some (rc, v') \<Longrightarrow> calm v v'"
  by (auto simp: databse_create_table_def option_bind_Some_iff) (metis calm_refl db_exec_calm snd_conv)

lemma insert_replace_calm [calm]: "insert_replace_row_to_table env t r v = Some (n, v') \<Longrightarrow> calm v v'"
  by (auto simp: insert_replace_row_to_table_def dest!: calm)

lemma recipes_calm [calm]:
  assumes "recipes_parse_json env str v = Some v'"
  shows "calm v v'"
proof -
  define step where "step attr = (\<lambda>i (r, w). case cJSON_GetArrayItem (Some attr) i of None \<Rightarrow> Some (r, w)
      | Some sub \<Rightarrow> do {
          r \<leftarrow> recipe_entry sub r;
          (_, w) \<leftarrow> insert_replace_row_to_table env RECIPE_TABLE_NAME r w;
          Some (r, w)
        })" for attr
  have step: "calm (snd s) (snd s')" if "step attr i s = Some s'" for attr i s s'
    using that by (auto simp: step_def option_bind_Some_iff dest!: calm split: option.split_asm prod.split_asm)
  have "v' = v \<or> (\<exists>attr n r. foldM (step attr) [0..<n] (recipes_zero, v) = Some (r, v'))"
    using assms unfolding recipes_parse_json_def step_def [symmetric]
    by (auto simp: option_bind_Some_iff split: option.split_asm if_split_asm)
  moreover have "calm v v'" if r: "foldM (step attr) is (recipes_zero, v) = Some (r, v')" for attr "is" r
  proof -
    have "calm v (snd (r, v'))"
      by (rule foldM_invariant [OF r, where P = "\<lambda>s. calm v (snd s)"]) (use step calm_trans in fastforce)+
    then show ?thesis by simp
  qed
  ultimately show ?thesis by auto
qed

lemma database_init_calm [calm]:
  assumes "database_init env v = Some (r, v')"
  shows "calm v v'"
proof -
  obtain a u b x where u: "databse_create_table env HISTORY_TABLE_NAME v = Some (a, u)"
    "databse_create_table env RECIPE_TABLE_NAME u = Some (b, x)"
    "(if b = 0 then case get_dev_profile env ''.'' RECIPES_FILE of None \<Rightarrow> Some x | Some str \<Rightarrow> recipes_parse_json env str x
      else Some x) = Some v'"
    using assms unfolding database_init_def by (simp only: option_bind_Some_iff split_paired_Ex case_prod_conv option.inject prod.inject) blast
  have "calm x v'" using u(3) by (auto split: if_split_asm option.split_asm dest: recipes_calm)
  with create_calm [OF u(1)] create_calm [OF u(2)] show ?thesis using calm_trans by blast
qed

lemma task_init_calm [calm]: "database_task_init env v = Some (r, v') \<Longrightarrow> calm v v'"
  by (auto simp: database_task_init_def select_from_table_def option_bind_Some_iff dest!: select_rows_calm
      simp: database_histroy_select_cb_def Let_def)

lemma protocol_init_calm [calm]: "uds_protocol_init env v = Some (r, v') \<Longrightarrow> calm v v'"
  by (auto simp: uds_protocol_init_def option_bind_Some_iff dest!: calm; blast intro: calm_trans)

text \<open>Before the threads run, the tables are empty, no port is open and nothing has been received.\<close>

definition at_start :: "'db world \<Rightarrow> bool" where
  "at_start w \<longleftrightarrow> uds w = uds (world_zero cloud_dev_zero (database w)) \<and> buffers_ok w \<and> ota_resting (g_ota_state (linkkit w))"

lemma start_cong:
  assumes "uds v = uds w" and "ecb v = ecb w" and "gesture v = gesture w" and "g_ota_state (linkkit v) = g_ota_state (linkkit w)"
    and "at_start w"
  shows "at_start v"
  using assms by (simp add: at_start_def buffers_ok_def world_zero_def)

lemma main_start_start:
  assumes "main_start env v = Some v'" and "at_start v"
  shows "at_start v'"
proof -
  obtain a u b where u: "uds_protocol_init env v = Some (a, u)" "cloud_init env u = Some (b, Some v')"
    using assms(1) by (auto simp: main_start_def option_bind_Some_iff)
  have "at_start u" using protocol_init_calm [OF u(1)] assms(2) by (simp add: calm_def at_start_def world_zero_def)
  with cloud_init_parts [OF u(2)] show ?thesis by (auto intro: start_cong)
qed

lemma uds_start_inv:
  assumes "at_start w" and "0 < fd" and "fd < 1024"
  shows "\<exists>v. uds_tcp_server_start fd w = Some v \<and> uds_inv v \<and> quiet w v"
proof -
  let ?sv = "\<lparr>rfds = {}, wfds = {}, efds = {}, r_copy_fds = {fd}, select_client_event = [Some Uds_Server, None, None],
       select_client_num = 1, maxfd = fd, runing = 1\<rparr>"
  let ?v = "w\<lparr>uds := \<lparr>uds_select = ?sv, uds_server_fd = fd, uds_clients = replicate 2 \<lparr>client_fd = 0, client_cb_set = False\<rparr>, g_seqid = 0\<rparr>\<rparr>"
  have run: "uds_tcp_server_start fd w = Some ?v"
    using assms by (cases w)
      (simp add: at_start_def uds_tcp_server_start_def world_zero_def select_server_zero_def select_server_init_def
        set_uds_select_def add_select_client_event_def SELECT_MAX_CLIENT_def find_idx.simps rd_def FD_SET_def fd_ok_def numeral_eq_Suc)
  have "uds_inv ?v"
    using assms(2) by (simp add: uds_inv_def select_inv_def clients_def map_filter_def uds_fd_of_def
        SELECT_MAX_CLIENT_def SELECT_TCP_MAX_CLIENT_def less_Suc_eq numeral_2_eq_2)
  with run show ?thesis using quiet_cong [of ?v w] by auto
qed

lemma program_start_inv:
  assumes "program_start env sfd fd1 fd2 db = Some p" and "ports_ok fd1 fd2" and "0 < sfd" and "sfd < 1024"
  shows "program_inv p"
proof -
  obtain u v where w: "main_start env (world_zero cloud_dev_zero db) = Some u" "uds_tcp_server_start sfd u = Some v"
    "uart_task_start env fd1 fd2 ((program_zero v)\<lparr>running := True\<rparr>) = Some p"
    using assms(1) by (auto simp: program_start_def option_bind_Some_iff)
  have "at_start (world_zero cloud_dev_zero db)"
    by (simp add: at_start_def buffers_ok_def rx_ok_def ota_resting_def world_zero_def)
  then have u: "at_start u" by (rule main_start_start [OF w(1)])
  have v: "uds_inv v" "quiet u v" using uds_start_inv [OF u assms(3,4)] w(2) by auto
  have p: "serial_inv p" "calm (with_ports fd1 fd2 v) (board p)"
    using uart_start_total [of "(program_zero v)\<lparr>running := True\<rparr>" fd1 fd2 env] assms(2) w(3) by (auto simp: program_zero_def)
  have "uds_inv (board p)" using v(1) p(2) uds_inv_cong [of "board p" v] by (simp add: calm_def)
  moreover have "buffers_ok (board p)" "ota_resting (g_ota_state (linkkit (board p)))"
    using u v(2) p(2) by (auto simp: at_start_def quiet_def calm_def)
  ultimately show ?thesis using p(1) by (simp add: program_inv_def)
qed

section \<open>A sample program\<close>

lemma sample_tables:
  "databse_create_table sample_env HISTORY_TABLE_NAME w = Some (0, w)" "databse_create_table sample_env RECIPE_TABLE_NAME w = Some (0, w)"
  by (cases w; simp add: databse_create_table_def create_table_def str_fits_def sample_env_def env_of_def null_engine_def
      db_exec_def HISTORY_TABLE_NAME_def RECIPE_TABLE_NAME_def)+

lemma sample_history: "historyList (history w) = [] \<Longrightarrow> database_task_init sample_env w = Some (0, w)"
  by (cases w; simp add: database_task_init_def select_from_table_def select_rows_def sql_select_def HISTORY_TABLE_NAME_def
      str_fits_def sample_env_def env_of_def null_engine_def db_run_def reportInsertHistory_def set_history_def sortHistory_def)

lemma sample_main: "main_start sample_env (world_zero cloud_dev_zero ()) = Some (world_zero loaded_dev ())"
proof -
  have "uds_protocol_init sample_env w = Some (0, w)" if "historyList (history w) = []" for w
    using that by (simp add: uds_protocol_init_def database_init_def sample_tables sample_files sample_history)
  from this [of "world_zero cloud_dev_zero ()"] show ?thesis
    by (simp add: main_start_def sample_load) (simp add: world_zero_def)
qed

lemma sample_link_ok: "link_ok (world_zero loaded_dev ())"
proof -
  have "number_table (world_zero loaded_dev ())" "distinct_cmds (world_zero loaded_dev ())"
    by (simp_all add: number_table_def table_layout_def loaded_dev_def world_zero_def attr_layout_def number_layout_def
        link_types distinct_cmds_def)
  then show ?thesis
    by (simp add: link_ok_def error_table_def table_layout_def rx_ok_def) (simp add: world_zero_def loaded_dev_def attr_layout_def)
qed

lemma sample_start: "\<exists>p. program_start sample_env 7 5 6 () = Some p \<and> link_ok (board p)"
proof -
  have "at_start (world_zero loaded_dev ())"
    by (simp add: at_start_def buffers_ok_def rx_ok_def ota_resting_def world_zero_def)
  from uds_start_inv [OF this, of 7] obtain v where v: "uds_tcp_server_start 7 (world_zero loaded_dev ()) = Some v"
    "quiet (world_zero loaded_dev ()) v" by auto
  obtain p where p: "uart_task_start sample_env 5 6 ((program_zero v)\<lparr>running := True\<rparr>) = Some p" "calm (with_ports 5 6 v) (board p)"
    using uart_start_total [of "(program_zero v)\<lparr>running := True\<rparr>" 5 6 sample_env]
    by (auto simp: program_zero_def ports_ok_def)
  have "link_ok (board p)" using v(2) p(2) sample_link_ok by (simp add: quiet_def calm_def)
  with v(1) p(1) show ?thesis by (simp add: program_start_def sample_main)
qed

section \<open>Property\<close>

text \<open>C1: The invariant of the whole program. Once it has started (on the ports it could open, with the UI
  socket \<open>sfd\<close>), every state that turns of the two select loops, callbacks of the cloud library, the timers
  and the WiFi library, and the quit handler can reach in any order keeps both select tables in step with
  the records of their clients, the receive buffers within their bounds, and the update at rest. When the
  profile consists of numbers, the serial task in such a state takes its next turn without a fault,
  whatever happens at its ports.\<close>

theorem program_invariant:
  assumes "program_start env sfd fd1 fd2 db = Some p" and "ports_ok fd1 fd2" and "0 < sfd" and "sfd < 1024"
    and "program_step\<^sup>*\<^sup>* p q"
  shows "serial_inv q \<and> uds_inv (board q) \<and> buffers_ok (board q) \<and> ota_resting (g_ota_state (linkkit (board q))) \<and>
    (link_ok (board p) \<longrightarrow> link_ok (board q) \<and> (\<forall>t. \<exists>q'. uart_turn t q = Some q'))"
proof -
  have q: "program_inv q" "quiet (board p) (board q)"
    using reachable_inv [OF assms(5) program_start_inv [OF assms(1-4)]] by simp_all
  then have "link_ok (board p) \<Longrightarrow> \<exists>q'. uart_turn t q = Some q'" for t
    using uart_turn_total [of q t] by (simp add: program_inv_def quiet_def)
  with q show ?thesis by (simp add: program_inv_def quiet_def)
qed

lemma program_invariant_witness:
  "\<exists>p q. program_start sample_env 7 5 6 () = Some p \<and> link_ok (board p) \<and>
    uart_turn (sample_env, \<lambda>_. (0, [0xe6, 0xe6]), 2, {5, 6}) p = Some q \<and>
    serial_inv (main_quit q) \<and> uds_inv (board (main_quit q)) \<and> buffers_ok (board (main_quit q)) \<and>
    ota_resting (g_ota_state (linkkit (board (main_quit q)))) \<and> link_ok (board (main_quit q))"
proof -
  obtain p where p: "program_start sample_env 7 5 6 () = Some p" "link_ok (board p)" using sample_start by blast
  have inv: "program_step\<^sup>*\<^sup>* p q \<Longrightarrow> serial_inv q \<and> uds_inv (board q) \<and> buffers_ok (board q) \<and>
      ota_resting (g_ota_state (linkkit (board q))) \<and> (link_ok (board p) \<longrightarrow> link_ok (board q) \<and> (\<forall>t. \<exists>q'. uart_turn t q = Some q'))" for q
    by (rule program_invariant [OF p(1)]) (simp_all add: ports_ok_def)
  obtain q where q: "uart_turn (sample_env, \<lambda>_. (0, [0xe6, 0xe6]), 2, {5, 6}) p = Some q" using inv [of p] p(2) by blast
  have "program_step\<^sup>*\<^sup>* p (main_quit q)" using program_step.serial [OF q] program_step.quit [of q] by (meson converse_rtranclp_into_rtranclp r_into_rtranclp)
  with inv p q show ?thesis by metis
qed

end
