(* ===== verification/X50_List.thy ===== *)
theory X50_List
  imports X50_Resend
begin

text \<open>
  The intrusive, circular, doubly linked list of \<open>liblinktool/tool/list.h\<close>, and the retransmission queue
  of \<open>uart/uart_resend.c\<close> as it lies in memory.

  The heap maps the addresses of the nodes in use to their two pointers, and those of the nodes that are
  part of a \<open>uart_resend_t\<close> also to its other fields; an address that is not mapped is free memory, and
  following a pointer to it is \<open>None\<close>. An entry and its node have one address here (\<open>container_of\<close>
  subtracts a constant), and the block of \<open>send_data\<close> belongs to its entry.

  \<open>X50_Resend\<close> has the same operations on plain lists; the theory shows that those here implement them.
\<close>

section \<open>Memory\<close>

type_synonym addr = nat

record list_head =
  next_ptr :: addr
  prev_ptr :: addr

record resend_heap =
  nodes :: "addr \<Rightarrow> list_head option"
  entries :: "addr \<Rightarrow> uart_resend option"

definition set_next :: "addr \<Rightarrow> addr \<Rightarrow> resend_heap \<Rightarrow> resend_heap option" where
  "set_next a v h = map_option (\<lambda>n. h\<lparr>nodes := (nodes h)(a \<mapsto> n\<lparr>next_ptr := v\<rparr>)\<rparr>) (nodes h a)"

definition set_prev :: "addr \<Rightarrow> addr \<Rightarrow> resend_heap \<Rightarrow> resend_heap option" where
  "set_prev a v h = map_option (\<lambda>n. h\<lparr>nodes := (nodes h)(a \<mapsto> n\<lparr>prev_ptr := v\<rparr>)\<rparr>) (nodes h a)"

definition next_of :: "resend_heap \<Rightarrow> addr \<Rightarrow> addr option" where
  "next_of h a = map_option next_ptr (nodes h a)"

definition prev_of :: "resend_heap \<Rightarrow> addr \<Rightarrow> addr option" where
  "prev_of h a = map_option prev_ptr (nodes h a)"

definition free :: "addr \<Rightarrow> resend_heap \<Rightarrow> resend_heap option" where
  "free a h = (case nodes h a of None \<Rightarrow> None
     | Some _ \<Rightarrow> Some (h\<lparr>nodes := (nodes h)(a := None), entries := (entries h)(a := None)\<rparr>))"

section \<open>\<open>list.h\<close>\<close>

definition LIST_POISON1 :: addr where "LIST_POISON1 = 0x00100100"
definition LIST_POISON2 :: addr where "LIST_POISON2 = 0x00200200"

definition INIT_LIST_HEAD :: "addr \<Rightarrow> resend_heap \<Rightarrow> resend_heap option" where
  "INIT_LIST_HEAD l h = do { h \<leftarrow> set_next l l h; set_prev l l h }"

definition list_add_between :: "addr \<Rightarrow> addr \<Rightarrow> addr \<Rightarrow> resend_heap \<Rightarrow> resend_heap option" where
  "list_add_between new_node prv nxt h = do {
     h \<leftarrow> set_prev nxt new_node h;
     h \<leftarrow> set_next new_node nxt h;
     h \<leftarrow> set_prev new_node prv h;
     set_next prv new_node h
   }"

definition list_add :: "addr \<Rightarrow> addr \<Rightarrow> resend_heap \<Rightarrow> resend_heap option" where
  "list_add new_node head h = do { nxt \<leftarrow> next_of h head; list_add_between new_node head nxt h }"

definition list_del_between :: "addr \<Rightarrow> addr \<Rightarrow> resend_heap \<Rightarrow> resend_heap option" where
  "list_del_between prv nxt h = do { h \<leftarrow> set_prev nxt prv h; set_next prv nxt h }"

definition list_del :: "addr \<Rightarrow> resend_heap \<Rightarrow> resend_heap option" where
  "list_del entry h = do {
     prv \<leftarrow> prev_of h entry;
     nxt \<leftarrow> next_of h entry;
     h \<leftarrow> list_del_between prv nxt h;
     h \<leftarrow> set_next entry LIST_POISON1 h;
     set_prev entry LIST_POISON2 h
   }"

section \<open>\<open>uart_resend.c\<close> on the heap\<close>

definition heap_list_init :: "addr \<Rightarrow> resend_heap \<Rightarrow> resend_heap option" where
  "heap_list_init head h = INIT_LIST_HEAD head h"

definition heap_list_add :: "addr \<Rightarrow> addr \<Rightarrow> resend_heap \<Rightarrow> resend_heap option" where
  "heap_list_add head node h = list_add node head h"

definition heap_list_del :: "addr \<Rightarrow> resend_heap \<Rightarrow> resend_heap option" where
  "heap_list_del ptr h = do { h \<leftarrow> list_del ptr h; free ptr h }"

text \<open>The loops go on until they are back at the head, which a damaged list never is.\<close>

partial_function (option) get_by_id_loop :: "addr \<Rightarrow> int \<Rightarrow> addr \<Rightarrow> resend_heap \<Rightarrow> addr option option" where
  "get_by_id_loop head i ptr h =
     (if ptr = head then Some None
      else do {
        p \<leftarrow> entries h ptr;
        j \<leftarrow> resend_seq_id p;
        if j = i then Some (Some ptr) else do { nxt \<leftarrow> next_of h ptr; get_by_id_loop head i nxt h }
      })"

definition heap_list_get_by_id :: "addr \<Rightarrow> int \<Rightarrow> resend_heap \<Rightarrow> addr option option" where
  "heap_list_get_by_id head i h = do { ptr \<leftarrow> next_of h head; get_by_id_loop head i ptr h }"

definition heap_list_del_by_id :: "addr \<Rightarrow> int \<Rightarrow> resend_heap \<Rightarrow> (int \<times> resend_heap) option" where
  "heap_list_del_by_id head i h = do {
     r \<leftarrow> heap_list_get_by_id head i h;
     case r of None \<Rightarrow> Some (-1, h) | Some ptr \<Rightarrow> do { h \<leftarrow> heap_list_del ptr h; Some (0, h) }
   }"

text \<open>The body of the loop of \<open>resend_list_each\<close>.\<close>

definition heap_each_body ::
  "32 word \<Rightarrow> (bytes \<Rightarrow> nat \<Rightarrow> 's \<Rightarrow> 's option) \<Rightarrow> addr \<Rightarrow> resend_heap \<times> 's \<Rightarrow> (resend_heap \<times> 's) option" where
  "heap_each_body current_tick cb ptr = (\<lambda>(h, s). do {
     p \<leftarrow> entries h ptr;
     (p, s) \<leftarrow>
       (if resend_cnt p \<noteq> 0 \<and> resend_tick_compare current_tick (wait_tick p) then do {
          let p = p\<lparr>wait_tick := resend_tick_set current_tick RESEND_WAIT_TICK, resend_cnt := resend_cnt p - 1\<rparr>;
          s \<leftarrow> (if resend_cb p then cb (send_data p) (send_len p) s else Some s);
          Some (p, s)
        }
        else Some (p, s));
     let h = h\<lparr>entries := (entries h)(ptr \<mapsto> p)\<rparr>;
     h \<leftarrow> (if resend_cnt p = 0 then heap_list_del ptr h else Some h);
     Some (h, s)
   })"

partial_function (option) heap_each_loop ::
  "32 word \<Rightarrow> (bytes \<Rightarrow> nat \<Rightarrow> 's \<Rightarrow> 's option) \<Rightarrow> addr \<Rightarrow> addr \<Rightarrow> addr \<Rightarrow> resend_heap \<times> 's \<Rightarrow> (resend_heap \<times> 's) option" where
  "heap_each_loop current_tick cb head ptr nxt hs =
     (if ptr = head then Some hs
      else do {
        hs \<leftarrow> heap_each_body current_tick cb ptr hs;
        nxt' \<leftarrow> next_of (fst hs) nxt;
        heap_each_loop current_tick cb head nxt nxt' hs
      })"

definition heap_list_each ::
  "32 word \<Rightarrow> (bytes \<Rightarrow> nat \<Rightarrow> 's \<Rightarrow> 's option) \<Rightarrow> addr \<Rightarrow> resend_heap \<times> 's \<Rightarrow> (resend_heap \<times> 's) option" where
  "heap_list_each current_tick cb head hs = do {
     ptr \<leftarrow> next_of (fst hs) head;
     nxt \<leftarrow> next_of (fst hs) ptr;
     heap_each_loop current_tick cb head ptr nxt hs
   }"

section \<open>Linked sequences of nodes\<close>

text \<open>Both directions of the links between neighbours of a sequence of addresses, on the two pointer
  fields as functions.\<close>

fun linked :: "(addr \<Rightarrow> addr option) \<Rightarrow> (addr \<Rightarrow> addr option) \<Rightarrow> addr list \<Rightarrow> bool" where
  "linked nx pv (x # y # as) \<longleftrightarrow> nx x = Some y \<and> pv y = Some x \<and> linked nx pv (y # as)"
| "linked nx pv as \<longleftrightarrow> True"

lemma linked_append: "linked nx pv (as @ x # bs) \<longleftrightarrow> linked nx pv (as @ [x]) \<and> linked nx pv (x # bs)"
proof (induction as)
  case (Cons a as)
  then show ?case by (cases as) auto
qed (cases bs, auto)

lemmas linked_left = linked_append [THEN iffD1, THEN conjunct1]
lemmas linked_right = linked_append [THEN iffD1, THEN conjunct2]

lemma linked_next_upd: "a \<notin> set (butlast as) \<Longrightarrow> linked (nx(a := v)) pv as = linked nx pv as"
  by (induction nx pv as rule: linked.induct) auto

lemma linked_prev_upd: "a \<notin> set (tl as) \<Longrightarrow> linked nx (pv(a := v)) as = linked nx pv as"
  by (induction nx pv as rule: linked.induct) auto

lemma linked_upds:
  assumes "linked nx pv as" and "{a, b} \<inter> set (butlast as) = {}" and "{c, d} \<inter> set (tl as) = {}"
  shows "linked (nx(a := v, b := v')) (pv(c := w, d := w')) as"
  using assms by (simp add: linked_next_upd linked_prev_upd)

lemma set_next_effect:
  assumes "a \<in> dom (nodes h)"
  shows "\<exists>h'. set_next a v h = Some h' \<and> next_of h' = (next_of h)(a \<mapsto> v) \<and> prev_of h' = prev_of h \<and>
    dom (nodes h') = dom (nodes h) \<and> entries h' = entries h"
  using assms by (auto simp: set_next_def next_of_def prev_of_def fun_eq_iff)

lemma set_prev_effect:
  assumes "a \<in> dom (nodes h)"
  shows "\<exists>h'. set_prev a v h = Some h' \<and> next_of h' = next_of h \<and> prev_of h' = (prev_of h)(a \<mapsto> v) \<and>
    dom (nodes h') = dom (nodes h) \<and> entries h' = entries h"
  using assms by (auto simp: set_prev_def next_of_def prev_of_def fun_eq_iff)

lemma list_add_effect:
  assumes "next_of h head = Some nxt" and "new_node \<in> dom (nodes h)" "head \<in> dom (nodes h)" "nxt \<in> dom (nodes h)"
  shows "\<exists>h'. list_add new_node head h = Some h' \<and>
    next_of h' = (next_of h)(new_node \<mapsto> nxt, head \<mapsto> new_node) \<and>
    prev_of h' = (prev_of h)(nxt \<mapsto> new_node, new_node \<mapsto> head) \<and>
    dom (nodes h') = dom (nodes h) \<and> entries h' = entries h"
proof -
  obtain h1 where 1: "set_prev nxt new_node h = Some h1" "next_of h1 = next_of h" "prev_of h1 = (prev_of h)(nxt \<mapsto> new_node)"
    "dom (nodes h1) = dom (nodes h)" "entries h1 = entries h" using set_prev_effect [OF assms(4), of new_node] by blast
  obtain h2 where 2: "set_next new_node nxt h1 = Some h2" "next_of h2 = (next_of h1)(new_node \<mapsto> nxt)" "prev_of h2 = prev_of h1"
    "dom (nodes h2) = dom (nodes h1)" "entries h2 = entries h1"
    using set_next_effect [of new_node h1 nxt] assms(2) unfolding 1(4) by blast
  obtain h3 where 3: "set_prev new_node head h2 = Some h3" "next_of h3 = next_of h2" "prev_of h3 = (prev_of h2)(new_node \<mapsto> head)"
    "dom (nodes h3) = dom (nodes h2)" "entries h3 = entries h2"
    using set_prev_effect [of new_node h2 head] assms(2) unfolding 1(4) 2(4) by blast
  obtain h4 where 4: "set_next head new_node h3 = Some h4" "next_of h4 = (next_of h3)(head \<mapsto> new_node)" "prev_of h4 = prev_of h3"
    "dom (nodes h4) = dom (nodes h3)" "entries h4 = entries h3"
    using set_next_effect [of head h3 new_node] assms(3) unfolding 1(4) 2(4) 3(4) by blast
  show ?thesis
    by (intro exI [of _ h4]) (simp add: list_add_def list_add_between_def assms(1) 1 2 3 4)
qed

lemma heap_list_del_effect:
  assumes "next_of h e = Some nxt" and "prev_of h e = Some prv"
    and "e \<in> dom (nodes h)" "prv \<in> dom (nodes h)" "nxt \<in> dom (nodes h)"
  shows "\<exists>h'. heap_list_del e h = Some h' \<and>
    next_of h' = (next_of h)(prv \<mapsto> nxt, e := None) \<and> prev_of h' = (prev_of h)(nxt \<mapsto> prv, e := None) \<and>
    dom (nodes h') = dom (nodes h) - {e} \<and> entries h' = (entries h)(e := None)"
proof -
  obtain h1 where 1: "set_prev nxt prv h = Some h1" "next_of h1 = next_of h" "prev_of h1 = (prev_of h)(nxt \<mapsto> prv)"
    "dom (nodes h1) = dom (nodes h)" "entries h1 = entries h" using set_prev_effect [OF assms(5), of prv] by blast
  obtain h2 where 2: "set_next prv nxt h1 = Some h2" "next_of h2 = (next_of h1)(prv \<mapsto> nxt)" "prev_of h2 = prev_of h1"
    "dom (nodes h2) = dom (nodes h1)" "entries h2 = entries h1"
    using set_next_effect [of prv h1 nxt] assms(4) unfolding 1(4) by blast
  obtain h3 where 3: "set_next e LIST_POISON1 h2 = Some h3" "next_of h3 = (next_of h2)(e \<mapsto> LIST_POISON1)" "prev_of h3 = prev_of h2"
    "dom (nodes h3) = dom (nodes h2)" "entries h3 = entries h2"
    using set_next_effect [of e h2 LIST_POISON1] assms(3) unfolding 1(4) 2(4) by blast
  obtain h4 where 4: "set_prev e LIST_POISON2 h3 = Some h4" "next_of h4 = next_of h3" "prev_of h4 = (prev_of h3)(e \<mapsto> LIST_POISON2)"
    "dom (nodes h4) = dom (nodes h3)" "entries h4 = entries h3"
    using set_prev_effect [of e h3 LIST_POISON2] assms(3) unfolding 1(4) 2(4) 3(4) by blast
  let ?h = "h4\<lparr>nodes := (nodes h4)(e := None), entries := (entries h4)(e := None)\<rparr>"
  have d: "dom (nodes h4) = dom (nodes h)" by (simp only: 1(4) 2(4) 3(4) 4(4))
  with assms(3) obtain n where "nodes h4 e = Some n" by auto
  then have f: "free e h4 = Some ?h" by (simp add: free_def)
  have "next_of ?h = (next_of h4)(e := None)" "prev_of ?h = (prev_of h4)(e := None)"
    by (auto simp: next_of_def prev_of_def fun_eq_iff)
  then show ?thesis
    by (intro exI [of _ ?h]) (simp add: heap_list_del_def list_del_def list_del_between_def assms(1,2) 1 2 3 4 f d)
qed

section \<open>The queue in memory\<close>

text \<open>The heap holds the queue \<open>ps\<close> at the addresses \<open>as\<close>, behind \<open>head\<close>, and nothing else: what an
  operation takes out of the queue it has freed.\<close>

definition queue_at :: "resend_heap \<Rightarrow> addr \<Rightarrow> addr list \<Rightarrow> uart_resend list \<Rightarrow> bool" where
  "queue_at h head as ps \<longleftrightarrow> distinct (head # as) \<and> linked (next_of h) (prev_of h) (head # as @ [head]) \<and>
     dom (nodes h) = set (head # as) \<and> dom (entries h) = set as \<and> map (entries h) as = map Some ps"

lemma links_entries [simp]:
  "next_of (h\<lparr>entries := m\<rparr>) = next_of h" "prev_of (h\<lparr>entries := m\<rparr>) = prev_of h"
  by (simp_all add: next_of_def prev_of_def fun_eq_iff)

lemma queue_next:
  assumes "queue_at h head as ps" and "head # as = us @ x # vs"
  shows "next_of h x = Some (hd (vs @ [head]))"
proof -
  have "linked (next_of h) (prev_of h) ((head # as) @ [head])" using assms(1) by (simp add: queue_at_def)
  then have "linked (next_of h) (prev_of h) (us @ x # vs @ [head])" unfolding assms(2) by simp
  then have "linked (next_of h) (prev_of h) (x # vs @ [head])" by (rule linked_right)
  then show ?thesis by (cases vs) simp_all
qed

lemma queue_prev:
  assumes "queue_at h head (us @ x # vs) ps"
  shows "prev_of h x = Some (last (head # us))"
proof -
  obtain ws y where w: "head # us = ws @ [y]" by (cases "head # us" rule: rev_cases) auto
  have "linked (next_of h) (prev_of h) ((head # us) @ x # vs @ [head])" using assms by (simp add: queue_at_def)
  then have "linked (next_of h) (prev_of h) (ws @ y # x # vs @ [head])" unfolding w by simp
  then have "linked (next_of h) (prev_of h) (y # x # vs @ [head])" by (rule linked_right)
  then show ?thesis unfolding w by simp
qed

lemma queue_length: "queue_at h head as ps \<Longrightarrow> length as = length ps"
  using map_eq_imp_length_eq [of "entries h" as Some ps] by (simp add: queue_at_def)

lemma queue_entry:
  "queue_at h head (us @ x # vs) (ps @ p # qs) \<Longrightarrow> length us = length ps \<Longrightarrow> entries h x = Some p"
  by (simp add: queue_at_def)

lemma queue_update:
  assumes "queue_at h head (us @ x # vs) (ps @ p # qs)" and "length us = length ps"
  shows "queue_at (h\<lparr>entries := (entries h)(x \<mapsto> p')\<rparr>) head (us @ x # vs) (ps @ p' # qs)"
proof -
  have "map ((entries h)(x \<mapsto> p')) (us @ x # vs) = map Some (ps @ p' # qs)"
    using assms by (simp add: queue_at_def)
  moreover have "insert x (dom (entries h)) = set (us @ x # vs)" using assms(1) by (simp add: queue_at_def)
  ultimately show ?thesis using assms(1) by (simp add: queue_at_def)
qed

lemma queue_delete:
  assumes q: "queue_at h head (us @ x # vs) (ps @ p # qs)" and "length us = length ps"
  obtains h' where "heap_list_del x h = Some h'" "queue_at h' head (us @ vs) (ps @ qs)"
proof -
  define prv nxt where "prv = last (head # us)" and "nxt = hd (vs @ [head])"
  obtain ws where ws: "head # us = ws @ [prv]"
    using append_butlast_last_id [of "head # us"] unfolding prv_def by (metis list.distinct(1))
  obtain zs where zs: "vs @ [head] = nxt # zs" unfolding nxt_def by (cases vs) simp_all
  have d: "distinct (head # us @ x # vs)" "dom (nodes h) = set (head # us @ x # vs)" using q by (simp_all add: queue_at_def)
  have l: "next_of h x = Some nxt" "prev_of h x = Some prv"
    using queue_next [OF q, of "head # us" x vs] queue_prev [OF q] unfolding prv_def nxt_def by simp_all
  have prv: "prv \<in> set (head # us)" unfolding ws by simp
  have nxt: "nxt \<in> set (vs @ [head])" unfolding zs by simp
  have in_dom: "x \<in> dom (nodes h)" "prv \<in> dom (nodes h)" "nxt \<in> dom (nodes h)" unfolding d(2) using prv nxt by auto
  obtain h' where h': "heap_list_del x h = Some h'"
    "next_of h' = (next_of h)(prv \<mapsto> nxt, x := None)" "prev_of h' = (prev_of h)(nxt \<mapsto> prv, x := None)"
    "dom (nodes h') = dom (nodes h) - {x}" "entries h' = (entries h)(x := None)"
    using heap_list_del_effect [OF l in_dom] by blast
  have "linked (next_of h) (prev_of h) ((head # us) @ x # vs @ [head])" using q by (simp add: queue_at_def)
  then have "linked (next_of h) (prev_of h) (ws @ prv # x # nxt # zs)" unfolding ws zs by simp
  then have parts: "linked (next_of h) (prev_of h) (ws @ [prv])" "linked (next_of h) (prev_of h) (nxt # zs)"
    using linked_left [of _ _ ws] linked_right [of _ _ "ws @ [prv, x]"] by auto
  have "tl (ws @ [prv]) = us" "distinct (ws @ [prv])" "x \<notin> set (ws @ [prv])"
    unfolding ws [symmetric] using d(1) by auto
  moreover have "nxt \<notin> set us" "x \<notin> set us" using d(1) nxt by auto
  ultimately have left: "linked (next_of h') (prev_of h') (ws @ [prv])"
    unfolding h' by (intro linked_upds [OF parts(1)]) auto
  have "butlast (nxt # zs) = vs" "distinct (nxt # zs)" "x \<notin> set (nxt # zs)"
    unfolding zs [symmetric] using d(1) by auto
  moreover have "prv \<notin> set vs" "x \<notin> set vs" using prv d(1) by auto
  ultimately have right: "linked (next_of h') (prev_of h') (nxt # zs)"
    unfolding h' by (intro linked_upds [OF parts(2)]) auto
  have "prv \<noteq> x" "nxt \<noteq> x" using prv nxt d(1) by auto
  with left right have "linked (next_of h') (prev_of h') (ws @ prv # nxt # zs)"
    by (subst linked_append) (simp add: h'(2,3))
  moreover have "ws @ prv # nxt # zs = head # (us @ vs) @ [head]"
    using ws zs by (metis append_Cons append_Nil append_assoc)
  moreover have "map (entries h') (us @ vs) = map Some (ps @ qs)"
    using q assms(2) unfolding h' by (auto simp: queue_at_def)
  ultimately have "queue_at h' head (us @ vs) (ps @ qs)"
    using q d unfolding queue_at_def h'(4,5) by (auto simp del: fun_upd_apply)
  then show thesis using h'(1) that by blast
qed

lemma queue_add:
  fixes n :: list_head and p :: uart_resend
  assumes q: "queue_at h head as ps" and a: "a \<notin> dom (nodes h)"
  defines "h1 \<equiv> h\<lparr>nodes := (nodes h)(a \<mapsto> n), entries := (entries h)(a \<mapsto> p)\<rparr>"
  shows "\<exists>h'. heap_list_add head a h1 = Some h' \<and> queue_at h' head (a # as) (p # ps)"
proof -
  obtain nxt zs where zs: "as @ [head] = nxt # zs" by (cases as) simp_all
  have d: "distinct (a # head # as)" "dom (nodes h) = set (head # as)" using q a by (auto simp: queue_at_def)
  have h1: "next_of h1 = (next_of h)(a \<mapsto> next_ptr n)" "prev_of h1 = (prev_of h)(a \<mapsto> prev_ptr n)"
    "dom (nodes h1) = insert a (dom (nodes h))" "entries h1 = (entries h)(a \<mapsto> p)"
    by (auto simp: h1_def next_of_def prev_of_def fun_eq_iff)
  have nxt: "nxt \<in> set (as @ [head])" unfolding zs by simp
  have "next_of h head = Some nxt" using queue_next [OF q, of "[]" head as] zs by simp
  then have l: "next_of h1 head = Some nxt" using d(1) by (simp add: h1)
  have "a \<in> dom (nodes h1)" "head \<in> dom (nodes h1)" "nxt \<in> dom (nodes h1)" using d(2) nxt by (auto simp: h1)
  from list_add_effect [OF l this] obtain h' where h': "heap_list_add head a h1 = Some h'"
    "next_of h' = (next_of h1)(a \<mapsto> nxt, head \<mapsto> a)" "prev_of h' = (prev_of h1)(nxt \<mapsto> a, a \<mapsto> head)"
    "dom (nodes h') = dom (nodes h1)" "entries h' = entries h1" unfolding heap_list_add_def by blast
  have "linked (next_of h) (prev_of h) ([head] @ nxt # zs)" using q zs by (simp add: queue_at_def)
  then have "linked (next_of h) (prev_of h) (nxt # zs)" by (rule linked_right)
  moreover have b: "butlast (nxt # zs) = as" "distinct (nxt # zs)" "a \<notin> set (nxt # zs)"
    unfolding zs [symmetric] using d(1) by auto
  ultimately have "linked (next_of h1) (prev_of h1) (nxt # zs)"
    by (simp add: h1 linked_next_upd linked_prev_upd d(1)) (use d(1) in \<open>auto simp: linked_next_upd linked_prev_upd\<close>)
  then have "linked (next_of h') (prev_of h') (nxt # zs)"
    unfolding h' by (rule linked_upds) (use b d(1) in auto)
  moreover have "head \<noteq> a" "nxt \<noteq> a" using d(1) b(3) by auto
  ultimately have "linked (next_of h') (prev_of h') (head # a # as @ [head])"
    unfolding zs by (simp add: h'(2,3))
  moreover have "map (entries h') (a # as) = map Some (p # ps)"
    using q d(1) by (auto simp: queue_at_def h' h1)
  moreover have "dom (entries h') = set (a # as)" using q by (simp add: queue_at_def h' h1)
  ultimately show ?thesis using h'(1) d by (auto simp: queue_at_def h'(4) h1(3) simp del: fun_upd_apply)
qed

lemma queue_init:
  assumes "dom (nodes h) = {head}" and "dom (entries h) = {}"
  shows "\<exists>h'. heap_list_init head h = Some h' \<and> queue_at h' head [] resend_list_init"
proof -
  obtain n where n: "nodes h head = Some n" using assms(1) by auto
  show ?thesis
    using assms by (simp add: heap_list_init_def INIT_LIST_HEAD_def set_next_def set_prev_def n queue_at_def
        next_of_def prev_of_def resend_list_init_def)
qed

lemma queue_get_by_id_from:
  assumes "queue_at h head (us @ vs) (ps @ qs)" and "length us = length ps"
  shows "get_by_id_loop head i (hd (vs @ [head])) h = map_option (map_option ((!) vs)) (resend_list_get_by_id qs i)"
  using assms
proof (induction vs arbitrary: us ps qs)
  case Nil
  then have "qs = []" using queue_length [OF Nil(1)] by simp
  then show ?case by (simp add: get_by_id_loop.simps)
next
  case (Cons v vs)
  obtain q qs' where qs: "qs = q # qs'" using queue_length [OF Cons.prems(1)] Cons.prems(2) by (cases qs) auto
  have "v \<noteq> head" using Cons.prems(1) by (auto simp: queue_at_def)
  moreover have "entries h v = Some q" using queue_entry Cons.prems qs by blast
  moreover have "next_of h v = Some (hd (vs @ [head]))"
    using queue_next [OF Cons.prems(1), of "head # us" v vs] by simp
  moreover have "get_by_id_loop head i (hd (vs @ [head])) h = map_option (map_option ((!) vs)) (resend_list_get_by_id qs' i)"
    by (rule Cons.IH [of "us @ [v]" "ps @ [q]"]) (use Cons.prems qs in simp_all)
  ultimately show ?case
    by (subst get_by_id_loop.simps) (auto simp: qs option.map_comp comp_def split: option.splits intro!: option.map_cong)
qed

lemma queue_get_by_id:
  assumes "queue_at h head as ps"
  shows "heap_list_get_by_id head i h = map_option (map_option ((!) as)) (resend_list_get_by_id ps i)"
  using queue_get_by_id_from [of h head "[]" as "[]" ps] queue_next [OF assms, of "[]" head as] assms
  by (simp add: heap_list_get_by_id_def)

lemma queue_del_by_id:
  assumes "queue_at h head as ps"
  shows "rel_option (\<lambda>(r, h') (r', ps'). r = r' \<and> (\<exists>as'. queue_at h' head as' ps'))
    (heap_list_del_by_id head i h) (resend_list_del_by_id ps i)"
proof (cases "resend_list_get_by_id ps i")
  case None
  then show ?thesis by (simp add: heap_list_del_by_id_def resend_list_del_by_id_def queue_get_by_id [OF assms])
next
  case (Some r)
  show ?thesis
  proof (cases r)
    case None
    with Some assms show ?thesis
      by (auto simp: heap_list_del_by_id_def resend_list_del_by_id_def queue_get_by_id [OF assms])
  next
    case k: (Some k)
    have k': "k < length ps" "length as = length ps" using get_by_id_Some Some k queue_length [OF assms] by auto
    then have "queue_at h head (take k as @ as ! k # drop (Suc k) as) (take k ps @ ps ! k # drop (Suc k) ps)"
      using assms by (simp flip: id_take_nth_drop)
    from queue_delete [OF this] k' obtain h' where "heap_list_del (as ! k) h = Some h'"
      "queue_at h' head (take k as @ drop (Suc k) as) (take k ps @ drop (Suc k) ps)" by auto
    then show ?thesis
      by (auto simp: heap_list_del_by_id_def resend_list_del_by_id_def queue_get_by_id [OF assms] Some k resend_list_del_def)
  qed
qed

lemma queue_each_body:
  assumes "queue_at h head (us @ v # vs) (ps @ q # qs)" and "length us = length ps"
  shows "rel_option (\<lambda>(h', s') (q', s''). s' = s'' \<and>
      (if resend_cnt q' = 0 then queue_at h' head (us @ vs) (ps @ qs) else queue_at h' head (us @ v # vs) (ps @ q' # qs)))
    (heap_each_body t cb v (h, s))
    (if resend_cnt q \<noteq> 0 \<and> resend_tick_compare t (wait_tick q) then
       (let q = q\<lparr>wait_tick := resend_tick_set t RESEND_WAIT_TICK, resend_cnt := resend_cnt q - 1\<rparr> in
        do { s \<leftarrow> (if resend_cb q then cb (send_data q) (send_len q) s else Some s); Some (q, s) })
     else Some (q, s))"
    (is "rel_option _ _ ?r")
proof (cases ?r)
  case None
  then show ?thesis
    by (simp add: heap_each_body_def queue_entry [OF assms] Let_def del: option.rel_sel split: if_splits)
next
  case (Some qs')
  obtain q' s' where q': "qs' = (q', s')" by (cases qs')
  have body: "heap_each_body t cb v (h, s) = (let h = h\<lparr>entries := (entries h)(v \<mapsto> q')\<rparr> in
      do { h \<leftarrow> (if resend_cnt q' = 0 then heap_list_del v h else Some h); Some (h, s') })"
    using Some unfolding heap_each_body_def by (simp add: queue_entry [OF assms] q' Let_def)
  note u = queue_update [OF assms, of q']
  show ?thesis
  proof (cases "resend_cnt q' = 0")
    case True
    obtain h' where "heap_list_del v (h\<lparr>entries := (entries h)(v \<mapsto> q')\<rparr>) = Some h'" "queue_at h' head (us @ vs) (ps @ qs)"
      using queue_delete [OF u assms(2)] by blast
    then show ?thesis using True Some q' by (simp add: body)
  qed (use u Some q' in \<open>simp add: body\<close>)
qed

lemma queue_next_saved:
  assumes "queue_at h head (us @ vs) ps"
  shows "\<exists>x. next_of h (hd (vs @ [head])) = Some x \<and> (vs = [] \<or> x = hd (tl vs @ [head]))"
proof (cases vs)
  case Nil
  with queue_next [OF assms, of "[]" head "us @ vs"] show ?thesis by simp
next
  case (Cons w ws)
  with queue_next [OF assms, of "head # us" w ws] show ?thesis by simp
qed

lemma queue_each_from:
  assumes "queue_at h head (us @ vs) (ps @ qs)" and "length us = length ps" and "vs = [] \<or> nxt = hd (tl vs @ [head])"
  shows "rel_option (\<lambda>(h', s') (qs', s''). s' = s'' \<and> (\<exists>vs'. queue_at h' head (us @ vs') (ps @ qs')))
    (heap_each_loop t cb head (hd (vs @ [head])) nxt (h, s)) (resend_list_each t cb qs s)"
  using assms
proof (induction qs arbitrary: us vs ps h nxt s)
  case Nil
  then have "vs = []" using queue_length [OF Nil(1)] by simp
  with Nil(1) show ?case by (simp add: heap_each_loop.simps exI [of _ "[]"])
next
  case (Cons q qs)
  obtain v vs' where vs: "vs = v # vs'" using queue_length [OF Cons.prems(1)] Cons.prems(2) by (cases vs) auto
  have v: "v \<noteq> head" and nxt: "nxt = hd (vs' @ [head])" using Cons.prems vs by (auto simp: queue_at_def)
  let ?r = "if resend_cnt q \<noteq> 0 \<and> resend_tick_compare t (wait_tick q) then
       (let q = q\<lparr>wait_tick := resend_tick_set t RESEND_WAIT_TICK, resend_cnt := resend_cnt q - 1\<rparr> in
        do { s \<leftarrow> (if resend_cb q then cb (send_data q) (send_len q) s else Some s); Some (q, s) })
     else Some (q, s)"
  have each: "resend_list_each t cb (q # qs) s = do {
      (q, s) \<leftarrow> ?r; (rest, s) \<leftarrow> resend_list_each t cb qs s; Some (if resend_cnt q = 0 then rest else q # rest, s) }"
    by simp
  have loop: "heap_each_loop t cb head (hd (vs @ [head])) nxt (h, s) = do {
      hs \<leftarrow> heap_each_body t cb v (h, s); nxt' \<leftarrow> next_of (fst hs) nxt; heap_each_loop t cb head nxt nxt' hs }"
    using v by (subst heap_each_loop.simps) (simp add: vs)
  have walk: "rel_option (\<lambda>(h', s') (qs', s''). s' = s'' \<and> (\<exists>vs'. queue_at h' head (us' @ vs') (ps' @ qs')))
      (do { nxt' \<leftarrow> next_of h' nxt; heap_each_loop t cb head nxt nxt' (h', s') }) (resend_list_each t cb qs s')"
    if "queue_at h' head (us' @ vs') (ps' @ qs)" "length us' = length ps'" for h' s' us' ps'
    using Cons.IH [OF that] queue_next_saved [OF that(1)] unfolding nxt by auto
  note body = queue_each_body [OF Cons.prems(1) [unfolded vs] Cons.prems(2), of t cb s]
  show ?case
  proof (cases ?r)
    case None
    with body show ?thesis unfolding each loop by simp
  next
    case (Some r)
    obtain q' s' where r: "r = (q', s')" by (cases r)
    from body Some r obtain h' where b: "heap_each_body t cb v (h, s) = Some (h', s')"
      and q': "if resend_cnt q' = 0 then queue_at h' head (us @ vs') (ps @ qs) else queue_at h' head (us @ v # vs') (ps @ q' # qs)"
      by (auto simp: option_rel_Some2)
    show ?thesis
    proof (cases "resend_cnt q' = 0")
      case True
      with q' walk [of h' us ps s'] Cons.prems(2) show ?thesis
        unfolding each loop b Some r by (auto simp: rel_option_iff split: option.splits)
    next
      case False
      with q' walk [of h' "us @ [v]" "ps @ [q']" s'] Cons.prems(2) show ?thesis
        unfolding each loop b Some r by (fastforce simp: rel_option_iff split: option.splits)
    qed
  qed
qed

lemma queue_each:
  assumes "queue_at h head as ps"
  shows "rel_option (\<lambda>(h', s') (ps', s''). s' = s'' \<and> (\<exists>as'. queue_at h' head as' ps'))
    (heap_list_each t cb head (h, s)) (resend_list_each t cb ps s)"
proof -
  have f: "next_of h head = Some (hd (as @ [head]))" using queue_next [OF assms, of "[]" head as] by simp
  obtain x where x: "next_of h (hd (as @ [head])) = Some x" "as = [] \<or> x = hd (tl as @ [head])"
    using queue_next_saved [of h head "[]" as ps] assms by auto
  show ?thesis
    using queue_each_from [of h head "[]" as "[]" ps x t cb s] assms x by (simp add: heap_list_each_def f)
qed

section \<open>Refinement\<close>

text \<open>An implementation whose every step stays related to the step of its specification: the same for
  whole runs. \<open>ok\<close> is what a step may rely on (here that \<open>malloc\<close> returns memory that is not in use).\<close>

fun ok_along :: "('op \<Rightarrow> 'c \<Rightarrow> bool) \<Rightarrow> ('op \<Rightarrow> 'c \<Rightarrow> 'c option) \<Rightarrow> 'op list \<Rightarrow> 'c \<Rightarrow> bool" where
  "ok_along ok step [] c \<longleftrightarrow> True"
| "ok_along ok step (op # ops) c \<longleftrightarrow> ok op c \<and> (case step op c of None \<Rightarrow> True | Some c' \<Rightarrow> ok_along ok step ops c')"

locale step_refinement =
  fixes rep :: "'c \<Rightarrow> 'a \<Rightarrow> bool"
    and ok :: "'op \<Rightarrow> 'c \<Rightarrow> bool"
    and cstep :: "'op \<Rightarrow> 'c \<Rightarrow> 'c option"
    and astep :: "'op \<Rightarrow> 'a \<Rightarrow> 'a option"
  assumes step: "rep c a \<Longrightarrow> ok op c \<Longrightarrow> rel_option rep (cstep op c) (astep op a)"
begin

lemma run: "rep c a \<Longrightarrow> ok_along ok cstep ops c \<Longrightarrow> rel_option rep (foldM cstep ops c) (foldM astep ops a)"
proof (induction ops arbitrary: c a)
  case (Cons op ops)
  have ok: "ok op c" using Cons.prems(2) by simp
  show ?case
  proof (cases "cstep op c")
    case None
    with step [OF Cons.prems(1) ok] show ?thesis by simp
  next
    case (Some c')
    with step [OF Cons.prems(1) ok] obtain a' where "astep op a = Some a'" "rep c' a'" by (auto simp: option_rel_Some1)
    with Cons.IH [of c' a'] Cons.prems(2) Some show ?thesis by simp
  qed
qed simp

end

text \<open>The operations the program performs on the queue, with the state \<open>s\<close> the callback works on. A new
  entry comes from \<open>malloc\<close>, with arbitrary pointers in its node.\<close>

datatype queue_op = Queue_Add addr list_head uart_resend | Queue_Del int | Queue_Each "32 word"

fun queue_step ::
  "(bytes \<Rightarrow> nat \<Rightarrow> 's \<Rightarrow> 's option) \<Rightarrow> queue_op \<Rightarrow> uart_resend list \<times> 's \<Rightarrow> (uart_resend list \<times> 's) option" where
  "queue_step cb (Queue_Add a n p) (ps, s) = Some (resend_list_add ps p, s)"
| "queue_step cb (Queue_Del i) (ps, s) = do { (_, ps) \<leftarrow> resend_list_del_by_id ps i; Some (ps, s) }"
| "queue_step cb (Queue_Each t) (ps, s) = resend_list_each t cb ps s"

fun heap_queue_step ::
  "addr \<Rightarrow> (bytes \<Rightarrow> nat \<Rightarrow> 's \<Rightarrow> 's option) \<Rightarrow> queue_op \<Rightarrow> resend_heap \<times> 's \<Rightarrow> (resend_heap \<times> 's) option" where
  "heap_queue_step head cb (Queue_Add a n p) (h, s) = do {
     h \<leftarrow> heap_list_add head a (h\<lparr>nodes := (nodes h)(a \<mapsto> n), entries := (entries h)(a \<mapsto> p)\<rparr>);
     Some (h, s)
   }"
| "heap_queue_step head cb (Queue_Del i) (h, s) = do { (_, h) \<leftarrow> heap_list_del_by_id head i h; Some (h, s) }"
| "heap_queue_step head cb (Queue_Each t) (h, s) = heap_list_each t cb head (h, s)"

fun malloc_ok :: "queue_op \<Rightarrow> resend_heap \<times> 's \<Rightarrow> bool" where
  "malloc_ok (Queue_Add a n p) (h, s) \<longleftrightarrow> nodes h a = None"
| "malloc_ok op hs \<longleftrightarrow> True"

definition queue_rep :: "addr \<Rightarrow> resend_heap \<times> 's \<Rightarrow> uart_resend list \<times> 's \<Rightarrow> bool" where
  "queue_rep head hs qs \<longleftrightarrow> snd hs = snd qs \<and> (\<exists>as. queue_at (fst hs) head as (fst qs))"

interpretation queue: step_refinement "queue_rep head" malloc_ok "heap_queue_step head cb" "queue_step cb"
  for head and cb :: "bytes \<Rightarrow> nat \<Rightarrow> 's \<Rightarrow> 's option"
proof
  fix c :: "resend_heap \<times> 's" and a op
  assume r: "queue_rep head c a" and ok: "malloc_ok op c"
  obtain h s ps where c: "c = (h, s)" "a = (ps, s)" using r by (cases c; cases a) (auto simp: queue_rep_def)
  from r c obtain as where q: "queue_at h head as ps" by (auto simp: queue_rep_def)
  show "rel_option (queue_rep head) (heap_queue_step head cb op c) (queue_step cb op a)"
  proof (cases op)
    case (Queue_Add x n p)
    then have "x \<notin> dom (nodes h)" using ok c by auto
    from queue_add [OF q this, where n = n and p = p] Queue_Add c show ?thesis
      by (auto simp: queue_rep_def resend_list_add_def)
  next
    case (Queue_Del i)
    with queue_del_by_id [OF q, of i] c show ?thesis
      by (fastforce simp: queue_rep_def rel_option_iff split: option.splits)
  next
    case (Queue_Each t)
    with queue_each [OF q, of t cb s] c show ?thesis
      by (fastforce simp: queue_rep_def rel_option_iff split: option.splits)
  qed
qed

text \<open>C22: The pointer structure implements the queue: from the initialised head on, any sequence of
  insertions, acknowledgements and timer passes leaves in memory, behind the head and in both directions,
  exactly the list the specification computes, with the same callbacks made in the same order; every entry
  that leaves the queue has been freed, and no pointer to free memory is ever followed (a run is undefined
  only if the specification's is).\<close>

theorem resend_queue_in_memory:
  assumes "dom (nodes h0) = {head}" and "dom (entries h0) = {}" and "heap_list_init head h0 = Some h"
    and "ok_along malloc_ok (heap_queue_step head cb) ops (h, s)"
  shows "rel_option (queue_rep head)
    (foldM (heap_queue_step head cb) ops (h, s)) (foldM (queue_step cb) ops (resend_list_init, s))"
proof (rule queue.run [OF _ assms(4)])
  show "queue_rep head (h, s) (resend_list_init, s)"
    using queue_init [OF assms(1,2)] assms(3) by (auto simp: queue_rep_def)
qed

lemma resend_queue_in_memory_witness:
  "let p = \<lparr>resend_cnt = 1, send_data = [1], resend_seq_id = Some 1, send_len = 1, wait_tick = 500, resend_cb = True\<rparr>;
       cb = (\<lambda>d n s. Some (s @ [d])); ops = [Queue_Add 8 \<lparr>next_ptr = 0, prev_ptr = 0\<rparr> p, Queue_Del 2, Queue_Each 600];
       h = \<lparr>nodes = [4 \<mapsto> \<lparr>next_ptr = 4, prev_ptr = 4\<rparr>], entries = Map.empty\<rparr> in
   rel_option (queue_rep 4) (foldM (heap_queue_step 4 cb) ops (h, [])) (foldM (queue_step cb) ops (resend_list_init, []))"
  unfolding Let_def
  by (rule resend_queue_in_memory [where ?h0.0 = "\<lparr>nodes = [4 \<mapsto> \<lparr>next_ptr = 0, prev_ptr = 0\<rparr>], entries = Map.empty\<rparr>"])
    (simp_all add: heap_list_init_def INIT_LIST_HEAD_def set_next_def set_prev_def del: heap_queue_step.simps split: option.split)

end
