(* ===== verification/X50_Race.thy ===== *)
theory X50_Race
  imports X50_List
begin

text \<open>
  Two threads on the retransmission queue. \<open>ecb_uart_send\<close> (\<open>uart/ecb_uart.c\<close>) adds a frame with the mutex
  held, on whatever thread a setting comes in. The serial task takes acknowledged and used-up frames out
  (\<open>ecb_resend_list_del_by_id\<close>, \<open>resend_list_each\<close>) without the mutex, so that the two can interleave.

  The operations of \<open>X50_List\<close> are split into their accesses to memory, and a schedule says which thread
  makes the next one. Memory is sequentially consistent.
\<close>

section \<open>Threads\<close>

text \<open>An access works on two registers of its thread and on the heap; \<open>None\<close> is an access to memory that is
  not in use.\<close>

type_synonym memory_access = "addr \<times> addr \<times> resend_heap \<Rightarrow> (addr \<times> addr \<times> resend_heap) option"

definition write_heap :: "(addr \<Rightarrow> addr \<Rightarrow> resend_heap \<Rightarrow> resend_heap option) \<Rightarrow> memory_access" where
  "write_heap f = (\<lambda>(x, y, h). map_option (\<lambda>h. (x, y, h)) (f x y h))"

definition add_code :: "addr \<Rightarrow> addr \<Rightarrow> memory_access list" where
  "add_code node head =
     [\<lambda>(x, y, h). map_option (\<lambda>nxt. (nxt, y, h)) (next_of h head),
      write_heap (\<lambda>nxt _. set_prev nxt node),
      write_heap (\<lambda>nxt _. set_next node nxt),
      write_heap (\<lambda>_ _. set_prev node head),
      write_heap (\<lambda>_ _. set_next head node)]"

definition del_code :: "addr \<Rightarrow> memory_access list" where
  "del_code ptr =
     [\<lambda>(x, y, h). map_option (\<lambda>prv. (prv, y, h)) (prev_of h ptr),
      \<lambda>(x, y, h). map_option (\<lambda>nxt. (x, nxt, h)) (next_of h ptr),
      write_heap (\<lambda>prv nxt. set_prev nxt prv),
      write_heap (\<lambda>prv nxt. set_next prv nxt),
      write_heap (\<lambda>_ _. set_next ptr LIST_POISON1),
      write_heap (\<lambda>_ _. set_prev ptr LIST_POISON2),
      write_heap (\<lambda>_ _. free ptr)]"

text \<open>In a schedule, \<open>True\<close> is a step of the thread that sends, \<open>False\<close> one of the serial task. The result is
  the heap when both have finished.\<close>

fun run_threads ::
  "bool list \<Rightarrow> memory_access list \<Rightarrow> addr \<times> addr \<Rightarrow> memory_access list \<Rightarrow> addr \<times> addr \<Rightarrow> resend_heap \<Rightarrow> resend_heap option" where
  "run_threads (True # ts) (a # as) (x, y) bs r h = do { (x, y, h) \<leftarrow> a (x, y, h); run_threads ts as (x, y) bs r h }"
| "run_threads (False # ts) as r (b # bs) (x, y) h = do { (x, y, h) \<leftarrow> b (x, y, h); run_threads ts as r bs (x, y) h }"
| "run_threads [] [] r [] r' h = Some h"
| "run_threads ts as r bs r' h = None"

text \<open>Without interleaving, the accesses are the operations.\<close>

lemma add_then_del:
  "run_threads (replicate 5 True @ replicate 7 False) (add_code node head) r (del_code ptr) r' h =
     do { h \<leftarrow> list_add node head h; heap_list_del ptr h }"
  by (cases r; cases r') (simp add: add_code_def del_code_def write_heap_def list_add_def list_add_between_def heap_list_del_def
      list_del_def list_del_between_def numeral_eq_Suc map_conv_bind_option bind_assoc case_prod_beta)

lemma del_then_add:
  "run_threads (replicate 7 False @ replicate 5 True) (add_code node head) r (del_code ptr) r' h =
     do { h \<leftarrow> heap_list_del ptr h; list_add node head h }"
  by (cases r; cases r') (simp add: add_code_def del_code_def write_heap_def list_add_def list_add_between_def heap_list_del_def
      list_del_def list_del_between_def numeral_eq_Suc map_conv_bind_option bind_assoc case_prod_beta)

section \<open>A frame that is lost, and a frame that is used after it was freed\<close>

text \<open>The heap of the sender: \<open>malloc\<close> has given it the node, and the entry is filled in.\<close>

definition new_entry :: "addr \<Rightarrow> list_head \<Rightarrow> uart_resend \<Rightarrow> resend_heap \<Rightarrow> resend_heap" where
  "new_entry node n e h = h\<lparr>nodes := (nodes h)(node \<mapsto> n), entries := (entries h)(node \<mapsto> e)\<rparr>"

definition without :: "addr \<Rightarrow> resend_heap \<Rightarrow> resend_heap" where
  "without node h = h\<lparr>nodes := (nodes h)(node := None), entries := (entries h)(node := None)\<rparr>"

definition lost_schedule :: "bool list" where
  "lost_schedule = replicate 2 False @ replicate 5 True @ replicate 5 False"

definition dangling_schedule :: "bool list" where
  "dangling_schedule = [True] @ replicate 4 False @ replicate 4 True @ replicate 3 False"

text \<open>The nodes around the first frame \<open>a\<close> of a queue.\<close>

lemma first_nodes:
  assumes "queue_at h head (a # as) (p # ps)"
  obtains hn an b bn where "nodes h head = Some hn" "next_ptr hn = a" "nodes h a = Some an" "next_ptr an = b" "prev_ptr an = head"
    "nodes h b = Some bn" "a \<noteq> head" "a \<noteq> b" "b = hd (as @ [head])"
proof -
  have l: "next_of h head = Some a" "next_of h a = Some (hd (as @ [head]))" "prev_of h a = Some head"
    using queue_next [OF assms, of "[]" head "a # as"] queue_next [OF assms, of "[head]" a as]
      queue_prev [of h head "[]" a as "p # ps"] assms by simp_all
  have "hd (as @ [head]) \<in> dom (nodes h)" "a \<noteq> head" "a \<noteq> hd (as @ [head])" using assms by (cases as; auto simp: queue_at_def)+
  with l show thesis by (auto simp: next_of_def prev_of_def intro!: that)
qed

lemma lost_frame:
  assumes q: "queue_at h head (a # as) (p # ps)" and n: "nodes h node = None"
  shows "\<exists>h'. run_threads lost_schedule (add_code node head) r (del_code a) r' (new_entry node m e h) = Some h' \<and>
    queue_at (without node h') head as ps \<and> entries h' node = Some e"
proof -
  obtain hn an b bn where f: "nodes h head = Some hn" "next_ptr hn = a" "nodes h a = Some an" "next_ptr an = b" "prev_ptr an = head"
    "nodes h b = Some bn" "a \<noteq> head" "a \<noteq> b" by (rule first_nodes [OF q])
  have d: "node \<noteq> head" "node \<noteq> a" "node \<noteq> b" using n f by auto
  obtain h' where h': "heap_list_del a h = Some h'" "queue_at h' head as ps" by (rule queue_delete [of h head "[]" a as "[]" p ps]) (use q in simp_all)
  have "dom (entries h) = set (a # as)" "dom (nodes h) = set (head # a # as)" using q by (simp_all add: queue_at_def)
  then have "dom (entries h) \<subseteq> dom (nodes h)" by auto
  with n have "entries h node = None" by blast
  then have "\<exists>h2. run_threads lost_schedule (add_code node head) r (del_code a) r' (new_entry node m e h) = Some h2 \<and>
    without node h2 = h' \<and> entries h2 node = Some e"
    using h'(1) f d n
    apply (cases r; cases r'; cases "b = head")
    apply (simp_all add: lost_schedule_def add_code_def del_code_def write_heap_def numeral_eq_Suc heap_list_del_def
      list_del_def list_del_between_def set_next_def set_prev_def next_of_def prev_of_def free_def new_entry_def without_def)
     apply (auto simp: fun_upd_idem)
    done
  with h'(2) show ?thesis by auto
qed

lemma dangling_frame:
  assumes q: "queue_at h head (a # as) (p # ps)" and n: "nodes h node = None"
  shows "\<exists>h'. run_threads dangling_schedule (add_code node head) r (del_code a) r' (new_entry node m e h) = Some h' \<and>
    next_of h' head = Some node \<and> next_of h' node = Some a \<and> nodes h' a = None"
proof -
  obtain hn an b bn where f: "nodes h head = Some hn" "next_ptr hn = a" "nodes h a = Some an" "next_ptr an = b" "prev_ptr an = head"
    "nodes h b = Some bn" "a \<noteq> head" "a \<noteq> b" by (rule first_nodes [OF q])
  have d: "node \<noteq> head" "node \<noteq> a" "node \<noteq> b" using n f by auto
  show ?thesis
    using f d n by (cases r; cases r'; cases "b = head")
      (simp_all add: dangling_schedule_def add_code_def del_code_def write_heap_def numeral_eq_Suc
        set_next_def set_prev_def next_of_def prev_of_def free_def new_entry_def)
qed

text \<open>A walk through such a queue follows the pointer into freed memory.\<close>

lemma dangling_walk:
  assumes "next_of h head = Some node" and "next_of h node = Some a" and "nodes h a = None" and "node \<noteq> head"
  shows "heap_list_each t cb head (h, s) = None"
proof -
  have "heap_each_body t cb node (h, s) = Some (h', s') \<Longrightarrow> next_of h' a = None" for h' s'
    using assms(2,3) by (auto simp: heap_each_body_def Let_def option_bind_Some_iff heap_list_del_def list_del_def
        list_del_between_def set_prev_def set_next_def next_of_def prev_of_def free_def split: if_split_asm)
  then have "heap_each_loop t cb head node a (h, s) = None"
    using assms(4) by (subst heap_each_loop.simps) (auto simp: bind_eq_None_conv)
  with assms(1,2) show ?thesis by (simp add: heap_list_each_def)
qed

lemma del_beside:
  assumes q: "queue_at h head (a # as) (p # ps)" and n: "nodes h node = None" and "heap_list_del a h = Some h1"
  shows "heap_list_del a (new_entry node m e h) = Some (new_entry node m e h1)"
proof -
  obtain hn an b bn where f: "nodes h head = Some hn" "nodes h a = Some an" "next_ptr an = b" "prev_ptr an = head"
    "nodes h b = Some bn" "a \<noteq> head" "a \<noteq> b" by (rule first_nodes [OF q])
  have "node \<noteq> head" "node \<noteq> a" "node \<noteq> b" using n f by auto
  with f assms(3) show ?thesis
    by (cases "b = head") (auto simp: heap_list_del_def list_del_def list_del_between_def set_next_def set_prev_def
        next_of_def prev_of_def free_def new_entry_def fun_upd_twist)
qed

lemma one_after_the_other:
  assumes q: "queue_at h head (a # as) (p # ps)" and n: "nodes h node = None"
    and s: "sched \<in> {replicate 5 True @ replicate 7 False, replicate 7 False @ replicate 5 True}"
  shows "\<exists>h'. run_threads sched (add_code node head) r (del_code a) r' (new_entry node m e h) = Some h' \<and>
    queue_at h' head (node # as) (e # ps)"
proof -
  have fresh: "node \<notin> dom (nodes h)" using n by auto
  show ?thesis
  proof (cases "sched = replicate 5 True @ replicate 7 False")
    case True
    obtain h1 where h1: "heap_list_add head node (new_entry node m e h) = Some h1" "queue_at h1 head (node # a # as) (e # p # ps)"
      using queue_add [OF q fresh, where n = m and p = e] by (auto simp: new_entry_def)
    obtain h2 where h2: "heap_list_del a h1 = Some h2" "queue_at h2 head (node # as) (e # ps)"
      by (rule queue_delete [of h1 head "[node]" a as "[e]" p ps]) (use h1(2) in simp_all)
    show ?thesis unfolding True add_then_del using h1(1) h2 by (simp add: heap_list_add_def)
  next
    case False
    then have "sched = replicate 7 False @ replicate 5 True" using s by simp
    obtain h1 where h1: "heap_list_del a h = Some h1" "queue_at h1 head as ps"
      by (rule queue_delete [of h head "[]" a as "[]" p ps]) (use q in simp_all)
    have "dom (nodes h1) = set (head # as)" using h1(2) by (simp add: queue_at_def)
    moreover have "dom (nodes h) = set (head # a # as)" using q by (simp add: queue_at_def)
    ultimately have f1: "node \<notin> dom (nodes h1)" using fresh by auto
    obtain h2 where h2: "heap_list_add head node (new_entry node m e h1) = Some h2" "queue_at h2 head (node # as) (e # ps)"
      using queue_add [OF h1(2) f1, where n = m and p = e] by (auto simp: new_entry_def)
    have "heap_list_del a (new_entry node m e h) = Some (new_entry node m e h1)" by (rule del_beside [OF q n h1(1)])
    then show ?thesis unfolding \<open>sched = _\<close> del_then_add using h2 by (simp add: heap_list_add_def)
  qed
qed

section \<open>Properties\<close>

text \<open>C23: A new frame is added to the queue by one thread while the serial task takes the first frame out. One
  after the other, in either order, this gives the queue with the new frame in front of the rest. But
  without the mutex on both sides the accesses can interleave, without a fault of either thread, so that the
  new frame is in no queue and will never be sent again, and also so that the queue leads into freed memory
  and every later pass of the timer follows it there.\<close>

theorem queue_race:
  fixes run :: "bool list \<Rightarrow> resend_heap option"
  assumes "queue_at h head (a # as) (p # ps)" and "nodes h node = None"
    and "run = (\<lambda>sched. run_threads sched (add_code node head) (0, 0) (del_code a) (0, 0) (new_entry node m e h))"
  shows "(\<forall>sched \<in> {replicate 5 True @ replicate 7 False, replicate 7 False @ replicate 5 True}.
      \<exists>h'. run sched = Some h' \<and> queue_at h' head (node # as) (e # ps)) \<and>
    (\<exists>sched h'. run sched = Some h' \<and> queue_at (without node h') head as ps \<and> entries h' node = Some e) \<and>
    (\<exists>sched h'. run sched = Some h' \<and> (\<forall>t cb s. heap_list_each t cb head (h', s) = None))"
proof (intro conjI ballI)
  show "\<exists>h'. run sched = Some h' \<and> queue_at h' head (node # as) (e # ps)"
    if "sched \<in> {replicate 5 True @ replicate 7 False, replicate 7 False @ replicate 5 True}" for sched
    unfolding assms(3) by (rule one_after_the_other [OF assms(1,2) that])
  show "\<exists>sched h'. run sched = Some h' \<and> queue_at (without node h') head as ps \<and> entries h' node = Some e"
    unfolding assms(3) using lost_frame [OF assms(1,2)] by blast
  have "node \<noteq> head" using assms(1,2) by (auto simp: queue_at_def)
  then show "\<exists>sched h'. run sched = Some h' \<and> (\<forall>t cb s. heap_list_each t cb head (h', s) = None)"
    unfolding assms(3) using dangling_frame [OF assms(1,2), of "(0, 0)" "(0, 0)" m e] by (blast intro: dangling_walk)
qed

lemma queue_race_witness:
  "let p = \<lparr>resend_cnt = 2, send_data = [1], resend_seq_id = Some 1, send_len = 1, wait_tick = 500, resend_cb = True\<rparr>;
       e = p\<lparr>resend_seq_id := Some 2\<rparr>;
       h = \<lparr>nodes = [4 \<mapsto> \<lparr>next_ptr = 8, prev_ptr = 8\<rparr>, 8 \<mapsto> \<lparr>next_ptr = 4, prev_ptr = 4\<rparr>], entries = [8 \<mapsto> p]\<rparr> in
   \<exists>sched h'. run_threads sched (add_code 12 4) (0, 0) (del_code 8) (0, 0) (new_entry 12 \<lparr>next_ptr = 0, prev_ptr = 0\<rparr> e h) = Some h' \<and>
     queue_at (without 12 h') 4 [] [] \<and> entries h' 12 = Some e"
proof -
  let ?p = "\<lparr>resend_cnt = 2, send_data = [1], resend_seq_id = Some 1, send_len = 1, wait_tick = 500, resend_cb = True\<rparr>"
  let ?h = "\<lparr>nodes = [4 \<mapsto> \<lparr>next_ptr = 8, prev_ptr = 8\<rparr>, 8 \<mapsto> \<lparr>next_ptr = 4, prev_ptr = 4\<rparr>], entries = [8 \<mapsto> ?p]\<rparr>"
  have q: "queue_at ?h 4 [8] [?p]" by (auto simp: queue_at_def next_of_def prev_of_def)
  have n: "nodes ?h 12 = None" by simp
  show ?thesis
    unfolding Let_def using queue_race [OF q n refl, where m = "\<lparr>next_ptr = 0, prev_ptr = 0\<rparr>" and e = "?p\<lparr>resend_seq_id := Some 2\<rparr>"]
    by (elim conjE)
qed

end
