(* ===== verification/X50_Crc_Spec.thy ===== *)
theory X50_Crc_Spec
  imports X50_Crc
begin

text \<open>
  The checksum of the power-board frames as a mathematical object: \<open>CRC16_MAXIM\<close> is the remainder of a
  division of polynomials over the field of two elements, computed by the shift register of
  \<open>uart/ecb_uart.c\<close> from the other end.

  A polynomial is the list of its coefficients, the highest first.
\<close>

section \<open>The reference definition\<close>

text \<open>Adding a polynomial to the leading coefficients of another.\<close>

fun add_front :: "bool list \<Rightarrow> bool list \<Rightarrow> bool list" where
  "add_front (x # xs) (y # ys) = (x \<noteq> y) # add_front xs ys"
| "add_front xs ys = ys"

lemma length_add_front [simp]: "length (add_front xs ys) = length ys"
  by (induction xs ys rule: add_front.induct) simp_all

text \<open>Long division by the polynomial whose leading coefficient is 1 and whose others are \<open>g\<close>: while the
  dividend is longer than \<open>g\<close>, its leading coefficient is removed, by subtracting the divisor if it is 1.\<close>

fun poly_rem :: "bool list \<Rightarrow> bool list \<Rightarrow> bool list" where
  "poly_rem g [] = []"
| "poly_rem g (b # m) =
    (if length m < length g then b # m else poly_rem g (if b then add_front g m else m))"

text \<open>The product of \<open>q\<close> and that divisor.\<close>

fun poly_mul :: "bool list \<Rightarrow> bool list \<Rightarrow> bool list" where
  "poly_mul g [] = replicate (length g) False"
| "poly_mul g (b # q) = b # (if b then add_front g (poly_mul g q) else poly_mul g q)"

text \<open>\<open>x\<^sup>1\<^sup>6 + x\<^sup>1\<^sup>5 + x\<^sup>2 + 1\<close> without its leading term. The bits of a byte enter the division from the least
  significant one on; a register is read in the same order.\<close>

definition generator :: "bool list" where
  "generator = True # replicate 12 False @ [True, False, True]"

definition register_bits :: "16 word \<Rightarrow> bool list" where
  "register_bits x = map (bit x) [0..<16]"

definition message_bits :: "bytes \<Rightarrow> bool list" where
  "message_bits data = concat (map (\<lambda>b. map (bit b) [0..<8]) data)"

section \<open>Lists of coefficients\<close>

lemma add_front_assoc:
  "length zs \<le> length xs \<Longrightarrow> length xs \<le> length ys \<Longrightarrow> add_front (add_front zs xs) ys = add_front zs (add_front xs ys)"
proof (induction zs xs arbitrary: ys rule: add_front.induct)
  case (1 z zs x xs)
  then show ?case by (cases ys) auto
qed simp_all

lemma add_front_twice [simp]: "add_front xs (add_front xs ys) = ys"
  by (induction xs ys rule: add_front.induct) auto

lemma add_front_self: "add_front xs (replicate (length xs) False) = xs"
  by (induction xs) simp_all

lemma add_front_zero: "add_front (replicate n False) ys = ys"
proof (induction n arbitrary: ys)
  case (Suc n)
  then show ?case by (cases ys) simp_all
qed simp

section \<open>The division is one\<close>

lemma length_poly_mul [simp]: "length (poly_mul g q) = length q + length g"
  by (induction q) simp_all

lemma length_poly_rem: "length g \<le> length m \<Longrightarrow> 0 < length g \<Longrightarrow> length (poly_rem g m) = length g"
  by (induction g m rule: poly_rem.induct) auto

lemma division_step:
  assumes "length g \<le> length p" and "length p = length r" and "(if b then add_front g m else m) = add_front p r"
  shows "b # m = add_front (b # (if b then add_front g p else p)) (False # r)"
  using assms add_front_assoc [of g p r] by (cases b) (auto simp flip: assms(3))

lemma poly_division:
  assumes "length g \<le> length m" and "0 < length g"
  shows "\<exists>q. length q = length m - length g \<and> m = add_front (poly_mul g q) (replicate (length q) False @ poly_rem g m)"
  using assms
proof (induction g m rule: poly_rem.induct)
  case (2 g b m)
  show ?case
  proof (cases "length m < length g")
    case True
    then show ?thesis using 2 by (intro exI [of _ "[]"]) (simp add: add_front_zero del: replicate.simps)
  next
    case False
    let ?m = "if b then add_front g m else m"
    have r: "poly_rem g (b # m) = poly_rem g ?m" using False by simp
    have l: "length ?m = length m" "length g \<le> length ?m" using False by simp_all
    from "2.IH" [OF False l(2) "2.prems"(2)] obtain q where q: "length q = length m - length g"
      "?m = add_front (poly_mul g q) (replicate (length q) False @ poly_rem g ?m)" unfolding l(1) by blast
    let ?r = "replicate (length q) False @ poly_rem g ?m"
    have len: "length (poly_mul g q) = length ?r" using length_poly_rem [of g ?m] False "2.prems"(2) by simp
    have "b # m = add_front (poly_mul g (b # q)) (False # ?r)"
      unfolding poly_mul.simps by (rule division_step [OF _ len q(2)]) simp
    then show ?thesis using q(1) False unfolding r by (intro exI [of _ "b # q"]) simp
  qed
qed simp

section \<open>The shift register\<close>

text \<open>The register with the message bits entering one at a time.\<close>

definition crc_bit :: "bool \<Rightarrow> 16 word \<Rightarrow> 16 word" where
  "crc_bit b x = crc_step (x XOR of_bool b)"

lemma crc_step_double:
  assumes "\<not> bit h 15"
  shows "crc_step (push_bit 1 h) = h"
proof -
  have "bit h n \<Longrightarrow> n < 15" for n using assms bit_imp_le_length [of h n] by (cases "n = 15") auto
  then have "drop_bit 1 (push_bit 1 h) = h" by (intro bit_eqI) (auto simp: bit_simps simp del: push_bit_Suc)
  then show ?thesis by (simp add: crc_step_alt)
qed

lemma crc_steps_bits: "length bs \<le> 16 \<Longrightarrow> (crc_step ^^ length bs) (x XOR horner_sum of_bool 2 bs) = fold crc_bit bs x"
proof (induction bs arbitrary: x)
  case (Cons b bs)
  let ?h = "horner_sum of_bool 2 bs :: 16 word"
  have "\<not> bit ?h 15" using Cons.prems by (simp add: bit_horner_sum_bit_iff)
  moreover have "x XOR horner_sum of_bool 2 (b # bs) = (x XOR of_bool b) XOR push_bit 1 ?h"
    by (intro bit_eqI) (auto simp: bit_simps nth_Cons simp del: push_bit_Suc horner_sum_simps split: nat.split)
  ultimately have "crc_step (x XOR horner_sum of_bool 2 (b # bs)) = crc_bit b x XOR ?h"
    by (simp only: crc_step_xor [of "x XOR of_bool b"] crc_step_double crc_bit_def not_False_eq_True)
  then show ?case using Cons by (simp add: funpow_swap1 [symmetric] funpow_Suc_right del: funpow.simps horner_sum_simps)
qed simp

lemma crc_byte_bits: "crc_byte b x = fold crc_bit (map (bit b) [0..<8]) x"
proof -
  have "(ucast b :: 16 word) = horner_sum of_bool 2 (map (bit b) [0..<8])"
  proof (rule bit_eqI)
    fix n
    have "bit b n \<Longrightarrow> n < 8" using bit_imp_le_length [of b n] by simp
    then show "bit (ucast b :: 16 word) n \<longleftrightarrow> bit (horner_sum of_bool 2 (map (bit b) [0..<8]) :: 16 word) n"
      by (auto simp: bit_simps simp del: horner_sum_simps)
  qed
  then show ?thesis using crc_steps_bits [of "map (bit b) [0..<8]" x] by (simp add: crc_byte_def)
qed

lemma crc_fold_bits: "fold crc_byte data x = fold crc_bit (message_bits data) x"
  by (induction data arbitrary: x) (simp_all add: message_bits_def crc_byte_bits)

lemma register_bits_step:
  "register_bits (crc_bit b x) =
    (let r = tl (register_bits x) @ [False] in if bit x 0 \<noteq> b then add_front generator r else r)"
proof -
  have g: "generator = register_bits crc_poly" by (simp add: generator_def register_bits_def crc_poly_eq upt_rec numeral_eq_Suc)
  have "register_bits (drop_bit 1 x) = tl (register_bits x) @ [False]" for x
    by (auto simp: register_bits_def upt_rec bit_simps dest: bit_imp_le_length)
  moreover have "register_bits (x XOR y) = add_front (register_bits x) (register_bits y)" for x y
    by (simp add: register_bits_def upt_rec bit_xor_iff)
  moreover have "drop_bit 1 (x XOR of_bool b) = drop_bit 1 x" by (intro bit_eqI) (auto simp: bit_simps)
  moreover have "odd (x XOR of_bool b) \<longleftrightarrow> bit x 0 \<noteq> b" by (auto simp: even_xor_iff bit_0)
  moreover have "crc_step y = (if odd y then crc_poly XOR drop_bit 1 y else drop_bit 1 y)" for y
    by (simp add: crc_step_alt xor.commute)
  ultimately show ?thesis by (simp add: crc_bit_def g)
qed

section \<open>The register divides\<close>

lemma lengths [simp]: "length generator = 16" "length (register_bits x) = 16"
  by (simp_all add: generator_def register_bits_def)

lemma register_bits_Cons: "register_bits x = bit x 0 # tl (register_bits x)"
  by (simp add: register_bits_def upt_rec)

lemma add_front_snoc: "length xs < length ys \<Longrightarrow> add_front (xs @ [False]) ys = add_front xs ys"
proof (induction xs arbitrary: ys)
  case Nil
  then show ?case by (cases ys) simp_all
next
  case (Cons x xs)
  then show ?case by (cases ys) simp_all
qed

text \<open>What is left to divide is the register, added to the front of the message that is still to come.\<close>

lemma register_divides:
  "poly_rem generator (add_front (register_bits x) (m @ replicate 16 False)) = register_bits (fold crc_bit m x)"
proof (induction m arbitrary: x)
  case Nil
  have r: "add_front (register_bits x) (replicate 16 False) = register_bits x"
    using add_front_self [of "register_bits x"] by simp
  have "poly_rem generator (register_bits x) = register_bits x" by (subst (1 2) register_bits_Cons) simp
  with r show ?case by simp
next
  case (Cons b m)
  let ?m = "m @ replicate 16 False" and ?t = "tl (register_bits x)"
  have "add_front (register_bits x) (b # ?m) = (bit x 0 \<noteq> b) # add_front ?t ?m"
    by (subst register_bits_Cons) simp
  moreover have "add_front ?t ?m = add_front (?t @ [False]) ?m" by (rule add_front_snoc [symmetric]) simp
  ultimately have "poly_rem generator (add_front (register_bits x) (b # ?m)) =
      poly_rem generator (if bit x 0 \<noteq> b then add_front generator (add_front (?t @ [False]) ?m) else add_front (?t @ [False]) ?m)"
    by simp
  also have "\<dots> = poly_rem generator (add_front (register_bits (crc_bit b x)) ?m)"
    by (simp add: register_bits_step Let_def add_front_assoc)
  also have "\<dots> = register_bits (fold crc_bit m (crc_bit b x))" by (rule Cons.IH)
  finally show ?case by simp
qed

lemma register_of_bits: "horner_sum of_bool 2 (register_bits x) = x"
  by (simp add: register_bits_def horner_sum_bit_eq_take_bit take_bit_word_eq_self del: upt_Suc)

section \<open>Property\<close>

text \<open>C11: The checksum of the power-board frames is a division of polynomials: with the bits of the data, the
  least significant of each byte first, as the coefficients of a polynomial, \<open>CRC16_MAXIM\<close> is the
  complement of the remainder that long division of this polynomial times \<open>x\<^sup>1\<^sup>6\<close> by
  \<open>x\<^sup>1\<^sup>6 + x\<^sup>1\<^sup>5 + x\<^sup>2 + 1\<close> leaves, read as a number in the same order; and there is a quotient with which
  that is the remainder.\<close>

theorem crc_is_polynomial_remainder:
  "CRC16_MAXIM data = NOT (horner_sum of_bool 2 (poly_rem generator (message_bits data @ replicate 16 False))) \<and>
    (\<exists>q. length q = length (message_bits data) \<and>
       message_bits data @ replicate 16 False =
         add_front (poly_mul generator q)
           (replicate (length q) False @ poly_rem generator (message_bits data @ replicate 16 False)))"
proof -
  have "register_bits 0 = replicate 16 False" by (intro nth_equalityI) (simp_all add: register_bits_def)
  then have "poly_rem generator (message_bits data @ replicate 16 False) = register_bits (fold crc_byte data 0)"
    using register_divides [of 0 "message_bits data"] by (simp add: crc_fold_bits add_front_zero)
  moreover have "x XOR 0xFFFF = NOT x" for x :: "16 word"
  proof -
    have "(0xFFFF :: 16 word) = - 1" by code_simp
    then show ?thesis by (simp only: bit.xor_one_right)
  qed
  ultimately show ?thesis
    using poly_division [of generator "message_bits data @ replicate 16 False"]
    by (simp add: CRC16_MAXIM_def register_of_bits)
qed

end
