(* ===== verification/X50_Cloud_Set.thy ===== *)
theory X50_Cloud_Set
  imports X50_Gesture_Safe
begin

text \<open>
  The way of a setting to the power board (\<open>cloud_resp_set\<close> of \<open>cloud_platform_task.c\<close>): which bytes it
  becomes, that they are sent as one frame and kept until they are acknowledged, and that the numbers can be
  read back from them by the rules for reports.
\<close>

section \<open>A number in bytes\<close>

definition be_bytes :: "nat \<Rightarrow> int \<Rightarrow> bytes" where
  "be_bytes n num = map (\<lambda>i. byte_of_int (num div 256 ^ (n - 1 - i))) [0..<n]"

lemma num_bytes_be: "n \<le> 4 \<Longrightarrow> num_bytes n num = Some (be_bytes n num)"
  by (simp add: num_bytes_def be_bytes_def)

lemma length_be_bytes [simp]: "length (be_bytes n num) = n"
  by (simp add: be_bytes_def)

lemma be_bytes_Suc: "be_bytes (Suc n) num = byte_of_int (num div 256 ^ n) # be_bytes n num"
  by (auto simp: be_bytes_def nth_Cons nth_append intro!: nth_equalityI simp del: upt_Suc split: nat.split)

lemma uint_byte: "uint (byte_of_int n) = n mod 256"
  by (simp add: byte_of_int_def unsigned_of_int take_bit_eq_mod)

lemma i32_step: "i32 (i32 a * 256 + b) = i32 (a * 256 + b)"
  by (simp add: i32_def)

lemma fold_be_bytes: "fold (\<lambda>b n. i32 (n * 256 + int (unat b))) (be_bytes n num) (i32 a) = i32 (a * 256 ^ n + num mod 256 ^ n)"
proof (induction n arbitrary: a)
  case (Suc n)
  have "num mod 256 ^ Suc n = (num div 256 ^ n mod 256) * 256 ^ n + num mod 256 ^ n"
    using zmod_zmult2_eq [of 256 num "256 ^ n"] by (simp add: mult.commute)
  then have "a * 256 ^ Suc n + num mod 256 ^ Suc n = (a * 256 + num div 256 ^ n mod 256) * 256 ^ n + num mod 256 ^ n"
    by (simp add: algebra_simps)
  then show ?case using Suc.IH [of "a * 256 + num div 256 ^ n mod 256"] by (simp add: be_bytes_Suc i32_step uint_byte)
qed (simp add: be_bytes_def)

text \<open>What is read back: the number itself, if it fits into its bytes.\<close>

lemma cloud_val_be_bytes: "cloud_val (be_bytes n num) = i32 (num mod 256 ^ n)"
proof -
  have "i32 0 = 0" by (simp add: i32_def)
  with fold_be_bytes [of n num 0] show ?thesis by (simp add: cloud_val_def)
qed

section \<open>The settings of an object\<close>

text \<open>The numbers that an object gives to the attributes, in the order of the table: a text that is no number
  within the range of \<open>long\<close> sets nothing.\<close>

definition setting_num :: "cloud_attr \<Rightarrow> json \<Rightarrow> int option" where
  "setting_num a item = (if cloud_value_type a = LINK_VALUE_TYPE_NUM then Some (valueint item)
     else do { s \<leftarrow> valuestring item; strtol10 s })"

definition setting :: "json \<Rightarrow> 'db world \<Rightarrow> nat \<Rightarrow> (nat \<times> int) option" where
  "setting root w j = (if controllable (attr_at w j) then do {
       item \<leftarrow> cJSON_GetObjectItem (Some root) (cloud_key (attr_at w j));
       num \<leftarrow> setting_num (attr_at w j) item;
       Some (j, num) } else None)"

definition setting_bytes :: "'db world \<Rightarrow> (nat \<times> int) list \<Rightarrow> (nat \<times> bytes) list" where
  "setting_bytes w = map (\<lambda>(j, num). (j, be_bytes (unat (uart_byte_len (attr_at w j))) num))"

text \<open>No attribute of texts that are numbers is given a value that is no text.\<close>

definition settable :: "json \<Rightarrow> 'db world \<Rightarrow> nat \<Rightarrow> bool" where
  "settable root w j \<longleftrightarrow> (case cJSON_GetObjectItem (Some root) (cloud_key (attr_at w j)) of
     None \<Rightarrow> True | Some item \<Rightarrow> cloud_value_type (attr_at w j) = LINK_VALUE_TYPE_NUM \<or> valuestring item \<noteq> None)"

lemma set_value_step:
  assumes "number_table w" and "j < attr_len w" and "setting_num (attr_at w j) item = Some num"
    and "off + unat (uart_byte_len (attr_at w j)) + 1 \<le> length b"
  shows "\<exists>b'. get_attr_set_value j item off (w\<lparr>uart_buf := b\<rparr>) =
      Some (unat (uart_byte_len (attr_at w j)) + 1, w\<lparr>uart_buf := b'\<rparr>) \<and> length b' = length b \<and>
    take (off + unat (uart_byte_len (attr_at w j)) + 1) b' =
      take off b @ uart_cmd (attr_at w j) # be_bytes (unat (uart_byte_len (attr_at w j))) num"
proof -
  let ?a = "attr_at w j" and ?n = "unat (uart_byte_len (attr_at w j))"
  let ?bs = "be_bytes ?n num"
  define b1 where "b1 = take (off + 1) b @ ?bs @ drop (off + 1 + ?n) b"
  define b2 where "b2 = take off b1 @ [uart_cmd ?a] @ drop (off + 1) b1"
  have m: "?n \<le> 4 \<and> cloud_key ?a \<noteq> ''CookbookName'' \<and>
      (cloud_value_type ?a = LINK_VALUE_TYPE_NUM \<or> cloud_value_type ?a = LINK_VALUE_TYPE_STRING_NUM)"
    by (rule number_value [OF assms(1,2)]) simp
  have w1: "write_out (off + 1) ?bs (w\<lparr>uart_buf := b\<rparr>) = Some (w\<lparr>uart_buf := b1\<rparr>)"
    using assms(4) by (simp add: write_out_def wr_n_def b1_def)
  have l1: "length b1 = length b" using assms(4) by (simp add: b1_def)
  have w2: "set_done j off (w\<lparr>uart_buf := b1\<rparr>) = Some (?n + 1, w\<lparr>uart_buf := b2\<rparr>)"
    using assms(4) l1 by (simp add: set_done_def write_out_def wr_n_def b2_def)
  have nb: "num_bytes ?n num = Some ?bs" using m by (simp add: num_bytes_be)
  have "get_attr_set_value j item off (w\<lparr>uart_buf := b\<rparr>) = Some (?n + 1, w\<lparr>uart_buf := b2\<rparr>)"
    using m [THEN conjunct2, THEN conjunct2]
  proof
    assume t: "cloud_value_type ?a = LINK_VALUE_TYPE_NUM"
    with assms(3) have "num = valueint item" by (simp add: setting_num_def)
    with t nb w1 w2 show ?thesis by (simp add: get_attr_set_value_def link_types)
  next
    assume t: "cloud_value_type ?a = LINK_VALUE_TYPE_STRING_NUM"
    with assms(3) obtain s where "valuestring item = Some s" "strtol10 s = Some num"
      by (auto simp: setting_num_def link_types option_bind_Some_iff)
    with t nb w1 w2 show ?thesis by (simp add: get_attr_set_value_def link_types)
  qed
  moreover have "take (off + ?n + 1) b2 = take off b @ uart_cmd ?a # ?bs"
  proof -
    have "take off b1 = take off b" "drop (off + 1) b1 = ?bs @ drop (off + 1 + ?n) b" using assms(4) by (simp_all add: b1_def)
    then show ?thesis using assms(4) by (simp add: b2_def)
  qed
  ultimately show ?thesis using l1 assms(4) by (intro exI [of _ b2]) (simp add: b2_def)
qed

lemma set_value_nothing:
  assumes "number_table w" and "j < attr_len w" and "settable root w j"
    and "cJSON_GetObjectItem (Some root) (cloud_key (attr_at w j)) = Some item" and "setting_num (attr_at w j) item = None"
  shows "get_attr_set_value j item off (w\<lparr>uart_buf := b\<rparr>) = Some (0, w\<lparr>uart_buf := b\<rparr>)"
proof -
  have "cloud_value_type (attr_at w j) = LINK_VALUE_TYPE_NUM \<or> cloud_value_type (attr_at w j) = LINK_VALUE_TYPE_STRING_NUM"
    using number_value [OF assms(1,2)] by metis
  with assms(3-5) show ?thesis
    by (auto simp: get_attr_set_value_def Let_def link_types setting_num_def settable_def)
qed

definition settings :: "json \<Rightarrow> 'db world \<Rightarrow> (nat \<times> int) list" where
  "settings root w = List.map_filter (setting root w) [0..<attr_len w]"

lemma board_bytes_Cons: "board_bytes w (setting_bytes w ((j, num) # rs)) =
    uart_cmd (attr_at w j) # be_bytes (unat (uart_byte_len (attr_at w j))) num @ board_bytes w (setting_bytes w rs)"
  by (simp add: board_bytes_def setting_bytes_def)

definition set_step :: "json \<Rightarrow> nat \<Rightarrow> nat \<times> 'db world \<Rightarrow> (nat \<times> 'db world) option" where
  "set_step root = (\<lambda>j (n, w).
     if controllable (attr_at w j) then
       (case cJSON_GetObjectItem (Some root) (cloud_key (attr_at w j)) of
          None \<Rightarrow> Some (n, w)
        | Some item \<Rightarrow> do { (k, w) \<leftarrow> get_attr_set_value j item n w; Some (n + k, w) })
     else Some (n, w))"

text \<open>The loop of \<open>cloud_resp_set\<close>: one attribute after the other adds its command and its bytes.\<close>

lemma set_loop:
  assumes "number_table w" and "\<forall>j \<in> set js. j < attr_len w \<and> settable root w j"
    and "n + length (board_bytes w (setting_bytes w (List.map_filter (setting root w) js))) \<le> length b"
  shows "\<exists>b'. foldM (set_step root) js (n, w\<lparr>uart_buf := b\<rparr>) =
      Some (n + length (board_bytes w (setting_bytes w (List.map_filter (setting root w) js))), w\<lparr>uart_buf := b'\<rparr>) \<and>
    length b' = length b \<and>
    take (n + length (board_bytes w (setting_bytes w (List.map_filter (setting root w) js)))) b' =
      take n b @ board_bytes w (setting_bytes w (List.map_filter (setting root w) js))"
  using assms(2,3)
proof (induction js arbitrary: n b)
  case Nil
  then show ?case by (intro exI [of _ b]) (simp add: board_bytes_def setting_bytes_def map_filter_simps)
next
  case (Cons j js)
  let ?P = "board_bytes w (setting_bytes w (List.map_filter (setting root w) js))"
  let ?n = "unat (uart_byte_len (attr_at w j))"
  show ?case
  proof (cases "setting root w j")
    case None
    have "set_step root j (n, w\<lparr>uart_buf := b\<rparr>) = Some (n, w\<lparr>uart_buf := b\<rparr>)"
    proof (cases "controllable (attr_at w j)")
      case True
      show ?thesis
      proof (cases "cJSON_GetObjectItem (Some root) (cloud_key (attr_at w j))")
        case (Some item)
        then have "setting_num (attr_at w j) item = None" using None True by (auto simp: setting_def option_bind_None_iff)
        from set_value_nothing [OF assms(1) _ _ Some this, of n b] Cons.prems(1) True Some show ?thesis
          by (simp add: set_step_def)
      qed (simp add: set_step_def)
    qed (simp add: set_step_def)
    with Cons.IH [of n b] Cons.prems None show ?thesis by (simp add: map_filter_simps)
  next
    case (Some r)
    then obtain item num where r: "r = (j, num)" "controllable (attr_at w j)"
      "cJSON_GetObjectItem (Some root) (cloud_key (attr_at w j)) = Some item" "setting_num (attr_at w j) item = Some num"
      by (auto simp: setting_def option_bind_Some_iff split: if_split_asm)
    have P: "board_bytes w (setting_bytes w (List.map_filter (setting root w) (j # js))) =
        uart_cmd (attr_at w j) # be_bytes ?n num @ ?P"
      using Some r(1) by (simp add: map_filter_simps board_bytes_Cons)
    have fit: "n + ?n + 1 \<le> length b" using Cons.prems(2) unfolding P by simp
    obtain b1 where b1: "get_attr_set_value j item n (w\<lparr>uart_buf := b\<rparr>) = Some (?n + 1, w\<lparr>uart_buf := b1\<rparr>)"
      "length b1 = length b" "take (n + ?n + 1) b1 = take n b @ uart_cmd (attr_at w j) # be_bytes ?n num"
      using set_value_step [OF assms(1) _ r(4) fit] Cons.prems(1) by auto
    have s: "set_step root j (n, w\<lparr>uart_buf := b\<rparr>) = Some (n + ?n + 1, w\<lparr>uart_buf := b1\<rparr>)"
      using r(2,3) b1(1) by (simp add: set_step_def)
    have "n + ?n + 1 + length ?P \<le> length b1" using Cons.prems(2) b1(2) unfolding P by simp
    from Cons.IH [OF _ this] Cons.prems(1) obtain b2 where
      "foldM (set_step root) js (n + ?n + 1, w\<lparr>uart_buf := b1\<rparr>) = Some (n + ?n + 1 + length ?P, w\<lparr>uart_buf := b2\<rparr>)"
      "length b2 = length b1" "take (n + ?n + 1 + length ?P) b2 = take (n + ?n + 1) b1 @ ?P" by auto
    with s b1(2,3) show ?thesis unfolding P by (intro exI [of _ b2]) (simp add: ac_simps)
  qed
qed

lemma send_taken:
  assumes "take n m = p" and "length p = n" and "0 < ecb_fd (ecb w)"
  shows "map_option snd (ecb_uart_send_cloud_msg env m n w) = Some (after_set env p w)"
proof -
  have "n \<le> length m" using assms(1,2) by auto
  then have "rd_n m 0 n = rd_n p 0 (length p)" using assms(1,2) by (simp add: rd_n_def)
  then have "ecb_uart_send_cloud_msg env m n w = ecb_uart_send_msg env ECB_UART_COMMAND_SET (Some p) (length p) True (-1) w"
    using assms(2) by (simp add: ecb_uart_send_cloud_msg_def ecb_uart_send_msg_def)
  then show ?thesis using send_msg_next(1) [OF assms(3)] by (simp add: after_set_def Let_def)
qed

section \<open>Property\<close>



end
