(* ===== verification/X50_First_Report.thy ===== *)
theory X50_First_Report
  imports X50_Profile
begin

text \<open>
  Which values of the device can be reported: the exact condition under which a \<open>GETALL\<close> and the report
  after connecting to the cloud return, attribute by attribute.
\<close>

section \<open>Attributes that can be reported\<close>

text \<open>A text needs a NUL: in front of its last byte when that byte is not zero, as the copy that is sent has
  no NUL of its own. Three keys have a text that does not come from the value.\<close>

definition text_readable :: "'db env \<Rightarrow> cloud_attr \<Rightarrow> bool" where
  "text_readable env a \<longleftrightarrow>
     (case attr_value a of
        None \<Rightarrow> cloud_key a \<noteq> ''ElcSWVersion'' \<and> cloud_key a \<noteq> ''ElcHWVersion'' \<and>
          (cloud_key a = ''WifiMac'' \<longrightarrow> env_hwaddr env \<noteq> None)
      | Some m \<Rightarrow>
          if length m > 1 \<and> last m \<noteq> 0 then 0 \<in> set m
          else if cloud_key a = ''WifiMac'' then env_hwaddr env \<noteq> None
          else cloud_key a = ''ComSWVersion'' \<or> cloud_key a = ''ElcSWVersion'' \<or> cloud_key a = ''ElcHWVersion'' \<or> 0 \<in> set m)"

text \<open>A due reminder has to name one of the texts.\<close>

definition stage_readable :: "string list \<Rightarrow> cloud_attr \<Rightarrow> bool" where
  "stage_readable texts a \<longleftrightarrow>
     (case attr_value a of
        None \<Rightarrow> False
      | Some m \<Rightarrow> 3 \<le> length m \<and> (m ! 2 \<noteq> 0 \<longrightarrow> unat (m ! 1) < length texts))"

definition attr_readable :: "'db env \<Rightarrow> string list \<Rightarrow> cloud_attr \<Rightarrow> bool" where
  "attr_readable env texts a \<longleftrightarrow>
     (reportable a \<and> cloud_value_type a = LINK_VALUE_TYPE_STRUCT \<and> uart_cmd a = UART_CMD_MULTISTAGE_STATE \<longrightarrow>
        stage_readable texts a) \<and>
     (reportable a \<and> cloud_value_type a = LINK_VALUE_TYPE_STRING \<longrightarrow> text_readable env a)"

text \<open>The states and errors that also raise an event need a byte to compare.\<close>

definition event_readable :: "cloud_attr \<Rightarrow> bool" where
  "event_readable a \<longleftrightarrow>
     (reportable a \<and> cloud_value_type a = LINK_VALUE_TYPE_NUM \<and>
        (cloud_key a = ''LStOvState'' \<or> cloud_key a = ''RStOvState'' \<or> cloud_key a = ''ErrorCodeShow'') \<longrightarrow>
      attr_value a \<noteq> None)"

text \<open>No recipe is being cooked by its number, so that no name is looked up.\<close>

definition no_recipe :: "cloud_attr \<Rightarrow> bool" where
  "no_recipe a \<longleftrightarrow> (cloud_key a = ''CookbookID'' \<longrightarrow> cloud_val (case attr_value a of None \<Rightarrow> [] | Some m \<Rightarrow> m) \<le> 0)"

section \<open>One attribute\<close>

lemma typed_parts:
  assumes "attr_typed a"
  shows "unat (uart_byte_len a) = (case attr_value a of None \<Rightarrow> 0 | Some m \<Rightarrow> length m)"
    and "attr_value a \<noteq> Some []"
    and "read_block (attr_value a) (unat (uart_byte_len a)) = Some (case attr_value a of None \<Rightarrow> [] | Some m \<Rightarrow> m)"
proof -
  show l: "unat (uart_byte_len a) = (case attr_value a of None \<Rightarrow> 0 | Some m \<Rightarrow> length m)" and "attr_value a \<noteq> Some []"
    using assms by (auto simp: attr_typed_def unat_eq_zero split: option.splits if_split_asm)
  then show "read_block (attr_value a) (unat (uart_byte_len a)) = Some (case attr_value a of None \<Rightarrow> [] | Some m \<Rightarrow> m)"
    by (cases "attr_value a") (auto simp: read_block_def rd_n_def)
qed

lemma first_byte_typed: "attr_typed a \<Longrightarrow> first_byte (attr_value a) = None \<longleftrightarrow> attr_value a = None"
  using typed_parts(2) [of a] by (cases "attr_value a") (auto simp: first_byte_def rd_def)

lemma stage_reads:
  "attr_typed a \<Longrightarrow> (\<exists>v t. read_block (attr_value a) 3 = Some v \<and>
      (if v ! 2 \<noteq> 0 then rd texts (unat (v ! 1)) else Some []) = Some t) \<longleftrightarrow> stage_readable texts a"
  by (cases "attr_value a") (auto simp: stage_readable_def read_block_def rd_n_def rd_def)

lemma c_str_reads: "(\<exists>s. c_str m = Some s) \<longleftrightarrow> 0 \<in> set m"
  by (simp add: c_str_def)

lemma text_reads:
  assumes "attr_typed (attr_at w j)"
  shows "(\<exists>s w'. report_string env j w = Some (s, w')) \<longleftrightarrow> text_readable env (attr_at w j)"
proof (cases "attr_value (attr_at w j)")
  case None
  then have "uart_byte_len (attr_at w j) = 0" using assms by (simp add: attr_typed_def split: if_split_asm)
  with None show ?thesis
    by (auto simp: report_string_def text_readable_def Let_def first_byte_def getNetworkMac_def option_bind_Some_iff)
next
  case (Some m)
  then have l: "unat (uart_byte_len (attr_at w j)) = length m" and ne: "m \<noteq> []"
    using typed_parts [OF assms] by auto
  show ?thesis
  proof (cases "length m > 1 \<and> last m \<noteq> 0")
    case True
    with Some l ne show ?thesis
      by (auto simp: report_string_def text_readable_def Let_def rd_def rd_n_def wr_n_def last_conv_nth c_str_def option_bind_Some_iff)
  next
    case False
    then consider "length m = 1" | "length m > 1" "last m = 0" "0 \<in> set m"
      using ne False last_in_set [OF ne] that by (metis One_nat_def Suc_lessI length_greater_0_conv)
    then show ?thesis
      by cases (use Some l ne in \<open>auto simp: report_string_def text_readable_def Let_def first_byte_def rd_def getNetworkMac_def
        c_str_def last_conv_nth option_bind_Some_iff\<close>)
  qed
qed

lemma value_reads:
  assumes "attr_typed (attr_at w j)" and "no_recipe (attr_at w j)"
  shows "(\<exists>st. get_attr_report_value env j (root, w) = Some st) \<longleftrightarrow>
    attr_readable env (remind (g_cloud_dev w)) (attr_at w j)"
proof -
  let ?a = "attr_at w j"
  note b = typed_parts(3) [OF assms(1)]
  consider "\<not> reportable ?a" | "reportable ?a" "cloud_value_type ?a = LINK_VALUE_TYPE_STRUCT"
    | "reportable ?a" "cloud_value_type ?a = LINK_VALUE_TYPE_STRING"
    | "reportable ?a" "cloud_value_type ?a \<noteq> LINK_VALUE_TYPE_STRUCT" "cloud_value_type ?a \<noteq> LINK_VALUE_TYPE_STRING"
    by blast
  then show ?thesis
  proof cases
    case 2
    then have "(\<exists>st. get_attr_report_value env j (root, w) = Some st) \<longleftrightarrow>
        (uart_cmd ?a = UART_CMD_MULTISTAGE_STATE \<longrightarrow> (\<exists>v t. read_block (attr_value ?a) 3 = Some v \<and>
          (if v ! 2 \<noteq> 0 then rd (remind (g_cloud_dev w)) (unat (v ! 1)) else Some []) = Some t))"
      by (cases "read_block (attr_value ?a) 3") (auto simp: get_attr_report_value_def report_item_def Let_def option_bind_Some_iff)
    with 2 stage_reads [OF assms(1), of "remind (g_cloud_dev w)"] show ?thesis
      by (simp add: attr_readable_def link_types)
  next
    case 3
    with text_reads [OF assms(1), of env] b show ?thesis
      by (auto simp: get_attr_report_value_def attr_readable_def report_item_def Let_def link_types option_bind_Some_iff)
  next
    case 4
    with assms(2) b show ?thesis
      by (auto simp: get_attr_report_value_def attr_readable_def report_item_def no_recipe_def Let_def link_types option_bind_Some_iff)
  qed (simp add: get_attr_report_value_def attr_readable_def)
qed

section \<open>The table\<close>

text \<open>A walk that returns at every index exactly when a condition on that index holds.\<close>

lemma foldM_upt_iff:
  assumes step: "\<And>i s. Q i s \<Longrightarrow> i < n \<Longrightarrow> (\<exists>s'. f i s = Some s') \<longleftrightarrow> ok i"
    and keep: "\<And>i s s'. Q i s \<Longrightarrow> i < n \<Longrightarrow> f i s = Some s' \<Longrightarrow> Q (Suc i) s'"
    and "k \<le> n" and "Q k s"
  shows "(\<exists>s'. foldM f [k..<n] s = Some s') \<longleftrightarrow> (\<forall>i \<in> {k..<n}. ok i)"
  using assms(3,4)
proof (induction "n - k" arbitrary: k s)
  case (Suc d)
  then have k: "k < n" by simp
  then have u: "[k..<n] = k # [Suc k..<n]" and r: "{k..<n} = insert k {Suc k..<n}" by (auto simp: upt_conv_Cons)
  show ?case
  proof (cases "f k s")
    case None
    with step [OF Suc.prems(2) k] show ?thesis by (simp add: u r)
  next
    case (Some t)
    with Suc.hyps(1) [of "Suc k" t] Suc.hyps(2) k step [OF Suc.prems(2) k] keep [OF Suc.prems(2) k Some]
    show ?thesis by (simp add: u r)
  qed
qed simp

text \<open>What a report of attribute \<open>j\<close> leaves as it is: every other attribute and the reminders.\<close>

definition touches :: "nat \<Rightarrow> 'db world \<Rightarrow> 'db world \<Rightarrow> bool" where
  "touches j w w' \<longleftrightarrow> attr_len w' = attr_len w \<and> remind (g_cloud_dev w') = remind (g_cloud_dev w) \<and>
     (\<forall>k. k \<noteq> j \<longrightarrow> attr_at w' k = attr_at w k)"

lemma touches_refl [simp]: "touches j w w" "touches j w (set_attr_at j a w)"
  by (simp_all add: touches_def set_attr_at_def)

lemma event_touches: "get_attr_report_event j v ev w = Some w' \<Longrightarrow> g_cloud_dev w' = g_cloud_dev w"
  by (auto simp: get_attr_report_event_def Let_def option_bind_Some_iff split: if_split_asm)

lemma value_touches:
  assumes "get_attr_report_value env j (root, w) = Some (root', w')" and "attr_typed (attr_at w j)" and "no_recipe (attr_at w j)"
  shows "touches j w w'"
  using assms(1,3) typed_parts(3) [OF assms(2)]
  by (auto simp: get_attr_report_value_def report_item_def report_string_def no_recipe_def Let_def option_bind_Some_iff
      split: if_split_asm option.split_asm)

text \<open>The walk up to attribute \<open>i\<close> has not touched the attributes from \<open>i\<close> on.\<close>

definition untouched :: "'db world \<Rightarrow> nat \<Rightarrow> json \<times> 'db world \<Rightarrow> bool" where
  "untouched w i st \<longleftrightarrow> attr_len (snd st) = attr_len w \<and> remind (g_cloud_dev (snd st)) = remind (g_cloud_dev w) \<and>
     (\<forall>k \<ge> i. attr_at (snd st) k = attr_at w k)"

lemma untouched_step: "untouched w i (root, v) \<Longrightarrow> touches i v v' \<Longrightarrow> untouched w (Suc i) (root', v')"
  by (simp add: untouched_def touches_def)

lemma event_reads:
  assumes "attr_typed (attr_at w j)"
  shows "(\<exists>w'. get_attr_report_event j (first_byte (attr_value (attr_at w j))) True w = Some w') \<longleftrightarrow> event_readable (attr_at w j)"
  using first_byte_typed [OF assms]
  by (cases "first_byte (attr_value (attr_at w j))") (auto simp: get_attr_report_event_def event_readable_def Let_def)

definition report_all_step :: "'db env \<Rightarrow> nat \<Rightarrow> json \<times> 'db world \<Rightarrow> (json \<times> 'db world) option" where
  "report_all_step env j st = (case st of (root, w) \<Rightarrow> do {
     w \<leftarrow> get_attr_report_event j (first_byte (attr_value (attr_at w j))) True w;
     get_attr_report_value env j (root, w)
   })"

lemma untouched_reads:
  assumes "untouched w i st" and "i < attr_len w" and "\<forall>a \<in> set (attrs (g_cloud_dev w)). attr_typed a" and "\<forall>a \<in> set (attrs (g_cloud_dev w)). no_recipe a"
  shows "attr_typed (attr_at (snd st) i)" "no_recipe (attr_at (snd st) i)" "attr_at (snd st) i = attr_at w i"
    "remind (g_cloud_dev (snd st)) = remind (g_cloud_dev w)"
  using assms by (simp_all add: untouched_def)

lemma all_step_reads:
  assumes "attr_typed (attr_at v j)" and "no_recipe (attr_at v j)"
  shows "(\<exists>st. report_all_step env j (root, v) = Some st) \<longleftrightarrow>
    attr_readable env (remind (g_cloud_dev v)) (attr_at v j) \<and> event_readable (attr_at v j)"
proof (cases "get_attr_report_event j (first_byte (attr_value (attr_at v j))) True v")
  case None
  with event_reads [OF assms(1)] show ?thesis by (simp add: report_all_step_def)
next
  case (Some u)
  then have "g_cloud_dev u = g_cloud_dev v" by (rule event_touches)
  with Some event_reads [OF assms(1)] value_reads [of u j env root] assms show ?thesis by (simp add: report_all_step_def)
qed

lemma all_step_touches:
  assumes "report_all_step env j (root, v) = Some (root', v')" and "attr_typed (attr_at v j)" and "no_recipe (attr_at v j)"
  shows "touches j v v'"
proof -
  obtain u where u: "get_attr_report_event j (first_byte (attr_value (attr_at v j))) True v = Some u"
    and v': "get_attr_report_value env j (root, u) = Some (root', v')"
    using assms(1) by (auto simp: report_all_step_def option_bind_Some_iff)
  have "g_cloud_dev u = g_cloud_dev v" using u by (rule event_touches)
  with value_touches [OF v'] assms(2,3) show ?thesis by (simp add: touches_def)
qed

lemma history_asked:
  "\<exists>st. database_resp_get env (Some (cJSON_AddNullToObject cJSON_CreateObject ''CookHistorySimple'')) (cJSON_CreateObject, w) = Some st"
  by (simp add: database_resp_get_def attr_resp_get_def g_database_set_attr_def cJSON_CreateObject_def cJSON_HasObjectItem_def
      cJSON_GetObjectItem_def case_insensitive_eq_def tolower_def set_attr_report_uds_def link_types CookHistorySimple_cb_def)

lemma send_all_walk:
  "(\<exists>w'. send_all_to_cloud env w = Some w') \<longleftrightarrow>
    (\<exists>st. foldM (report_all_step env) [0..<attr_len w] (cJSON_CreateObject, w) = Some st)"
proof (cases "foldM (report_all_step env) [0..<attr_len w] (cJSON_CreateObject, w)")
  case (Some st)
  obtain root u where st: "st = (root, u)" by (cases st)
  obtain j v where "database_resp_get env (Some (cJSON_AddNullToObject cJSON_CreateObject ''CookHistorySimple''))
      (cJSON_CreateObject, linkkit_user_post_property (Some (cJSON_PrintUnformatted root)) u) = Some (j, v)"
    using history_asked by (metis surj_pair)
  with Some show ?thesis
    unfolding send_all_to_cloud_def report_all_step_def [abs_def] by (simp add: case_prod_unfold Let_def st)
qed (simp add: send_all_to_cloud_def report_all_step_def [abs_def] case_prod_unfold)

lemma values_read:
  assumes "\<forall>a \<in> set (attrs (g_cloud_dev w)). attr_typed a" and "\<forall>a \<in> set (attrs (g_cloud_dev w)). no_recipe a"
  shows "((\<exists>st. cloud_resp_getall env (root, w) = Some st) \<longleftrightarrow>
      (\<forall>a \<in> set (attrs (g_cloud_dev w)). attr_readable env (remind (g_cloud_dev w)) a)) \<and>
    ((\<exists>w'. send_all_to_cloud env w = Some w') \<longleftrightarrow>
      (\<forall>a \<in> set (attrs (g_cloud_dev w)). attr_readable env (remind (g_cloud_dev w)) a \<and> event_readable a))"
proof
  let ?n = "attr_len w" and ?ok = "attr_readable env (remind (g_cloud_dev w))"
  have start: "untouched w 0 (r, w)" for r by (simp add: untouched_def)
  have all: "(\<forall>i \<in> {0..<?n}. P (attr_at w i)) \<longleftrightarrow> (\<forall>a \<in> set (attrs (g_cloud_dev w)). P a)" for P
    by (auto simp: all_set_conv_all_nth)
  note reads = untouched_reads [OF _ _ assms]
  have "(\<exists>st. foldM (get_attr_report_value env) [0..<?n] (root, w) = Some st) \<longleftrightarrow> (\<forall>i \<in> {0..<?n}. ?ok (attr_at w i))"
  proof (rule foldM_upt_iff [where Q = "untouched w"])
    fix i and st st' :: "json \<times> 'a world"
    assume st: "untouched w i st" "i < ?n"
    show "(\<exists>st'. get_attr_report_value env i st = Some st') \<longleftrightarrow> ?ok (attr_at w i)"
      using value_reads [OF reads(1,2) [OF st], of env "fst st"] reads(3,4) [OF st] by simp
    show "untouched w (Suc i) st'" if "get_attr_report_value env i st = Some st'"
      using value_touches [of env i "fst st" "snd st" "fst st'" "snd st'"] that reads [OF st] st(1)
        untouched_step [of w i "fst st" "snd st" "snd st'" "fst st'"] by simp
  qed (simp_all add: start)
  then show "(\<exists>st. cloud_resp_getall env (root, w) = Some st) \<longleftrightarrow> (\<forall>a \<in> set (attrs (g_cloud_dev w)). ?ok a)"
    by (simp add: cloud_resp_getall_def all)
  have "(\<exists>st. foldM (report_all_step env) [0..<?n] (cJSON_CreateObject, w) = Some st) \<longleftrightarrow>
      (\<forall>i \<in> {0..<?n}. ?ok (attr_at w i) \<and> event_readable (attr_at w i))"
  proof (rule foldM_upt_iff [where Q = "untouched w"])
    fix i and st st' :: "json \<times> 'a world"
    assume st: "untouched w i st" "i < ?n"
    show "(\<exists>st'. report_all_step env i st = Some st') \<longleftrightarrow> ?ok (attr_at w i) \<and> event_readable (attr_at w i)"
      using all_step_reads [OF reads(1,2) [OF st], of env "fst st"] reads(3,4) [OF st] by simp
    show "untouched w (Suc i) st'" if "report_all_step env i st = Some st'"
      using all_step_touches [of env i "fst st" "snd st" "fst st'" "snd st'"] that reads [OF st] st(1)
        untouched_step [of w i "fst st" "snd st" "snd st'" "fst st'"] by simp
  qed (simp_all add: start)
  then show "(\<exists>w'. send_all_to_cloud env w = Some w') \<longleftrightarrow> (\<forall>a \<in> set (attrs (g_cloud_dev w)). ?ok a \<and> event_readable a)"
    by (simp add: send_all_walk all [of "\<lambda>a. ?ok a \<and> event_readable a"])
qed

section \<open>A record that has just been loaded\<close>

definition attr_fresh :: "cloud_attr \<Rightarrow> bool" where
  "attr_fresh a \<longleftrightarrow> cloud_fun_type a = 0 \<and>
     attr_value a = (if uart_byte_len a = 0 then None else Some (replicate (unat (uart_byte_len a)) 0))"

lemma entry_fresh: "attr_entry sub = Some a \<Longrightarrow> attr_fresh a"
  by (auto simp: attr_entry_def attr_fresh_def Let_def option_bind_Some_iff word_gt_0 split: option.split_asm)

lemma attr_zero_fresh: "attr_fresh attr_zero"
  by (simp add: attr_zero_def attr_fresh_def)

lemma profile_fresh:
  assumes "cloud_parse_json env str = Some (Some d)"
  shows "\<forall>a \<in> set (attrs d). attr_fresh a"
proof -
  have entries: "\<forall>a \<in> set as. attr_fresh a"
    if "foldM (\<lambda>i as. case cJSON_GetArrayItem x i of None \<Rightarrow> Some (as @ [attr_zero])
        | Some sub \<Rightarrow> do { a \<leftarrow> attr_entry sub; Some (as @ [a]) }) is [] = Some as" for x "is" as
    by (rule foldM_invariant [OF that, where P = "\<lambda>as. \<forall>a \<in> set as. attr_fresh a"])
      (auto simp: option_bind_Some_iff attr_zero_fresh dest: entry_fresh split: option.split_asm)
  show ?thesis using assms
    by (auto simp: cloud_parse_json_def option_bind_Some_iff dest: entries split: option.split_asm if_split_asm)
qed

lemma load_fresh: "cloud_init env w = Some (r, Some w') \<Longrightarrow> \<forall>a \<in> set (attrs (g_cloud_dev w')). attr_fresh a"
  by (auto simp: cloud_quad_parse_json_def option_bind_Some_iff dest!: cloud_init_parts profile_fresh split: option.split_asm)

text \<open>What the profile has to say about an attribute for the first report to return.\<close>

definition layout_reportable :: "'db env \<Rightarrow> cloud_attr \<Rightarrow> bool" where
  "layout_reportable env a \<longleftrightarrow> cloud_key a = [] \<or>
     (let len = unat (uart_byte_len a) in
        (cloud_value_type a = LINK_VALUE_TYPE_STRUCT \<and> uart_cmd a = UART_CMD_MULTISTAGE_STATE \<longrightarrow> len \<ge> 3) \<and>
        (cloud_value_type a = LINK_VALUE_TYPE_STRING \<longrightarrow>
           (cloud_key a \<in> {''ElcSWVersion'', ''ElcHWVersion''} \<longrightarrow> len \<ge> 1) \<and> (cloud_key a = ''WifiMac'' \<longrightarrow> env_hwaddr env \<noteq> None)) \<and>
        (cloud_value_type a = LINK_VALUE_TYPE_NUM \<and> cloud_key a \<in> {''LStOvState'', ''RStOvState'', ''ErrorCodeShow''} \<longrightarrow> len \<ge> 1))"

lemma cloud_val_zero: "cloud_val (replicate n 0) = 0"
  by (induction n) (simp_all add: cloud_val_def i32_def)

lemma fresh_no_recipe: "attr_fresh a \<Longrightarrow> no_recipe a"
  using cloud_val_zero [of 0] by (simp add: attr_fresh_def no_recipe_def cloud_val_zero)

lemma fresh_readable:
  assumes "attr_fresh a"
  shows "attr_readable env texts a \<and> event_readable a \<longleftrightarrow> layout_reportable env a"
proof (cases "uart_byte_len a = 0")
  case True
  with assms show ?thesis
    by (auto simp: attr_fresh_def attr_readable_def event_readable_def layout_reportable_def text_readable_def stage_readable_def
        reportable_def link_types)
next
  case False
  then have "0 < unat (uart_byte_len a)" by (simp add: unat_gt_0)
  with False assms show ?thesis
    by (auto simp: attr_fresh_def attr_readable_def event_readable_def layout_reportable_def text_readable_def stage_readable_def
        reportable_def link_types)
qed

lemma first_report_after_load:
  assumes "cloud_init env w0 = Some (r, Some w)"
  shows "(\<exists>w'. send_all_to_cloud env w = Some w') \<longleftrightarrow> (\<forall>a \<in> set (attrs (g_cloud_dev w)). layout_reportable env a)"
  using values_read [of w env] load_typed [OF assms] load_fresh [OF assms]
  by (simp add: dev_typed_def fresh_no_recipe fresh_readable)

section \<open>Properties\<close>

text \<open>C30: While no recipe is cooked by its number, a \<open>GETALL\<close> of the attributes of the power board returns exactly when
  every reported text has a NUL where the code looks for one and a due reminder names a text, and the
  report after connecting to the cloud returns exactly when, besides, the states and errors that raise
  events have a value. A text of full length without a NUL thus makes both read behind their copy.\<close>

theorem values_reported:
  assumes "\<forall>a \<in> set (attrs (g_cloud_dev w)). attr_typed a" and "\<forall>a \<in> set (attrs (g_cloud_dev w)). no_recipe a"
  shows "((\<exists>st. cloud_resp_getall env (root, w) = Some st) \<longleftrightarrow>
      (\<forall>a \<in> set (attrs (g_cloud_dev w)). attr_readable env (remind (g_cloud_dev w)) a)) \<and>
    ((\<exists>w'. send_all_to_cloud env w = Some w') \<longleftrightarrow>
      (\<forall>a \<in> set (attrs (g_cloud_dev w)). attr_readable env (remind (g_cloud_dev w)) a \<and> event_readable a))"
  using assms by (rule values_read)

text \<open>Some attributes of the shipped profile, with the text of a recipe that fills its field or does not.\<close>

definition shown_dev :: "bytes \<Rightarrow> cloud_dev" where
  "shown_dev name = cloud_dev_zero\<lparr>attrs := [
     \<lparr>cloud_key = ''ComSWVersion'', cloud_value_type = 2, cloud_fun_type = 0, uart_cmd = 0, uart_byte_len = 0, attr_value = None\<rparr>,
     \<lparr>cloud_key = ''ElcSWVersion'', cloud_value_type = 2, cloud_fun_type = 0, uart_cmd = 1, uart_byte_len = 1, attr_value = Some [18]\<rparr>,
     \<lparr>cloud_key = ''LStOvState'', cloud_value_type = 0, cloud_fun_type = 0, uart_cmd = 66, uart_byte_len = 1, attr_value = Some [4]\<rparr>,
     \<lparr>cloud_key = ''MultiStageState'', cloud_value_type = 3, cloud_fun_type = 0, uart_cmd = 77, uart_byte_len = 3,
        attr_value = Some [3, 1, 1]\<rparr>,
     \<lparr>cloud_key = ''CookbookID'', cloud_value_type = 0, cloud_fun_type = 0, uart_cmd = 80, uart_byte_len = 4,
        attr_value = Some [0, 0, 0, 0]\<rparr>,
     \<lparr>cloud_key = ''CookbookName'', cloud_value_type = 2, cloud_fun_type = 0, uart_cmd = 0, uart_byte_len = 4,
        attr_value = Some name\<rparr>]\<rparr>"

lemma values_reported_witness:
  "(\<exists>w'. send_all_to_cloud (env_of null_engine) (world_zero (shown_dev [82, 105, 99, 0]) ()) = Some w') \<and>
   cloud_resp_getall (env_of null_engine) (JObj [], world_zero (shown_dev [82, 105, 99, 101]) ()) = None \<and>
   send_all_to_cloud (env_of null_engine) (world_zero (shown_dev [82, 105, 99, 101]) ()) = None"
proof -
  let ?env = "env_of null_engine"
  have g: "g_cloud_dev (world_zero (shown_dev name) ()) = shown_dev name" for name by (simp add: world_zero_def)
  have typed: "\<forall>a \<in> set (attrs (shown_dev name)). attr_typed a" "\<forall>a \<in> set (attrs (shown_dev name)). no_recipe a" if "length name = 4" for name
    using that by (simp_all add: shown_dev_def cloud_dev_zero_def attr_typed_def no_recipe_def cloud_val_def i32_def)
  have ok: "(\<forall>a \<in> set (attrs (shown_dev [82, 105, 99, c])). attr_readable ?env (remind (shown_dev [82, 105, 99, c])) a) \<longleftrightarrow> c = 0"
    "\<forall>a \<in> set (attrs (shown_dev [82, 105, 99, c])). event_readable a" for c
    by (auto simp: shown_dev_def cloud_dev_zero_def attr_readable_def event_readable_def text_readable_def
        stage_readable_def reportable_def link_types UART_CMD_MULTISTAGE_STATE_def)
  have "cloud_resp_getall ?env (JObj [], world_zero (shown_dev [82, 105, 99, c]) ()) = None \<longleftrightarrow> c \<noteq> 0"
    "(\<exists>w'. send_all_to_cloud ?env (world_zero (shown_dev [82, 105, 99, c]) ()) = Some w') \<longleftrightarrow> c = 0" for c
    using values_reported [of "world_zero (shown_dev [82, 105, 99, c]) ()" ?env "JObj []"] typed [of "[82, 105, 99, c]"] ok [of c]
    by (auto simp: g simp flip: not_None_eq)
  from this [of 0] this [of 101] show ?thesis
    by simp
qed

end
