(* ===== verification/X50_Json_Text.thy ===== *)
theory X50_Json_Text
  imports X50_Json_Parse
begin

text \<open>
  Texts of an item with white space between the tokens: the formatted printer and \<open>cJSON_Minify\<close> of
  \<open>liblinktool/cJSON/cJSON.c\<close>, and a grammar of the texts of an item, which the parser reads, both printers
  produce, and \<open>cJSON_Minify\<close> maps to the one without white space.
\<close>

section \<open>Printing with white space\<close>

abbreviation tabs :: "nat \<Rightarrow> string" where "tabs n \<equiv> replicate n (CHR 0x09)"

text \<open>\<open>print_array\<close> and \<open>print_object\<close> with the flag \<open>format\<close>, on the texts of the values. \<open>d\<close> is the depth of
  the members. An empty object is printed on two lines as well.\<close>

fun print_array_items :: "string list \<Rightarrow> string" where
  "print_array_items [] = []"
| "print_array_items (x # xs) = x @ (if xs = [] then [] else '', '') @ print_array_items xs"

fun print_object_items :: "nat \<Rightarrow> (string \<times> string) list \<Rightarrow> string" where
  "print_object_items d [] = []"
| "print_object_items d ((k, v) # kvs) =
     tabs d @ print_string_ptr k @ [CHR '':'', CHR 0x09] @ v @ (if kvs = [] then [] else '','') @ [CHR 0x0A]
       @ print_object_items d kvs"

fun print_formatted :: "nat \<Rightarrow> json \<Rightarrow> string" where
  "print_formatted d JNull = ''null''"
| "print_formatted d (JBool b) = (if b then ''true'' else ''false'')"
| "print_formatted d (JNum n) = dec_int n"
| "print_formatted d (JStr s) = print_string_ptr s"
| "print_formatted d (JArr xs) = CHR ''['' # print_array_items (map (print_formatted (d + 1)) xs) @ '']''"
| "print_formatted d (JObj kvs) =
     CHR ''{'' # CHR 0x0A # print_object_items (d + 1) (map (\<lambda>(k, v). (k, print_formatted (d + 1) v)) kvs) @ tabs d @ ''}''"

definition cJSON_Print :: "json \<Rightarrow> string" where
  "cJSON_Print j = print_formatted 0 j"

section \<open>Taking the white space out\<close>

text \<open>The text is changed in place; what has been written never reaches what is still to be read. The
  arguments are the text behind the opening characters.\<close>

fun skip_oneline_comment :: "string \<Rightarrow> string" where
  "skip_oneline_comment [] = []"
| "skip_oneline_comment (c # cs) = (if c = CHR 0x0A then cs else skip_oneline_comment cs)"

fun skip_multiline_comment :: "string \<Rightarrow> string" where
  "skip_multiline_comment [] = []"
| "skip_multiline_comment (c # cs) =
     (if c = CHR ''*'' \<and> take 1 cs = ''/'' then drop 1 cs else skip_multiline_comment cs)"

fun minify_string :: "string \<Rightarrow> string \<times> string" where
  "minify_string [] = ([], [])"
| "minify_string (c # cs) =
     (if c = CHR 0x22 then ([c], cs)
      else if c = CHR 0x5C \<and> take 1 cs = [CHR 0x22] then apfst (\<lambda>out. c # CHR 0x22 # out) (minify_string (drop 1 cs))
      else apfst ((#) c) (minify_string cs))"

lemma skip_oneline_length: "length (skip_oneline_comment s) \<le> length s"
  by (induction s) auto

lemma skip_multiline_length: "length (skip_multiline_comment s) \<le> length s"
  by (induction s rule: skip_multiline_comment.induct) auto

lemma minify_string_length: "length (snd (minify_string s)) \<le> length s"
  by (induction s rule: minify_string.induct) auto

function cJSON_Minify :: "string \<Rightarrow> string" where
  "cJSON_Minify [] = []"
| "cJSON_Minify (c # cs) =
     (if c \<in> {CHR '' '', CHR 0x09, CHR 0x0D, CHR 0x0A} then cJSON_Minify cs
      else if c = CHR ''/'' then
        if take 1 cs = ''/'' then cJSON_Minify (skip_oneline_comment (drop 1 cs))
        else if take 1 cs = ''*'' then cJSON_Minify (skip_multiline_comment (drop 1 cs))
        else cJSON_Minify cs
      else if c = CHR 0x22 then CHR 0x22 # fst (minify_string cs) @ cJSON_Minify (snd (minify_string cs))
      else c # cJSON_Minify cs)"
  by pat_completeness auto
termination
proof (relation "measure length", goal_cases)
  case (3 c cs)
  then show ?case using skip_oneline_length [of "drop 1 cs"] by simp
next
  case (4 c cs)
  then show ?case using skip_multiline_length [of "drop 1 cs"] by simp
next
  case (6 c cs)
  then show ?case using minify_string_length [of cs] by simp
qed simp_all

declare cJSON_Minify.simps(2) [simp del]

section \<open>A grammar of the texts of an item\<close>

text \<open>The white space of JSON; the parser skips every control character besides.\<close>

definition white :: "string \<Rightarrow> bool" where
  "white w \<longleftrightarrow> set w \<subseteq> {CHR '' '', CHR 0x09, CHR 0x0D, CHR 0x0A}"

inductive
  json_text :: "nat \<Rightarrow> json \<Rightarrow> string \<Rightarrow> bool" and
  items_text :: "nat \<Rightarrow> json list \<Rightarrow> string \<Rightarrow> bool" and
  members_text :: "nat \<Rightarrow> (string \<times> json) list \<Rightarrow> string \<Rightarrow> bool"
where
  null: "json_text d JNull ''null''"
| true: "json_text d (JBool True) ''true''"
| false: "json_text d (JBool False) ''false''"
| num: "INT_MIN \<le> n \<Longrightarrow> n \<le> INT_MAX \<Longrightarrow> json_text d (JNum n) (dec_int n)"
| str: "CHR 0x00 \<notin> set s \<Longrightarrow> json_text d (JStr s) (print_string_ptr s)"
| no_items: "d < CJSON_NESTING_LIMIT \<Longrightarrow> white w \<Longrightarrow> json_text d (JArr []) (CHR ''['' # w @ '']'')"
| items: "d < CJSON_NESTING_LIMIT \<Longrightarrow> items_text (d + 1) xs s \<Longrightarrow> json_text d (JArr xs) (CHR ''['' # s @ '']'')"
| no_members: "d < CJSON_NESTING_LIMIT \<Longrightarrow> white w \<Longrightarrow> json_text d (JObj []) (CHR ''{'' # w @ ''}'')"
| members: "d < CJSON_NESTING_LIMIT \<Longrightarrow> members_text (d + 1) kvs s \<Longrightarrow> json_text d (JObj kvs) (CHR ''{'' # s @ ''}'')"
| item: "json_text d x s \<Longrightarrow> white w \<Longrightarrow> white w' \<Longrightarrow> items_text d [x] (w @ s @ w')"
| item_cons: "json_text d x s \<Longrightarrow> white w \<Longrightarrow> white w' \<Longrightarrow> items_text d xs t \<Longrightarrow>
    items_text d (x # xs) (w @ s @ w' @ CHR '','' # t)"
| member: "CHR 0x00 \<notin> set k \<Longrightarrow> json_text d v s \<Longrightarrow> white w \<Longrightarrow> white w1 \<Longrightarrow> white w2 \<Longrightarrow> white w' \<Longrightarrow>
    members_text d [(k, v)] (w @ print_string_ptr k @ w1 @ CHR '':'' # w2 @ s @ w')"
| member_cons: "CHR 0x00 \<notin> set k \<Longrightarrow> json_text d v s \<Longrightarrow> white w \<Longrightarrow> white w1 \<Longrightarrow> white w2 \<Longrightarrow> white w' \<Longrightarrow>
    members_text d kvs t \<Longrightarrow>
    members_text d ((k, v) # kvs) (w @ print_string_ptr k @ w1 @ CHR '':'' # w2 @ s @ w' @ CHR '','' # t)"

inductive_cases no_items_text [elim!]: "items_text d [] s"
inductive_cases no_members_text [elim!]: "members_text d [] s"

section \<open>The parser reads every text of an item\<close>

lemma skip_white [simp]: "white w \<Longrightarrow> buffer_skip_whitespace (w @ s) = buffer_skip_whitespace s"
  by (induction w) (auto simp: white_def buffer_skip_whitespace_def)

lemma white_number_ends: "white w \<Longrightarrow> number_ends s \<Longrightarrow> number_ends (w @ s)"
  by (cases w) (auto simp: white_def number_ends_def number_char_def is_digit_def)

lemma text_start:
  assumes "json_text d j s"
  shows "\<exists>c cs. s = c # cs \<and> value_start c"
  using assms
proof (cases rule: json_text.cases)
  case (num n)
  show ?thesis
    by (rule dec_nat_Cons [of "nat n"]) (auto simp: num dec_int_def value_start_def is_digit_def)
qed (auto simp: value_start_def print_string_ptr_def)

lemma skip_text [simp]: "json_text d j s \<Longrightarrow> buffer_skip_whitespace (s @ t) = s @ t"
  using text_start [of d j s] by auto

lemma items_text_start:
  "items_text d xs s \<Longrightarrow> \<exists>c cs. buffer_skip_whitespace (s @ t) = c # cs \<and> value_start c"
  by (cases rule: items_text.cases) (auto dest!: text_start)

lemma members_text_start:
  "members_text d kvs s \<Longrightarrow> \<exists>c cs. buffer_skip_whitespace (s @ t) = c # cs \<and> value_start c"
  by (cases rule: members_text.cases, assumption; simp; simp add: print_string_ptr_def value_start_def)

text \<open>The brackets around items and members.\<close>

lemma parse_items:
  assumes "parse_array (d + 1) (buffer_skip_whitespace (s @ CHR '']'' # t)) = Some (xs, t)"
    and "items_text (d + 1) xs s" and "d < CJSON_NESTING_LIMIT"
  shows "parse_value d (CHR ''['' # s @ CHR '']'' # t) = Some (JArr xs, t)"
  using items_text_start [OF assms(2), of "CHR '']'' # t"] assms
  by (auto simp: parse_value_Cons is_digit_def value_start_def)

lemma parse_members:
  assumes "parse_object (d + 1) (buffer_skip_whitespace (s @ CHR ''}'' # t)) = Some (kvs, t)"
    and "members_text (d + 1) kvs s" and "d < CJSON_NESTING_LIMIT"
  shows "parse_value d (CHR ''{'' # s @ CHR ''}'' # t) = Some (JObj kvs, t)"
  using members_text_start [OF assms(2), of "CHR ''}'' # t"] assms
  by (auto simp: parse_value_Cons is_digit_def value_start_def)

lemma parse_text:
  "json_text d j s \<Longrightarrow> number_ends t \<Longrightarrow> parse_value d (s @ t) = Some (j, t)"
  "items_text d xs s' \<Longrightarrow> parse_array d (buffer_skip_whitespace (s' @ CHR '']'' # t)) = Some (xs, t)"
  "members_text d kvs s'' \<Longrightarrow> parse_object d (buffer_skip_whitespace (s'' @ CHR ''}'' # t)) = Some (kvs, t)"
proof (induction d j s and d xs s' and d kvs s'' arbitrary: t and t and t
    rule: json_text_items_text_members_text.inducts)
  case (num n d)
  then show ?case using parse_value_print [of d "JNum n" t] by simp
next
  case (str s d)
  then show ?case using parse_value_print [of d "JStr s" t] by simp
next
  case (items d xs s)
  then show ?case using parse_items [of d s t xs] by simp
next
  case (members d kvs s)
  then show ?case using parse_members [of d s t kvs] by simp
next
  case (item d x s w w')
  then show ?case
    by (subst parse_array_eq) (simp add: white_number_ends)
next
  case (item_cons d x s w w' xs t')
  then show ?case
    by (subst parse_array_eq) (simp add: white_number_ends)
next
  case (member k d v s w w1 w2 w')
  then show ?case
    by (subst parse_object_eq) (simp add: white_number_ends parse_string_print)
next
  case (member_cons k d v s w w1 w2 w' kvs t')
  then show ?case
    by (subst parse_object_eq) (simp add: white_number_ends parse_string_print)
qed (simp_all add: parse_value_Cons is_digit_def)

section \<open>Both printers produce texts of the item\<close>

lemma white_simps [simp]: "white []" "white (c # w) \<longleftrightarrow> c \<in> {CHR '' '', CHR 0x09, CHR 0x0D, CHR 0x0A} \<and> white w"
  "white (v @ w) \<longleftrightarrow> white v \<and> white w" "white (tabs n)"
  by (auto simp: white_def)

lemma items_text_print:
  assumes "xs \<noteq> []" and "\<And>x. x \<in> set xs \<Longrightarrow> json_text d x (f x)" and "white w" and "white w'"
  shows "items_text d xs (w @ print_array_items (map f xs) @ w')"
  using assms
proof (induction xs arbitrary: w rule: list_nonempty_induct)
  case (single x)
  then show ?case using item [of d x "f x" w w'] by simp
next
  case (cons x xs)
  have "items_text d xs ('' '' @ print_array_items (map f xs) @ w')" using cons.IH [of "'' ''"] cons.prems by simp
  then show ?case using item_cons [of d x "f x" w "[]"] cons.hyps cons.prems by simp
qed

lemma members_text_print:
  assumes "kvs \<noteq> []" and "\<And>k v. (k, v) \<in> set kvs \<Longrightarrow> CHR 0x00 \<notin> set k \<and> json_text d v (f v)" and "white w" and "white w'"
  shows "members_text d kvs (w @ print_object_items n (map (\<lambda>(k, v). (k, f v)) kvs) @ w')"
  using assms
proof (induction kvs arbitrary: w rule: list_nonempty_induct)
  case (single kv)
  then show ?case
    using member [of "fst kv" d "snd kv" "f (snd kv)" "w @ tabs n" "[]" "[CHR 0x09]" "CHR 0x0A # w'"] by (cases kv) simp
next
  case (cons kv kvs)
  have "members_text d kvs ([CHR 0x0A] @ print_object_items n (map (\<lambda>(k, v). (k, f v)) kvs) @ w')"
    by (rule cons.IH) (use cons.prems in auto)
  then show ?case
    using member_cons [of "fst kv" d "snd kv" "f (snd kv)" "w @ tabs n" "[]" "[CHR 0x09]" "[]"] cons.hyps cons.prems
      cons.prems(1) [of "fst kv" "snd kv"] by (cases kv) simp
qed

lemma print_formatted_text: "json_wf d j \<Longrightarrow> json_text d j (print_formatted n j)"
proof (induction d j arbitrary: n rule: json_wf.induct)
  case (2 d b)
  then show ?case by (cases b) (simp_all add: true false)
next
  case (5 d xs)
  then show ?case
    using items_text_print [of xs "d + 1" "print_formatted (n + 1)" "[]" "[]"] no_items [of d "[]"]
    by (cases "xs = []") (auto simp: list_all_iff intro!: items)
next
  case (6 d kvs)
  have val: "json_text (d + 1) v (print_formatted (n + 1) v)" if "(k, v) \<in> set kvs" for k v
    using 6(1) [OF that] 6(2) that by (auto simp: list_all_iff)
  let ?s = "[CHR 0x0A] @ print_object_items (n + 1) (map (\<lambda>(k, v). (k, print_formatted (n + 1) v)) kvs) @ tabs n"
  have "members_text (d + 1) kvs ?s"
    if "kvs \<noteq> []" using 6(2) that val by (intro members_text_print) (auto simp: list_all_iff)
  then show ?case
    using 6(2) no_members [of d "CHR 0x0A # tabs n"] members [of d kvs ?s] by (cases "kvs = []") simp_all
qed (simp_all add: null num str)


lemma items_text_plain:
  assumes "xs \<noteq> []" and "\<And>x. x \<in> set xs \<Longrightarrow> json_text d x (f x)"
  shows "items_text d xs (comma_sep (map f xs))"
  using assms
proof (induction xs rule: list_nonempty_induct)
  case (single x)
  then show ?case using item [of d x "f x" "[]" "[]"] by simp
next
  case (cons x xs)
  then show ?case using item_cons [of d x "f x" "[]" "[]" xs] by (cases xs) auto
qed

lemma members_text_plain:
  assumes "kvs \<noteq> []" and "\<And>k v. (k, v) \<in> set kvs \<Longrightarrow> CHR 0x00 \<notin> set k \<and> json_text d v (cJSON_PrintUnformatted v)"
  shows "members_text d kvs (comma_sep (map print_member kvs))"
  using assms
proof (induction kvs rule: list_nonempty_induct)
  case (single kv)
  then show ?case
    using member [of "fst kv" d "snd kv" _ "[]" "[]" "[]" "[]"] by (cases kv) simp
next
  case (cons kv kvs)
  then show ?case
    using member_cons [of "fst kv" d "snd kv" _ "[]" "[]" "[]" "[]" kvs] by (cases kv; cases kvs) auto
qed

lemma print_unformatted_text: "json_wf d j \<Longrightarrow> json_text d j (cJSON_PrintUnformatted j)"
proof (induction d j rule: json_wf.induct)
  case (2 d b)
  then show ?case by (cases b) (simp_all add: true false)
next
  case (5 d xs)
  then show ?case
    using items_text_plain [of xs "d + 1" cJSON_PrintUnformatted] no_items [of d "[]"]
    by (cases "xs = []") (auto simp: list_all_iff intro!: items)
next
  case (6 d kvs)
  have "json_text (d + 1) v (cJSON_PrintUnformatted v)" if "(k, v) \<in> set kvs" for k v
    using 6(1) [OF that] 6(2) that by (auto simp: list_all_iff)
  then have "members_text (d + 1) kvs (comma_sep (map print_member kvs))" if "kvs \<noteq> []"
    using 6(2) that by (intro members_text_plain) (auto simp: list_all_iff)
  then show ?case
    using 6(2) no_members [of d "[]"] by (cases "kvs = []") (auto intro: members [of d kvs, simplified])
qed (simp_all add: null num str)

section \<open>Taking the white space out of a text\<close>

text \<open>Inside a string, a backslash in front of a quote is taken for its escape, although the backslash may
  itself be escaped: a string that ends with a backslash is not seen to end.\<close>

fun ends_plain :: "json \<Rightarrow> bool" where
  "ends_plain (JStr s) \<longleftrightarrow> s = [] \<or> last s \<noteq> CHR 0x5C"
| "ends_plain (JArr xs) \<longleftrightarrow> list_all ends_plain xs"
| "ends_plain (JObj kvs) \<longleftrightarrow> list_all (\<lambda>(k, v). (k = [] \<or> last k \<noteq> CHR 0x5C) \<and> ends_plain v) kvs"
| "ends_plain _ \<longleftrightarrow> True"

lemma minify_char: "c \<notin> {CHR '' '', CHR 0x09, CHR 0x0D, CHR 0x0A, CHR ''/'', CHR 0x22} \<Longrightarrow>
    cJSON_Minify (c # s) = c # cJSON_Minify s"
  by (simp add: cJSON_Minify.simps(2))

lemma minify_white [simp]: "white w \<Longrightarrow> cJSON_Minify (w @ s) = cJSON_Minify s"
  by (induction w) (simp_all add: cJSON_Minify.simps(2))

lemma minify_chars: "\<forall>c \<in> set cs. c \<notin> {CHR '' '', CHR 0x09, CHR 0x0D, CHR 0x0A, CHR ''/'', CHR 0x22} \<Longrightarrow>
    cJSON_Minify (cs @ s) = cs @ cJSON_Minify s"
  by (induction cs) (simp_all add: minify_char)

lemma print_char_first: "take 1 (print_char c @ s) \<noteq> [CHR 0x22]"
  by (rule print_char_cases [of c]) simp_all

lemma minify_string_print:
  "s = [] \<or> last s \<noteq> CHR 0x5C \<Longrightarrow>
   minify_string (concat (map print_char s) @ CHR 0x22 # r) = (concat (map print_char s) @ [CHR 0x22], r)"
proof (induction s)
  case (Cons c s)
  then have IH: "minify_string (concat (map print_char s) @ CHR 0x22 # r) = (concat (map print_char s) @ [CHR 0x22], r)"
    by (cases s) auto
  show ?case
  proof (cases "c = CHR 0x5C")
    case True
    with Cons.prems obtain d ds where "s = d # ds" by (cases s) auto
    then have "take 1 (concat (map print_char s) @ CHR 0x22 # r) \<noteq> [CHR 0x22]"
      using print_char_first [of d "concat (map print_char ds) @ CHR 0x22 # r"] by (simp del: take_append)
    moreover have "print_char c = [CHR 0x5C, CHR 0x5C]" using True by (simp add: print_char_def)
    ultimately show ?thesis using True IH by simp
  next
    case False
    show ?thesis
      by (rule print_char_cases [of c]) (use False IH in \<open>auto simp: escape_char_def split: if_splits\<close>)
  qed
qed simp

lemma minify_print_string:
  "k = [] \<or> last k \<noteq> CHR 0x5C \<Longrightarrow> cJSON_Minify (print_string_ptr k @ s) = print_string_ptr k @ cJSON_Minify s"
  by (simp add: print_string_ptr_def cJSON_Minify.simps(2) minify_string_print)

lemma minify_dec_int: "cJSON_Minify (dec_int n @ s) = dec_int n @ cJSON_Minify s"
  by (rule minify_chars) (auto dest!: dec_int_number_char simp: number_char_def is_digit_def)

lemma minify_text:
  "json_text d j s \<Longrightarrow> ends_plain j \<Longrightarrow> cJSON_Minify (s @ t) = cJSON_PrintUnformatted j @ cJSON_Minify t"
  "items_text d xs s' \<Longrightarrow> list_all ends_plain xs \<Longrightarrow>
    cJSON_Minify (s' @ t) = comma_sep (map cJSON_PrintUnformatted xs) @ cJSON_Minify t"
  "members_text d kvs s'' \<Longrightarrow> list_all (\<lambda>(k, v). (k = [] \<or> last k \<noteq> CHR 0x5C) \<and> ends_plain v) kvs \<Longrightarrow>
    cJSON_Minify (s'' @ t) = comma_sep (map print_member kvs) @ cJSON_Minify t"
proof (induction d j s and d xs s' and d kvs s'' arbitrary: t and t and t
    rule: json_text_items_text_members_text.inducts)
  case (item_cons d x s w w' xs t')
  then obtain y ys where "xs = y # ys" by (cases xs) auto
  with item_cons show ?case by (simp add: minify_char)
next
  case (member_cons k d v s w w1 w2 w' kvs t')
  then obtain kv kvs' where "kvs = kv # kvs'" by (cases kvs) auto
  with member_cons show ?case by (simp add: minify_char minify_print_string)
qed (simp_all add: minify_char minify_print_string minify_dec_int)

section \<open>Properties\<close>

text \<open>C13: The parser reads every text of an item, whatever white space is around and between its tokens, as
  that item.\<close>

theorem json_texts_parsed:
  assumes "json_text 0 j s" and "white w" and "number_ends rest"
  shows "cJSON_Parse (w @ s @ rest) = Some j"
proof -
  have no_bom: "c \<noteq> CHR 0xEF" if "value_start c" for c using that by (auto simp: value_start_def)
  obtain c cs where c: "w @ s = c # cs" "c \<noteq> CHR 0xEF"
    using text_start [OF assms(1)] assms(2) by (cases w) (auto dest!: no_bom)
  then have "skip_utf8_bom ((w @ s) @ rest) = (w @ s) @ rest" unfolding c(1) by (simp add: skip_utf8_bom_def)
  then show ?thesis using parse_text(1) [OF assms(1,3)] assms(1,2) by (simp add: cJSON_Parse_def)
qed

lemma json_texts_parsed_witness:
  "cJSON_Parse (CHR 0x0A # ''[ 1 ,null]'' @ '' }'') = Some (JArr [JNum 1, JNull])"
proof -
  have one: "json_text 1 (JNum 1) ''1''"
    using num [of 1 1] by (simp add: INT_MIN_def INT_MAX_def dec_int_def dec_nat.simps char_of_def bit_Suc_0_iff)
  have "json_text 0 (JArr [JNum 1, JNull]) ''[ 1 ,null]''"
    using items [of 0 "[JNum 1, JNull]" "'' 1 ,null''"] item_cons [OF one, of "'' ''" "'' ''" "[JNull]" "''null''"]
      item [OF null, of "[]" "[]" 1] by (simp add: CJSON_NESTING_LIMIT_def)
  from json_texts_parsed [OF this, of "[CHR 0x0A]" "'' }''"] show ?thesis
    by (simp add: number_ends_def number_char_def is_digit_def)
qed

text \<open>C14: What \<open>cJSON_Print\<close> writes is read back as the same item, and without its white space it is what
  \<open>cJSON_PrintUnformatted\<close> writes, unless a string or key ends with a backslash.\<close>

theorem json_print_minify:
  assumes "json_wf 0 j"
  shows "cJSON_Parse (cJSON_Print j) = Some j \<and>
    (ends_plain j \<longrightarrow> cJSON_Minify (cJSON_Print j) = cJSON_PrintUnformatted j)"
proof -
  have t: "json_text 0 j (cJSON_Print j)" using assms by (simp add: cJSON_Print_def print_formatted_text)
  obtain c cs where c: "cJSON_Print j = c # cs" "value_start c" using text_start [OF t] by blast
  then have "skip_utf8_bom (cJSON_Print j) = cJSON_Print j" by (auto simp: skip_utf8_bom_def value_start_def)
  then show ?thesis
    using parse_text(1) [OF t, of "[]"] minify_text(1) [OF t, of "[]"] skip_text [OF t, of "[]"] by (simp add: cJSON_Parse_def)
qed

lemma json_print_minify_witness:
  "cJSON_Minify (cJSON_Print (JObj [(''Data'', JArr [JNum 7, JStr ''a b''])])) = cJSON_PrintUnformatted (JObj [(''Data'', JArr [JNum 7, JStr ''a b''])])"
  using json_print_minify [of "JObj [(''Data'', JArr [JNum 7, JStr ''a b''])]"]
  by (simp add: INT_MAX_def INT_MIN_def CJSON_NESTING_LIMIT_def)

text \<open>With such a string, the end of a string is taken for the beginning of the next, and the space in the
  second string is lost.\<close>

lemma minify_loses_space:
  "cJSON_Minify (cJSON_PrintUnformatted (JArr [JStr [CHR 0x5C], JStr ''a b'']))
   = cJSON_PrintUnformatted (JArr [JStr [CHR 0x5C], JStr ''ab''])"
  by (simp add: print_string_ptr_def print_char_def cJSON_Minify.simps(2))

end
