(* ===== verification/X50_Json_Edit.thy ===== *)
theory X50_Json_Edit
  imports X50_Json_Text "HOL-Library.Multiset"
begin

text \<open>
  Changing and comparing items: the rest of \<open>liblinktool/cJSON/cJSON.c\<close>. An operation that changes an item
  in place returns it; taking an item out of its parent returns both.

  An item is a tree, without parts that are shared by reference. A test whether two pointers are the same
  item is left out: it answers for an item and itself only.
\<close>

section \<open>The kind of an item\<close>

fun cJSON_IsBool :: "json \<Rightarrow> bool" where
  "cJSON_IsBool (JBool b) \<longleftrightarrow> True"
| "cJSON_IsBool _ \<longleftrightarrow> False"

definition cJSON_IsTrue :: "json \<Rightarrow> bool" where "cJSON_IsTrue j \<longleftrightarrow> j = JBool True"
definition cJSON_IsFalse :: "json \<Rightarrow> bool" where "cJSON_IsFalse j \<longleftrightarrow> j = JBool False"
definition cJSON_IsNull :: "json \<Rightarrow> bool" where "cJSON_IsNull j \<longleftrightarrow> j = JNull"

fun cJSON_IsNumber :: "json \<Rightarrow> bool" where
  "cJSON_IsNumber (JNum n) \<longleftrightarrow> True"
| "cJSON_IsNumber _ \<longleftrightarrow> False"

fun cJSON_IsString :: "json \<Rightarrow> bool" where
  "cJSON_IsString (JStr s) \<longleftrightarrow> True"
| "cJSON_IsString _ \<longleftrightarrow> False"

fun cJSON_IsArray :: "json \<Rightarrow> bool" where
  "cJSON_IsArray (JArr xs) \<longleftrightarrow> True"
| "cJSON_IsArray _ \<longleftrightarrow> False"

fun cJSON_IsObject :: "json \<Rightarrow> bool" where
  "cJSON_IsObject (JObj kvs) \<longleftrightarrow> True"
| "cJSON_IsObject _ \<longleftrightarrow> False"

section \<open>Members by name\<close>

definition key_eq :: "bool \<Rightarrow> string \<Rightarrow> string \<Rightarrow> bool" where
  "key_eq case_sensitive name k \<longleftrightarrow> (if case_sensitive then name = k else case_insensitive_eq name k)"

definition lookup :: "bool \<Rightarrow> (string \<times> 'a) list \<Rightarrow> string \<Rightarrow> 'a option" where
  "lookup case_sensitive kvs name = map_option snd (List.find (\<lambda>(k, v). key_eq case_sensitive name k) kvs)"

definition get_object_item :: "json \<Rightarrow> string \<Rightarrow> bool \<Rightarrow> json option" where
  "get_object_item ob name case_sensitive = (case ob of JObj kvs \<Rightarrow> lookup case_sensitive kvs name | _ \<Rightarrow> None)"

definition cJSON_GetObjectItemCaseSensitive :: "json option \<Rightarrow> string \<Rightarrow> json option" where
  "cJSON_GetObjectItemCaseSensitive ob name = (case ob of None \<Rightarrow> None | Some j \<Rightarrow> get_object_item j name True)"

lemma GetObjectItem_lookup: "cJSON_GetObjectItem (Some j) name = get_object_item j name False"
  by (cases j) (simp_all add: cJSON_GetObjectItem_def get_object_item_def lookup_def key_eq_def)

text \<open>The position of a member, for the operations that take or replace it.\<close>

fun member_index :: "bool \<Rightarrow> string \<Rightarrow> (string \<times> 'a) list \<Rightarrow> nat option" where
  "member_index case_sensitive name [] = None"
| "member_index case_sensitive name ((k, v) # kvs) =
     (if key_eq case_sensitive name k then Some 0 else map_option Suc (member_index case_sensitive name kvs))"

section \<open>Taking out, inserting and replacing\<close>

definition remove_at :: "nat \<Rightarrow> 'a list \<Rightarrow> 'a list" where
  "remove_at i xs = take i xs @ drop (Suc i) xs"

definition insert_at :: "nat \<Rightarrow> 'a \<Rightarrow> 'a list \<Rightarrow> 'a list" where
  "insert_at i x xs = take i xs @ x # drop i xs"

fun detach_at :: "json \<Rightarrow> nat \<Rightarrow> json option \<times> json" where
  "detach_at (JArr xs) i = (rd xs i, JArr (remove_at i xs))"
| "detach_at (JObj kvs) i = (map_option snd (rd kvs i), JObj (remove_at i kvs))"
| "detach_at j i = (None, j)"

definition cJSON_DetachItemFromArray :: "json \<Rightarrow> int \<Rightarrow> json option \<times> json" where
  "cJSON_DetachItemFromArray j which = (if which < 0 then (None, j) else detach_at j (nat which))"

definition cJSON_DeleteItemFromArray :: "json \<Rightarrow> int \<Rightarrow> json" where
  "cJSON_DeleteItemFromArray j which = snd (cJSON_DetachItemFromArray j which)"

definition detach_member :: "bool \<Rightarrow> json \<Rightarrow> string \<Rightarrow> json option \<times> json" where
  "detach_member case_sensitive j name = (case j of
     JObj kvs \<Rightarrow> (case member_index case_sensitive name kvs of None \<Rightarrow> (None, j) | Some i \<Rightarrow> detach_at j i)
   | _ \<Rightarrow> (None, j))"

definition cJSON_DetachItemFromObject :: "json \<Rightarrow> string \<Rightarrow> json option \<times> json" where
  "cJSON_DetachItemFromObject = detach_member False"

definition cJSON_DetachItemFromObjectCaseSensitive :: "json \<Rightarrow> string \<Rightarrow> json option \<times> json" where
  "cJSON_DetachItemFromObjectCaseSensitive = detach_member True"

definition cJSON_DeleteItemFromObject :: "json \<Rightarrow> string \<Rightarrow> json" where
  "cJSON_DeleteItemFromObject j name = snd (cJSON_DetachItemFromObject j name)"

definition cJSON_DeleteItemFromObjectCaseSensitive :: "json \<Rightarrow> string \<Rightarrow> json" where
  "cJSON_DeleteItemFromObjectCaseSensitive j name = snd (cJSON_DetachItemFromObjectCaseSensitive j name)"

text \<open>Behind the last item, inserting is adding. A new member of an object has no name.\<close>

definition cJSON_InsertItemInArray :: "json \<Rightarrow> int \<Rightarrow> json \<Rightarrow> bool \<times> json" where
  "cJSON_InsertItemInArray j which newitem =
     (if which < 0 then (False, j)
      else if nat which \<ge> length (children j) then (True, cJSON_AddItemToArray j newitem)
      else (True, case j of
        JArr xs \<Rightarrow> JArr (insert_at (nat which) newitem xs)
      | JObj kvs \<Rightarrow> JObj (insert_at (nat which) ([], newitem) kvs)
      | j \<Rightarrow> j))"

definition cJSON_ReplaceItemInArray :: "json \<Rightarrow> int \<Rightarrow> json \<Rightarrow> bool \<times> json" where
  "cJSON_ReplaceItemInArray j which newitem =
     (if which < 0 \<or> nat which \<ge> length (children j) then (False, j)
      else (True, case j of
        JArr xs \<Rightarrow> JArr (xs[nat which := newitem])
      | JObj kvs \<Rightarrow> JObj (kvs[nat which := ([], newitem)])
      | j \<Rightarrow> j))"

text \<open>The replacement gets the name that was asked for, which may differ in case from the one it replaces.\<close>

definition replace_item_in_object :: "json \<Rightarrow> string \<Rightarrow> json \<Rightarrow> bool \<Rightarrow> bool \<times> json" where
  "replace_item_in_object j name replacement case_sensitive = (case j of
     JObj kvs \<Rightarrow> (case member_index case_sensitive name kvs of
       None \<Rightarrow> (False, j) | Some i \<Rightarrow> (True, JObj (kvs[i := (name, replacement)])))
   | _ \<Rightarrow> (False, j))"

definition cJSON_ReplaceItemInObject :: "json \<Rightarrow> string \<Rightarrow> json \<Rightarrow> bool \<times> json" where
  "cJSON_ReplaceItemInObject j name newitem = replace_item_in_object j name newitem False"

definition cJSON_ReplaceItemInObjectCaseSensitive :: "json \<Rightarrow> string \<Rightarrow> json \<Rightarrow> bool \<times> json" where
  "cJSON_ReplaceItemInObjectCaseSensitive j name newitem = replace_item_in_object j name newitem True"

section \<open>Copying and comparing\<close>

fun cJSON_Duplicate :: "json \<Rightarrow> bool \<Rightarrow> json" where
  "cJSON_Duplicate (JArr xs) recurse = JArr (if recurse then map (\<lambda>x. cJSON_Duplicate x True) xs else [])"
| "cJSON_Duplicate (JObj kvs) recurse = JObj (if recurse then map (\<lambda>(k, v). (k, cJSON_Duplicate v True)) kvs else [])"
| "cJSON_Duplicate j recurse = j"

definition cJSON_CreateIntArray :: "int list \<Rightarrow> json" where
  "cJSON_CreateIntArray numbers = JArr (map JNum numbers)"

definition cJSON_CreateStringArray :: "string list \<Rightarrow> json" where
  "cJSON_CreateStringArray strings = JArr (map JStr strings)"

lemma lookup_Some: "lookup b kvs name = Some v \<Longrightarrow> \<exists>k. (k, v) \<in> set kvs \<and> key_eq b name k"
  by (auto simp: lookup_def find_Some_iff) (metis nth_mem split_beta prod.collapse)

lemma size_lookup: "lookup b kvs name = Some v \<Longrightarrow> size v < size (JObj kvs)"
  by (drule lookup_Some) (auto dest!: size_list_estimation' [where f = "size_prod (\<lambda>_. 0) size", rotated, OF order_refl] simp: less_Suc_eq_le)

lemma size_member: "(k, v) \<in> set kvs \<Longrightarrow> size v < size (JObj kvs)"
  by (auto dest!: size_list_estimation' [where f = "size_prod (\<lambda>_. 0) size", rotated, OF order_refl] simp: less_Suc_eq_le)

lemma size_item: "x \<in> set xs \<Longrightarrow> size x < size (JArr xs)"
  by (auto dest!: size_list_estimation' [where f = size, rotated, OF order_refl] simp: less_Suc_eq_le)

lemma size_get_object_item: "get_object_item j k b = Some v \<Longrightarrow> size v < size j"
  by (cases j) (auto simp: get_object_item_def dest: size_lookup simp del: json.size)

text \<open>The numbers are \<open>int\<close> values, so that \<open>compare_double\<close> is equality.\<close>

function cJSON_Compare :: "bool \<Rightarrow> json \<Rightarrow> json \<Rightarrow> bool" where
  "cJSON_Compare case_sensitive a b = (case (a, b) of
     (JNull, JNull) \<Rightarrow> True
   | (JBool x, JBool y) \<Rightarrow> x = y
   | (JNum x, JNum y) \<Rightarrow> x = y
   | (JStr x, JStr y) \<Rightarrow> x = y
   | (JArr xs, JArr ys) \<Rightarrow> length xs = length ys \<and> list_all (\<lambda>(x, y). cJSON_Compare case_sensitive x y) (zip xs ys)
   | (JObj kvs, JObj ls) \<Rightarrow>
       list_all (\<lambda>(k, v). case get_object_item b k case_sensitive of None \<Rightarrow> False
         | Some w \<Rightarrow> cJSON_Compare case_sensitive v w) kvs \<and>
       list_all (\<lambda>(l, w). case get_object_item a l case_sensitive of None \<Rightarrow> False
         | Some v \<Rightarrow> cJSON_Compare case_sensitive w v) ls
   | _ \<Rightarrow> False)"
  by pat_completeness auto
termination
proof (relation "measure (\<lambda>(_, a, b). size a + size b)", goal_cases)
  case (2 cs a b x y xs ys z u v)
  then have "u \<in> set xs" "v \<in> set ys" using set_zip_leftD set_zip_rightD by fast+
  then show ?case using 2 size_item [of u xs] size_item [of v ys] by (auto simp del: json.size)
next
  case (3 cs a b x y kvs ls z k v w)
  then show ?case
    using size_member [of k v kvs] size_get_object_item [of b k cs w] by (auto simp del: json.size)
next
  case (4 cs a b x y kvs ls z k v w)
  then show ?case
    using size_member [of k v ls] size_get_object_item [of a k cs w] by (auto simp del: json.size)
qed simp

declare cJSON_Compare.simps [simp del]

section \<open>Lemmas on lookup and editing\<close>

lemma Duplicate_recursive [simp]: "cJSON_Duplicate j True = j"
proof (induction j)
  case (JArr xs)
  then show ?case by (simp add: map_idI)
next
  case (JObj kvs)
  then show ?case by (auto intro!: map_idI simp: snds.simps)
qed simp_all

lemma detach_insert:
  assumes "i \<le> length xs"
  shows "cJSON_DetachItemFromArray (snd (cJSON_InsertItemInArray (JArr xs) (int i) x)) (int i) = (Some x, JArr xs)"
  using assms by (auto simp: cJSON_DetachItemFromArray_def cJSON_InsertItemInArray_def insert_at_def remove_at_def rd_def
      nth_append min_def)

text \<open>The form in which a name is compared.\<close>

definition norm_key :: "bool \<Rightarrow> string \<Rightarrow> string" where
  "norm_key case_sensitive k = (if case_sensitive then k else map tolower k)"

lemma key_eq_norm: "key_eq b k l \<longleftrightarrow> norm_key b k = norm_key b l"
  by (simp add: key_eq_def norm_key_def case_insensitive_eq_def)

lemma lookup_Cons [simp]:
  "lookup b [] name = None"
  "lookup b ((k, v) # kvs) name = (if key_eq b name k then Some v else lookup b kvs name)"
  by (simp_all add: lookup_def)

lemma lookup_member:
  assumes "distinct (map (norm_key b \<circ> fst) kvs)" and "(k, v) \<in> set kvs" and "key_eq b name k"
  shows "lookup b kvs name = Some v"
  using assms by (induction kvs) (auto simp: key_eq_norm image_iff)

lemma lookup_iff:
  assumes "distinct (map (norm_key b \<circ> fst) kvs)"
  shows "lookup b kvs name = Some v \<longleftrightarrow> (\<exists>k. (k, v) \<in> set kvs \<and> key_eq b name k)"
  using lookup_Some [of b kvs name v] lookup_member [OF assms] by blast

section \<open>Equality up to the order of members\<close>

text \<open>Two items are the same when they differ in the order of the members of objects only, and, if case does
  not count, in the case of names.\<close>

inductive same_json :: "bool \<Rightarrow> json \<Rightarrow> json \<Rightarrow> bool" for b where
  null: "same_json b JNull JNull"
| bool: "same_json b (JBool x) (JBool x)"
| num: "same_json b (JNum n) (JNum n)"
| str: "same_json b (JStr s) (JStr s)"
| arr: "list_all2 (same_json b) xs ys \<Longrightarrow> same_json b (JArr xs) (JArr ys)"
| obj: "mset ls' = mset ls \<Longrightarrow> list_all2 (\<lambda>x y. key_eq b (fst x) (fst y) \<and> same_json b (snd x) (snd y)) kvs ls' \<Longrightarrow>
    same_json b (JObj kvs) (JObj ls)"

inductive_simps same_json_simps:
  "same_json b JNull j" "same_json b (JBool x) j" "same_json b (JNum n) j" "same_json b (JStr s) j"
  "same_json b (JArr xs) j" "same_json b (JObj kvs) j"

fun distinct_keys :: "bool \<Rightarrow> json \<Rightarrow> bool" where
  "distinct_keys b (JArr xs) \<longleftrightarrow> list_all (distinct_keys b) xs"
| "distinct_keys b (JObj kvs) \<longleftrightarrow>
     distinct (map (norm_key b \<circ> fst) kvs) \<and> list_all (\<lambda>(k, v). distinct_keys b v) kvs"
| "distinct_keys b _ \<longleftrightarrow> True"

lemma same_json_sym: "same_json b x y \<Longrightarrow> same_json b y x"
proof (induction rule: same_json.induct)
  case (arr xs ys)
  then show ?case by (auto intro!: same_json.arr simp: list_all2_conv_all_nth)
next
  case (obj ls' ls kvs)
  have "list_all2 (\<lambda>x y. key_eq b (fst x) (fst y) \<and> same_json b (snd x) (snd y)) ls' kvs"
    using obj(2) by (auto simp: list_all2_conv_all_nth key_eq_norm)
  from list_all2_reorder_left_invariance [OF this obj(1) [symmetric]] show ?case
    by (blast intro: same_json.obj)
qed (simp_all add: same_json_simps)

text \<open>Objects: every member has a partner on the other side.\<close>

definition partners :: "bool \<Rightarrow> (json \<Rightarrow> json \<Rightarrow> bool) \<Rightarrow> (string \<times> json) list \<Rightarrow> (string \<times> json) list \<Rightarrow> bool" where
  "partners b R kvs ls \<longleftrightarrow> (\<forall>(k, v) \<in> set kvs. \<exists>(l, w) \<in> set ls. key_eq b k l \<and> R v w)"

lemma same_members:
  assumes kvs: "distinct (map (norm_key b \<circ> fst) kvs)" and ls: "distinct (map (norm_key b \<circ> fst) ls)"
  shows "same_json b (JObj kvs) (JObj ls) \<longleftrightarrow> partners b (same_json b) kvs ls \<and> partners b (same_json b) ls kvs"
    (is "?L \<longleftrightarrow> ?R")
proof
  have half: "partners b (same_json b) kvs ls" if same: "same_json b (JObj kvs) (JObj ls)" for kvs ls
  proof -
    obtain ls' where ls': "mset ls' = mset ls" "list_all2 (\<lambda>x y. key_eq b (fst x) (fst y) \<and> same_json b (snd x) (snd y)) kvs ls'"
      using same by (auto simp: same_json_simps)
    have "\<exists>y \<in> set ls. key_eq b (fst x) (fst y) \<and> same_json b (snd x) (snd y)" if x: "x \<in> set kvs" for x
    proof -
      obtain i where i: "i < length kvs" "x = kvs ! i" using x by (auto simp: in_set_conv_nth)
      then have "ls' ! i \<in> set ls'" using list_all2_lengthD [OF ls'(2)] by simp
      then have "ls' ! i \<in> set ls" unfolding mset_eq_setD [OF ls'(1)] .
      with i list_all2_nthD [OF ls'(2) i(1)] show ?thesis by blast
    qed
    then show ?thesis by (fastforce simp: partners_def)
  qed
  show "?L \<Longrightarrow> ?R" using half same_json_sym by blast
next
  assume R: ?R
  define f where "f x = (SOME y. y \<in> set ls \<and> key_eq b (fst x) (fst y) \<and> same_json b (snd x) (snd y))" for x :: "string \<times> json"
  have f: "f x \<in> set ls \<and> key_eq b (fst x) (fst (f x)) \<and> same_json b (snd x) (snd (f x))" if "x \<in> set kvs" for x
    unfolding f_def by (rule someI_ex) (use R that in \<open>fastforce simp: partners_def\<close>)
  have "map (norm_key b \<circ> fst) (map f kvs) = map (norm_key b \<circ> fst) kvs"
    using f by (simp add: key_eq_norm)
  with kvs have d: "distinct (map f kvs)" by (metis distinct_map)
  have "y \<in> set (map f kvs)" if y: "y \<in> set ls" for y
  proof -
    obtain x where x: "x \<in> set kvs" "key_eq b (fst y) (fst x)" using R y by (fastforce simp: partners_def)
    then have "norm_key b (fst (f x)) = norm_key b (fst y)" using f by (simp add: key_eq_norm)
    with ls y f x have "f x = y" by (auto simp: distinct_map inj_on_def)
    with x show ?thesis by auto
  qed
  then have "set (map f kvs) = set ls" using f by auto
  then have "mset (map f kvs) = mset ls" using d ls by (metis distinct_map set_eq_iff_mset_eq_distinct)
  moreover have "list_all2 (\<lambda>x y. key_eq b (fst x) (fst y) \<and> same_json b (snd x) (snd y)) kvs (map f kvs)"
    using f by (simp add: list_all2_conv_all_nth)
  ultimately show ?L by (rule same_json.obj)
qed

lemma compare_objects:
  assumes "distinct (map (norm_key b \<circ> fst) kvs)" and "distinct (map (norm_key b \<circ> fst) ls)"
  shows "cJSON_Compare b (JObj kvs) (JObj ls) \<longleftrightarrow> partners b (cJSON_Compare b) kvs ls \<and> partners b (cJSON_Compare b) ls kvs"
proof -
  have half: "list_all (\<lambda>(k, v). case get_object_item (JObj ys) k b of None \<Rightarrow> False | Some w \<Rightarrow> cJSON_Compare b v w) xs
      \<longleftrightarrow> partners b (cJSON_Compare b) xs ys" if "distinct (map (norm_key b \<circ> fst) ys)" for xs ys
  proof -
    have "(\<exists>(l, w) \<in> set ys. key_eq b k l \<and> cJSON_Compare b v w) \<longleftrightarrow> (\<exists>w. lookup b ys k = Some w \<and> cJSON_Compare b v w)"
      for k v unfolding lookup_iff [OF that] by blast
    then have "(case get_object_item (JObj ys) k b of None \<Rightarrow> False | Some w \<Rightarrow> cJSON_Compare b v w)
        \<longleftrightarrow> (\<exists>(l, w) \<in> set ys. key_eq b k l \<and> cJSON_Compare b v w)" for k v
      by (simp add: get_object_item_def split: option.split)
    then show ?thesis by (simp add: list_all_iff partners_def)
  qed
  show ?thesis by (subst cJSON_Compare.simps) (simp add: half assms)
qed

lemma partners_cong:
  "(\<And>k v l w. (k, v) \<in> set kvs \<Longrightarrow> (l, w) \<in> set ls \<Longrightarrow> R v w = S v w) \<Longrightarrow> partners b R kvs ls = partners b S kvs ls"
  unfolding partners_def by (fastforce intro!: ball_cong bex_cong)

lemma compare_same:
  "distinct_keys b x \<Longrightarrow> distinct_keys b y \<Longrightarrow> cJSON_Compare b x y \<longleftrightarrow> same_json b x y"
proof (induction "size x + size y" arbitrary: x y rule: less_induct)
  case less
  consider xs ys where "x = JArr xs" "y = JArr ys" | kvs ls where "x = JObj kvs" "y = JObj ls"
    | "\<not> (\<exists>xs ys. x = JArr xs \<and> y = JArr ys)" "\<not> (\<exists>kvs ls. x = JObj kvs \<and> y = JObj ls)"
    by blast
  then show ?case
  proof cases
    case 1
    have "cJSON_Compare b u v \<longleftrightarrow> same_json b u v" if "u \<in> set xs" "v \<in> set ys" for u v
      using less.hyps [of u v] less.prems that size_item [OF that(1)] size_item [OF that(2)] 1
      by (simp add: list_all_iff del: json.size)
    then have "cJSON_Compare b u v \<longleftrightarrow> same_json b u v" if "(u, v) \<in> set (zip xs ys)" for u v
      using set_zip_leftD [OF that] set_zip_rightD [OF that] by blast
    then show ?thesis
      unfolding 1 by (auto simp: cJSON_Compare.simps [of b "JArr xs"] same_json_simps list_all2_iff list_all_iff)
  next
    case 2
    have ih: "(cJSON_Compare b v w \<longleftrightarrow> same_json b v w) \<and> (cJSON_Compare b w v \<longleftrightarrow> same_json b w v)"
      if "(k, v) \<in> set kvs" "(l, w) \<in> set ls" for k v l w
      using less.hyps [of v w] less.hyps [of w v] less.prems that size_member [OF that(1)] size_member [OF that(2)] 2
      by (auto simp: list_all_iff simp del: json.size)
    then show ?thesis
      using less.prems unfolding 2 by (simp add: compare_objects same_members cong: partners_cong)
  next
    case 3
    then show ?thesis by (cases x; cases y) (auto simp: cJSON_Compare.simps same_json_simps)
  qed
qed

lemma same_json_refl: "same_json b j j"
proof (induction j)
  case (JArr xs)
  then show ?case by (auto intro!: same_json.arr simp: list_all2_same)
next
  case (JObj kvs)
  then show ?case by (auto intro!: same_json.obj [OF refl] simp: list_all2_same key_eq_norm snds.simps)
qed (simp_all add: same_json.intros)

section \<open>Properties\<close>

text \<open>C15: For items without two members of the same name, \<open>cJSON_Compare\<close> decides equality up to the order of
  members; in particular an item equals its copy.\<close>

theorem compare_up_to_order:
  assumes "distinct_keys b x" and "distinct_keys b y"
  shows "(cJSON_Compare b x y \<longleftrightarrow> same_json b x y) \<and> cJSON_Compare b x (cJSON_Duplicate x True)"
  using compare_same [OF assms] compare_same [OF assms(1,1)] same_json_refl [of b x] by simp

lemma compare_up_to_order_witness:
  "cJSON_Compare False (JObj [(''a'', JNum 1), (''b'', JArr [JNull])]) (JObj [(''B'', JArr [JNull]), (''a'', JNum 1)])"
proof -
  let ?x = "JObj [(''a'', JNum 1), (''b'', JArr [JNull])]" and ?y = "JObj [(''B'', JArr [JNull]), (''a'', JNum 1)]"
  have "mset [(''a'', JNum 1), (''B'', JArr [JNull])] = mset [(''B'', JArr [JNull]), (''a'', JNum 1)]" by simp
  then have "same_json False ?x ?y"
    by (rule same_json.obj) (simp add: same_json.intros key_eq_norm norm_key_def tolower_def char_of_def bit_Suc_0_iff)
  then show ?thesis using compare_up_to_order [of False ?x ?y]
    by (simp add: norm_key_def tolower_def char_of_def bit_Suc_0_iff)
qed

text \<open>With two members of one name, only the first of them is ever looked up, and an item differs from its copy.\<close>

lemma compare_repeated_name:
  "\<not> cJSON_Compare b (JObj [(''a'', JNum 1), (''a'', JNum 2)]) (cJSON_Duplicate (JObj [(''a'', JNum 1), (''a'', JNum 2)]) True)"
  by (simp add: cJSON_Compare.simps get_object_item_def key_eq_norm)

end
