(* ===== verification/X50_Base64.thy ===== *)
theory X50_Base64
  imports X50_Prelude
begin

text \<open>
  Base64 (\<open>liblinktool/base64/base64.c\<close>): the encoder and the decoder of the tool library, which goes
  through the text character by character and writes into a buffer of the caller.
\<close>

section \<open>The tables\<close>

definition base64en :: string where
  "base64en = ''ABCDEFGHIJKLMNOPQRSTUVWXYZabcdefghijklmnopqrstuvwxyz0123456789+/''"

text \<open>The values of the characters 0 to 127, 255 for the others.\<close>

definition base64de :: bytes where
  "base64de = replicate 43 255 @ [62, 255, 255, 255, 63] @ map byte_of_nat [52..<62] @ replicate 7 255 @
     map byte_of_nat [0..<26] @ replicate 6 255 @ map byte_of_nat [26..<52] @ replicate 5 255"

section \<open>Encoding\<close>

text \<open>The state is the position in a group of three bytes, the byte before and the text so far; every index
  into the table is less than 64.\<close>

definition en :: "byte \<Rightarrow> char" where
  "en b = base64en ! unat b"

text \<open>The four indices of a group, and the last ones of an incomplete group.\<close>

definition index1 :: "byte \<Rightarrow> byte" where "index1 c = drop_bit 2 c AND 0x3F"
definition index2 :: "byte \<Rightarrow> byte \<Rightarrow> byte" where "index2 l c = push_bit 4 (l AND 0x3) OR (drop_bit 4 c AND 0xF)"
definition index3 :: "byte \<Rightarrow> byte \<Rightarrow> byte" where "index3 l c = push_bit 2 (l AND 0xF) OR (drop_bit 6 c AND 0x3)"
definition index4 :: "byte \<Rightarrow> byte" where "index4 c = c AND 0x3F"
definition last2 :: "byte \<Rightarrow> byte" where "last2 l = push_bit 4 (l AND 0x3)"
definition last3 :: "byte \<Rightarrow> byte" where "last3 l = push_bit 2 (l AND 0xF)"

definition encode_step :: "byte \<Rightarrow> nat \<times> byte \<times> string \<Rightarrow> nat \<times> byte \<times> string" where
  "encode_step c st = (case st of (s, l, out) \<Rightarrow>
     if s = 0 then (1, c, out @ [en (index1 c)])
     else if s = 1 then (2, c, out @ [en (index2 l c)])
     else (0, c, out @ [en (index3 l c), en (index4 c)]))"

definition encode_end :: "nat \<times> byte \<times> string \<Rightarrow> string" where
  "encode_end st = (case st of (s, l, out) \<Rightarrow>
     if s = 1 then out @ [en (last2 l), CHR ''='', CHR ''='']
     else if s = 2 then out @ [en (last3 l), CHR ''='']
     else out)"

definition base64_encode :: "bytes \<Rightarrow> string" where
  "base64_encode bs = encode_end (fold encode_step bs (0, 0, []))"

section \<open>Decoding\<close>

text \<open>The bits a character adds to the byte under construction, and those it starts the next one with.\<close>

definition first_bits :: "byte \<Rightarrow> byte" where "first_bits c = push_bit 2 c AND 0xFF"
definition add2 :: "byte \<Rightarrow> byte" where "add2 c = drop_bit 4 c AND 0x3"
definition next2 :: "byte \<Rightarrow> byte" where "next2 c = push_bit 4 (c AND 0xF)"
definition add3 :: "byte \<Rightarrow> byte" where "add3 c = drop_bit 2 c AND 0xF"
definition next3 :: "byte \<Rightarrow> byte" where "next3 c = push_bit 6 (c AND 0x3)"

text \<open>\<open>out\<close> is the buffer, \<open>j\<close> the number of bytes that are complete. A character that is not in the alphabet
  makes the result 0.\<close>

definition or_at :: "bytes \<Rightarrow> nat \<Rightarrow> byte \<Rightarrow> bytes option" where
  "or_at out j b = do { x \<leftarrow> rd out j; wr_n out j [x OR b] }"

definition decode_char :: "nat \<Rightarrow> byte \<Rightarrow> nat \<Rightarrow> bytes \<Rightarrow> (nat \<times> bytes) option" where
  "decode_char i c j out =
     (if i AND 3 = 0 then do { out \<leftarrow> wr_n out j [first_bits c]; Some (j, out) }
      else if i AND 3 = 1 then do {
        out \<leftarrow> or_at out j (add2 c);
        out \<leftarrow> wr_n out (j + 1) [next2 c];
        Some (j + 1, out)
      }
      else if i AND 3 = 2 then do {
        out \<leftarrow> or_at out j (add3 c);
        out \<leftarrow> wr_n out (j + 1) [next3 c];
        Some (j + 1, out)
      }
      else do { out \<leftarrow> or_at out j c; Some (j + 1, out) })"

fun decode_loop :: "string \<Rightarrow> nat \<Rightarrow> nat \<Rightarrow> bytes \<Rightarrow> (nat \<times> bytes) option" where
  "decode_loop [] i j out = Some (j, out)"
| "decode_loop (ch # cs) i j out =
     (if ch = CHR ''='' then Some (j, out)
      else if (of_char ch :: nat) < of_char (CHR ''+'') \<or> (of_char ch :: nat) > of_char (CHR ''z'') then Some (0, out)
      else do {
        c \<leftarrow> rd base64de (of_char ch);
        if c = 255 then Some (0, out)
        else do { (j, out) \<leftarrow> decode_char i c j out; decode_loop cs (i + 1) j out }
      })"

definition base64_decode :: "string \<Rightarrow> bytes \<Rightarrow> (nat \<times> bytes) option" where
  "base64_decode text out = (if length text AND 3 \<noteq> 0 then Some (0, out) else decode_loop text 0 0 out)"

section \<open>The encoder by groups\<close>

lemma encode_step_simps [simp]:
  "encode_step c (0, l, out) = (1, c, out @ [en (index1 c)])"
  "encode_step c (Suc 0, l, out) = (2, c, out @ [en (index2 l c)])"
  "encode_step c (2, l, out) = (0, c, out @ [en (index3 l c), en (index4 c)])"
  by (simp_all add: encode_step_def)

lemma encode_step_out: "\<exists>s' t. \<forall>out. encode_step c (s, l, out) = (s', c, out @ t)"
  by (auto simp: encode_step_def)

lemma fold_encode_step:
  "fold encode_step bs (s, l, out) = (case fold encode_step bs (s, l, []) of (s', l', t) \<Rightarrow> (s', l', out @ t))"
proof (induction bs arbitrary: s l out)
  case (Cons b bs)
  obtain s' t where "\<And>out. encode_step b (s, l, out) = (s', b, out @ t)" using encode_step_out by blast
  then show ?case using Cons.IH [of s' b t] Cons.IH [of s' b "out @ t"] by (simp split: prod.split)
qed simp

lemma encode_end_out: "encode_end (s, l, out @ t) = out @ encode_end (s, l, t)"
  by (simp add: encode_end_def)

lemma encode_start: "encode_end (fold encode_step bs (0, l, [])) = base64_encode bs"
  by (cases bs) (simp_all add: base64_encode_def encode_end_def)

lemma encode_group:
  "base64_encode (a # b # c # bs) =
     [en (index1 a), en (index2 a b),
      en (index3 b c), en (index4 c)] @ base64_encode bs"
    (is "_ = ?t @ _")
proof -
  have "base64_encode (a # b # c # bs) = encode_end (fold encode_step bs (0, c, ?t))"
    by (simp add: base64_encode_def)
  also have "\<dots> = ?t @ encode_end (fold encode_step bs (0, c, []))"
    by (simp only: fold_encode_step [of bs 0 c ?t] encode_end_out split: prod.split) simp
  finally show ?thesis by (simp add: encode_start)
qed

lemma encode_last:
  "base64_encode [] = []"
  "base64_encode [a] = [en (index1 a), en (last2 a), CHR ''='', CHR ''='']"
  "base64_encode [a, b] = [en (index1 a), en (index2 a b),
     en (last3 b), CHR ''='']"
  by (simp_all add: base64_encode_def encode_end_def)

lemma group_induct [case_names none one two three]:
  assumes "P []" and "\<And>a. P [a]" and "\<And>a b. P [a, b]" and "\<And>a b c bs. P bs \<Longrightarrow> P (a # b # c # bs)"
  shows "P bs"
  using assms by induction_schema (pat_completeness, lexicographic_order)

lemma length_base64_encode: "length (base64_encode bs) = (length bs + 2) div 3 * 4"
proof (induction bs rule: group_induct)
  case (three a b c bs)
  have "(length (a # b # c # bs) + 2) div 3 = (length bs + 2 + 3) div 3" by simp
  also have "\<dots> = (length bs + 2) div 3 + 1" by (simp only: div_add_self2)
  finally show ?case using three by (simp add: encode_group)
qed (simp_all add: encode_last)

section \<open>Characters and their values\<close>

lemma en_table:
  "\<forall>n \<in> set [0..<64]. base64en ! n \<noteq> CHR ''='' \<and> 43 \<le> (of_char (base64en ! n) :: nat) \<and> (of_char (base64en ! n) :: nat) \<le> 122 \<and>
     base64de ! of_char (base64en ! n) = byte_of_nat n"
  by code_simp

lemma length_base64de [simp]: "length base64de = 128"
  by (simp add: base64de_def)

lemma decode_en:
  assumes "unat c < 64"
  shows "decode_loop (en c # cs) i j out = do { (j, out) \<leftarrow> decode_char i c j out; decode_loop cs (i + 1) j out }"
proof -
  have "base64en ! unat c \<noteq> CHR ''='' \<and> 43 \<le> (of_char (base64en ! unat c) :: nat) \<and> (of_char (base64en ! unat c) :: nat) \<le> 122 \<and>
     base64de ! of_char (base64en ! unat c) = byte_of_nat (unat c)"
    using en_table assms by (simp del: byte_of_nat_unat)
  moreover have "c \<noteq> 255" using assms by auto
  ultimately show ?thesis by (simp add: en_def rd_def)
qed

lemma decode_pad: "decode_loop (CHR ''='' # cs) i j out = Some (j, out)"
  by simp

declare decode_loop.simps(2) [simp del]

lemma masks: "(0x3F :: byte) = mask 6" "(0xF :: byte) = mask 4" "(3 :: byte) = mask 2" "(0xFF :: byte) = mask 8"
  by (simp_all add: mask_eq_exp_minus_1)

lemma byte_eqI: "(\<And>n. n \<in> {0, 1, 2, 3, 4, 5, 6, 7} \<Longrightarrow> bit a n = bit b n) \<Longrightarrow> (a :: byte) = b"
proof (rule bit_word_eqI)
  fix n
  assume n: "\<And>n. n \<in> {0, 1, 2, 3, 4, 5, 6, 7} \<Longrightarrow> bit a n = bit b n" and l: "n < LENGTH(8)"
  from l have "n = 0 \<or> n = 1 \<or> n = 2 \<or> n = 3 \<or> n = 4 \<or> n = 5 \<or> n = 6 \<or> n = 7" by (simp, presburger)
  then show "bit a n = bit b n" by (intro n) simp
qed

lemma small_byte: "\<not> bit b 6 \<Longrightarrow> \<not> bit b 7 \<Longrightarrow> unat (b :: byte) < 64"
proof -
  assume "\<not> bit b 6" "\<not> bit b 7"
  then have "take_bit 6 b = b" by (intro byte_eqI) (auto simp: bit_simps)
  then have "unat b = unat (take_bit 6 b)" by simp
  also have "\<dots> = take_bit 6 (unat b)" by (simp add: unsigned_take_bit_eq)
  also have "\<dots> < 64" using take_bit_nat_less_exp [of 6 "unat b"] by simp
  finally show ?thesis .
qed

lemmas bit_defs = index1_def index2_def index3_def index4_def last2_def last3_def
  first_bits_def add2_def next2_def add3_def next3_def masks bit_simps

lemma sextets [simp]:
  "unat (index1 a) < 64" "unat (index2 a b) < 64" "unat (index3 b c) < 64" "unat (index4 c) < 64"
  "unat (last2 a) < 64" "unat (last3 b) < 64"
  by (rule small_byte; simp add: bit_defs)+

text \<open>What the decoder puts together.\<close>

lemma joined [simp]:
  "first_bits (index1 a) OR add2 (index2 a b) = a" "first_bits (index1 a) OR add2 (last2 a) = a"
  "next2 (index2 a b) OR add3 (index3 b c) = b" "next2 (index2 a b) OR add3 (last3 b) = b"
  "next3 (index3 b c) OR index4 c = c"
  by (rule byte_eqI; auto simp: bit_defs; simp add: eval_nat_numeral)+

section \<open>The decoder by groups\<close>

text \<open>The buffer is split at the position that is written next.\<close>

lemma buffer_here [simp]:
  "wr_n (pre @ x # rs) (length pre) [b] = Some (pre @ b # rs)"
  "wr_n (pre @ x # y # rs) (Suc (length pre)) [b] = Some (pre @ x # b # rs)"
  "or_at (pre @ x # rs) (length pre) b = Some (pre @ (x OR b) # rs)"
  by (simp_all add: wr_n_def or_at_def rd_def)

lemma and_3 [simp]: "(4 * k) AND 3 = (0 :: nat)" "Suc (4 * k) AND 3 = (1 :: nat)" "Suc (Suc (4 * k)) AND 3 = (2 :: nat)"
    "Suc (Suc (Suc (4 * k))) AND 3 = (3 :: nat)"
proof -
  have "m AND 3 = m mod 4" for m :: nat using take_bit_eq_mask [of 2 m] by (simp add: take_bit_eq_mod mask_eq_exp_minus_1)
  then show "(4 * k) AND 3 = (0 :: nat)" "Suc (4 * k) AND 3 = (1 :: nat)" "Suc (Suc (4 * k)) AND 3 = (2 :: nat)"
    "Suc (Suc (Suc (4 * k))) AND 3 = (3 :: nat)" by (simp_all, presburger+)
qed

lemma decode_chars:
  "decode_char (4 * k) c (length pre) (pre @ x # rs) = Some (length pre, pre @ (first_bits c) # rs)"
  "decode_char (Suc (4 * k)) c (length pre) (pre @ x # y # rs) =
     Some (Suc (length pre), pre @ (x OR (add2 c)) # next2 c # rs)"
  "decode_char (Suc (Suc (4 * k))) c (length pre) (pre @ x # y # rs) =
     Some (Suc (length pre), pre @ (x OR (add3 c)) # next3 c # rs)"
  "decode_char (Suc (Suc (Suc (4 * k)))) c (length pre) (pre @ x # rs) = Some (Suc (length pre), pre @ (x OR c) # rs)"
  by (simp_all add: decode_char_def)

lemma decode_group:
  "decode_loop ([en (index1 a), en (index2 a b),
      en (index3 b c), en (index4 c)] @ cs) (4 * k) (length pre) (pre @ x # y # z # rs)
   = decode_loop cs (4 * Suc k) (length (pre @ [a, b, c])) ((pre @ [a, b, c]) @ rs)"
proof -
  have "4 * Suc k = Suc (Suc (Suc (Suc (4 * k))))" by simp
  then show ?thesis
    by (simp add: decode_en decode_chars decode_chars(3) [where pre = "pre @ [_]", simplified]
      decode_chars(4) [where pre = "pre @ [_, _]", simplified] del: mult_Suc_right)
qed

lemma three_items:
  assumes "3 \<le> length rs"
  obtains x y z ts where "rs = x # y # z # ts"
  using assms by (cases rs; cases "tl rs"; cases "tl (tl rs)") auto

lemma decode_encode:
  assumes "(length bs + 2) div 3 * 3 \<le> length rest"
  shows "\<exists>rest'. decode_loop (base64_encode bs) (4 * k) (length pre) (pre @ rest) = Some (length pre + length bs, pre @ bs @ rest')
    \<and> length bs + length rest' = length rest"
  using assms
proof (induction bs arbitrary: k pre rest rule: group_induct)
  case (one a)
  then obtain x y z rs where "rest = x # y # z # rs" by (auto elim: three_items)
  then show ?case by (simp add: encode_last decode_en decode_chars decode_pad)
next
  case (two a b)
  then obtain x y z rs where "rest = x # y # z # rs" by (auto elim: three_items)
  then show ?case
    by (simp add: encode_last decode_en decode_chars decode_pad decode_chars(3) [where pre = "pre @ [_]", simplified])
next
  case (three a b c bs)
  have "(length (a # b # c # bs) + 2) div 3 = (length bs + 2) div 3 + 1"
    using div_add_self2 [of 3 "length bs + 2"] by simp
  with three.prems have r: "(length bs + 2) div 3 * 3 + 3 \<le> length rest" by simp
  then obtain x y z rs where rest: "rest = x # y # z # rs" using three_items [of rest] by (metis add_leE le_add2 add.commute)
  with r have "(length bs + 2) div 3 * 3 \<le> length rs" by simp
  from three.IH [OF this, of "Suc k" "pre @ [a, b, c]"] show ?case
    unfolding rest encode_group decode_group by (auto simp: algebra_simps)
qed (simp add: encode_last)

section \<open>Properties\<close>

text \<open>C17: What is encoded is decoded to the same bytes, with their number as the result; the encoded text has
  the length \<open>BASE64_ENCODE_OUT_SIZE\<close> reserves, and decoding stays inside a buffer of \<open>BASE64_DECODE_OUT_SIZE\<close>
  bytes.\<close>

theorem base64_roundtrip:
  assumes "length (base64_encode bs) div 4 * 3 \<le> length out"
  shows "length (base64_encode bs) = (length bs + 2) div 3 * 4 \<and>
    (\<exists>rest. base64_decode (base64_encode bs) out = Some (length bs, bs @ rest) \<and> length (bs @ rest) = length out)"
proof -
  have "length (base64_encode bs) AND 3 = 0"
    using and_3(1) [of "(length bs + 2) div 3"] by (simp add: length_base64_encode mult.commute)
  then show ?thesis
    using decode_encode [of bs out 0 "[]"] assms by (auto simp: base64_decode_def length_base64_encode)
qed

lemma base64_roundtrip_witness:
  "\<exists>rest. base64_decode (base64_encode [104, 101, 108, 108, 111]) (replicate 6 0) = Some (5, [104, 101, 108, 108, 111] @ rest)"
  using base64_roundtrip [of "[104, 101, 108, 108, 111]" "replicate 6 0"] by (auto simp: length_base64_encode)

end
