(* ===== verification/Spec2Isabelle.thy ===== *)
theory Spec2Isabelle
  imports X50_Uds_Service X50_Program X50_Race X50_Crc_Spec X50_Cloud_Set X50_First_Report X50_Json_Edit X50_Base64
begin

text \<open>
  Verification library for the communication board of the X50 appliance.

  \<^bold>\<open>The program.\<close> The process \<open>X50app\<close> (\<open>x50/src\<close>) sits between the boards of an oven with a hood, a
  user interface on the same board and the Alibaba cloud. Paths below are relative to \<open>x50/src\<close> unless they
  start with \<open>liblinktool\<close> or \<open>x50\<close>. \<open>main.c\<close> starts three threads:
  \<^item> the serial task (\<open>uart/uart_task.c\<close>), a select loop over the power board (\<open>uart/ecb_uart*.c\<close>) and the
    gesture board (\<open>uart/gesture_uart.c\<close>), with a tick of 200 ms for retransmission and supervision;
  \<^item> the task of the UI server (\<open>uds/uds_tcp_server.c\<close>), a second select loop over a listening socket and at
    most two clients, which speak the JSON protocol of \<open>uds/uds_protocol.c\<close>;
  \<^item> the cloud (\<open>aliyun/linkkit_*.c\<close>), which calls back into \<open>cloud_platform_task.c\<close>, \<open>wifi/wifi_task.c\<close>,
    \<open>ota/ota_task.c\<close>, \<open>device/device_task.c\<close> and \<open>databse/database_task.c\<close>.

  A report of the power board is a list of commands with values. It updates the attributes of the device
  record (\<open>g_cloud_dev\<close>) and goes out as one JSON object, to the cloud and to every UI client. A setting of
  the cloud or of a client takes the opposite way: JSON to command bytes, one frame to the power board, kept
  in the retransmission queue until the board acknowledges it. Commands that start cooking also enter a row
  into the cooking history (\<open>databse\<close>, \<open>x50/libhistory\<close>), kept in memory and in sqlite.

  \<^bold>\<open>The style of the model.\<close> One record \<open>world\<close> holds every static variable of the program and the trace
  of its effects on the outside; one record \<open>env\<close> holds what the outside answers. A handler is a function
  \<open>env \<Rightarrow> world \<Rightarrow> ('a \<times> world) option\<close>, executable, with the branches and early returns of the C function it
  is named after. \<open>None\<close> is undefined behaviour (an access outside an object, a NULL pointer, a
  descriptor outside an \<open>fd_set\<close>) or a loop that does not end. Errors the code reports are values: return
  codes, status constants, \<open>NULL\<close> as the \<open>None\<close> of an inner option. Bytes are \<open>8 word\<close>; the millisecond
  clock and the error masks are \<open>32 word\<close>; other \<open>int\<close> values are \<open>int\<close>, reduced where C stores them
  into a byte. The target is 32-bit ARM, so \<open>char\<close> is unsigned and \<open>long\<close> has 32 bits.

  \<^bold>\<open>The theories, from the bottom up.\<close>
  \<^item> \<open>X50_Prelude\<close>: bytes, checked buffer accesses, C strings, folds in the option monad, and the lemma
    collections of the component proofs.
  \<^item> \<open>X50_Json\<close>, \<open>X50_Json_Parse\<close>: \<open>liblinktool/cJSON/cJSON.c\<close>, items, accessors, printer, parser;
    \<open>X50_Json_Text\<close>: the formatted printer, \<open>cJSON_Minify\<close> and a grammar of the texts of an item;
    \<open>X50_Json_Edit\<close>: changing, copying and comparing items.
  \<^item> \<open>X50_Base64\<close>: \<open>liblinktool/base64/base64.c\<close>, which the program does not call.
  \<^item> \<open>X50_Crc\<close>: the checksums of the three wire formats and what they detect; \<open>X50_Crc_Spec\<close>: the CRC as a
    remainder of polynomials.
  \<^item> \<open>X50_Uart_Stream\<close>: the receive loop of both ports, over any frame parser. The locale \<open>frame_stream\<close> is
    what the loop needs of a parser, \<open>total_frame_stream\<close> adds that the parser never faults, and
    \<open>frame_scanner\<close> is for parsers that only look for frames.
  \<^item> \<open>X50_Resend\<close>: the retransmission queue (\<open>uart/uart_resend.c\<close>) on lists; \<open>X50_List\<close>: the intrusive
    list of \<open>liblinktool/tool/list.h\<close> in a heap and the refinement between the two, through the locale
    \<open>step_refinement\<close>; \<open>X50_Race\<close>: the accesses of two threads to that list, interleaved.
  \<^item> \<open>X50_Select\<close>: the select loop of \<open>liblinktool/tcp/select/select_server.c\<close>.
  \<^item> \<open>X50_World\<close>: the state of the program, its effects, its environment.
  \<^item> \<open>X50_Ecb_Codec\<close>, \<open>X50_Ecb_Link\<close>, \<open>X50_Ecb_Parse\<close>, \<open>X50_Ecb_Safe\<close>: the power board; its frames,
    sending, reactions and supervision, and the link as a whole.
  \<^item> \<open>X50_Gesture_Link\<close>, \<open>X50_Gesture\<close>, \<open>X50_Gesture_Safe\<close>: the same for the gesture board.
  \<^item> \<open>X50_Uds_Link\<close>, \<open>X50_Uds_Protocol\<close>, \<open>X50_Uds_Service\<close>: the socket of the UI; clients and outgoing
    frames, requests, and the way from received bytes to dispatched requests.
  \<^item> \<open>X50_Attr\<close>: the tables of UI attributes and the walks over them, with the locale \<open>attr_table\<close> as the
    contract between walk and table; \<open>X50_Wifi_Ota_Tasks\<close>, \<open>X50_Device\<close> and \<open>X50_History_Db\<close> have tables.
  \<^item> \<open>X50_Cloud_Attr\<close>: the attributes of the power board between bytes and JSON; \<open>X50_Cloud_Frame\<close>: what a
    report leaves alone and how it is decoded; \<open>X50_Cloud_Set\<close>: the way of a setting; \<open>X50_Cloud_Task\<close>:
    profile, quadruple, start; \<open>X50_Profile\<close>: the types of the device record; \<open>X50_First_Report\<close>: which
    values can be reported.
  \<^item> \<open>X50_Linkkit\<close>: posting, firmware update, unbinding (\<open>aliyun/*.c\<close>, \<open>ota/ota_task.c\<close>).
  \<^item> \<open>X50_Database\<close>, \<open>X50_History\<close>, \<open>X50_History_Db\<close>: \<open>databse/*.c\<close> and \<open>x50/libhistory\<close>.
  \<^item> \<open>X50_Calm\<close>: what every handler leaves alone, one rule per operation, collected in \<open>calm\<close>.
  \<^item> \<open>X50_Main\<close>: the serial task, start and stop; \<open>X50_Program\<close>: all threads as one step relation.

  \<^bold>\<open>What the lemmas show.\<close>
  \<^item> Wire formats: every built frame is found again, also when it arrives in pieces; which errors the
    checksums see, and that the links act on damaged frames all the same; the CRC is the polynomial
    remainder; printed JSON parses back to the same item, with any white space; comparing items ignores the
    order of members; base64 is decoded to what was encoded.
  \<^item> Reception: with each parser the receive loop ends and stays in its buffer. The interpretations of the
    locales discharge their laws for the scanning part alone and for the whole parsers with all reactions.
  \<^item> Retransmission: how often and when a frame is sent again; the list in memory implements the queue,
    as long as threads use it one after the other, and what happens when they do not.
  \<^item> Reactions: what each message of the boards and each request of a client leads to; reports are decoded
    completely and settings reach the board in table order; OTA and unbinding end in the states they should.
  \<^item> History: order, bounds and numbering are kept; what is evicted when it is full.
  \<^item> Whole program: from the start, in any interleaving of turns, callbacks and timers, both select tables
    stay in step with their clients, and the buffers in bounds; the serial task takes every turn without fault.
  \<^item> Several properties state defects exactly: the input, what the code does, and often that the neighbouring
    inputs are fine.

  \<^bold>\<open>Bounds and termination.\<close> No definition uses fuel. Loops over data recurse on the data; the JSON parser and
  the frame loops decrease the rest of the input; the receive loop, which runs forever with a bad parser, is a
  \<open>partial_function\<close>, and the locales prove that it returns for the parsers there are. Constants are those of
  the code: receive buffers of 512 and 256 bytes, two UI clients, three slots per select table, JSON nesting
  1000, 40 history rows and 40 collected ones, two retransmissions 500 ms apart, 75 ticks of silence.

  \<^bold>\<open>Limits.\<close>
  \<^item> A handler runs to its end before another starts, as if all mutexes were one, and its environment is fixed
    while it runs. Races inside handlers are not visible; \<open>X50_Race\<close> has the one of the retransmission queue.
  \<^item> The results that nothing faults are for device profiles whose reported attributes are numbers
    (\<open>link_ok\<close>). The shipped profile also has texts and structures; \<open>X50_First_Report\<close> states exactly which of
    their values can be reported, while no recipe is cooked by its number.
  \<^item> \<open>malloc\<close> succeeds, and \<open>accept\<close> returns a new descriptor below 1024. Logging is left out. JSON numbers
    are the \<open>int\<close> values the program reads of them.

  \<^bold>\<open>Not modelled.\<close> Code that only moves data to system calls: terminal settings (\<open>liblinktool/tool/UartCfg.c\<close>),
  sockets (\<open>liblinktool/tcp/tcp*.c\<close>, \<open>tool/socketFunc.c\<close>), timers and signals, the HTTP request for the
  quadruple; their results are fields of \<open>env\<close>. The registration of callbacks at start, which are called
  directly here, and the one-line C wrappers of the history class. The servers of \<open>liblinktool/tcp/epoll\<close> and
  \<open>thread\<close>, which the program does not use. Third-party code (\<open>alinksdk\<close>, \<open>klib\<close>, \<open>zlog\<close>, sqlite, curl, the WiFi
  library): the calls the program makes of it are effects, and their results parameters.
\<close>

end
